theory Spec2Isabelle
  imports Complex_Main
begin

section \<open>Data model of numberGuessing.cpp\<close>

text \<open>
  The two structs of the program.  C++ \<open>int\<close> fields are HOL integers; the 32-bit range
  is written out (\<open>INT_MIN\<close>, \<open>INT_MAX\<close>) wherever the code can leave it.  A \<open>double\<close> is
  read as the real number it denotes: arithmetic on doubles is exact real arithmetic,
  and a computation whose IEEE result would be an infinity or a NaN is an error value
  of the model.
\<close>

record GameConfig =
  difficultyName :: string
  minValue :: int
  maxValue :: int
  maxAttempts :: int

record Result =
  playerName :: string
  difficulty :: string
  attempts :: int
  elapsedSeconds :: real
  secretNumber :: int
  score :: real
  timestamp :: string

definition INT_MIN :: int where
  "INT_MIN = - (2 ^ 31)"

definition INT_MAX :: int where
  "INT_MAX = 2 ^ 31 - 1"

definition LLONG_MIN :: int where
  "LLONG_MIN = - (2 ^ 63)"

definition LLONG_MAX :: int where
  "LLONG_MAX = 2 ^ 63 - 1"

definition in_int :: "int \<Rightarrow> bool" where
  "in_int x \<longleftrightarrow> INT_MIN \<le> x \<and> x \<le> INT_MAX"

text \<open>
  What can stop a function other than its return: the two exceptions of the string
  conversions, \<open>exit(0)\<close>, a signed overflow (undefined behaviour in C++), a double that
  is not a finite number, and text whose conversion by the C library is not modelled.
\<close>

datatype error =
  Invalid_argument
  | Out_of_range
  | Process_exit
  | Signed_overflow
  | Not_finite
  | Unmodelled

section \<open>Console and file system\<close>

text \<open>
  One output statement \<open>cout << a << b << ...;\<close> is the list of its operands.  Standard
  input is the list of the lines still to be read; \<open>getline\<close> fails when it is empty.
  The leaderboard file is its content (\<open>None\<close> when it cannot be opened for reading), and
  \<open>csv_writable\<close> says whether opening it for appending succeeds.
\<close>

datatype item = Str string | Num int

type_synonym stmt = "item list"

record world =
  stdin :: "string list"
  stdout :: "stmt list"
  stderr :: "stmt list"
  leaderboard_csv :: "string option"
  csv_writable :: bool

definition cout :: "stmt \<Rightarrow> world \<Rightarrow> world" where
  "cout s w = w\<lparr>stdout := stdout w @ [s]\<rparr>"

definition cerr :: "stmt \<Rightarrow> world \<Rightarrow> world" where
  "cerr s w = w\<lparr>stderr := stderr w @ [s]\<rparr>"

definition NL :: char where
  "NL = CHR 0x0A"

definition QUOTE :: char where
  "QUOTE = CHR 0x22"

section \<open>Decimal conversions of the C++ library\<close>

definition digit_char :: "nat \<Rightarrow> char" where
  "digit_char d = char_of (48 + d)"

definition is_digit :: "char \<Rightarrow> bool" where
  "is_digit c \<longleftrightarrow> 48 \<le> (of_char c :: nat) \<and> (of_char c :: nat) \<le> 57"

definition digit_val :: "char \<Rightarrow> nat" where
  "digit_val c = of_char c - 48"

text \<open>\<open>isspace\<close> in the C locale: space, and the controls 9 to 13.\<close>

definition isspace :: "char \<Rightarrow> bool" where
  "isspace c \<longleftrightarrow> (of_char c :: nat) = 32 \<or> (9 \<le> (of_char c :: nat) \<and> (of_char c :: nat) \<le> 13)"

fun str_nat :: "nat \<Rightarrow> string" where
  "str_nat n = (if n < 10 then [digit_char n] else str_nat (n div 10) @ [digit_char (n mod 10)])"

declare str_nat.simps [simp del]

text \<open>\<open>std::to_string(int)\<close>, also the text \<open>ofstream << int\<close> writes.\<close>

definition to_string :: "int \<Rightarrow> string" where
  "to_string i = (if i < 0 then CHR ''-'' # str_nat (nat (- i)) else str_nat (nat i))"

definition dec_val :: "string \<Rightarrow> nat" where
  "dec_val ds = foldl (\<lambda>a c. 10 * a + digit_val c) 0 ds"

text \<open>
  The integer prefix \<open>strtol\<close> and \<open>strtoll\<close> convert in base 10: white space, an optional
  sign, digits.  The result is the value and the number of characters consumed;
  \<open>None\<close> when there is no digit to convert.
\<close>

definition strtol_prefix :: "string \<Rightarrow> (int \<times> nat) option" where
  "strtol_prefix s =
     (let ws = takeWhile isspace s;
          r1 = dropWhile isspace s;
          neg = (r1 \<noteq> [] \<and> hd r1 = CHR ''-'');
          sgn_len = (if r1 \<noteq> [] \<and> (hd r1 = CHR ''-'' \<or> hd r1 = CHR ''+'') then 1 else 0);
          ds = takeWhile is_digit (drop sgn_len r1)
      in if ds = [] then None
         else Some ((if neg then - int (dec_val ds) else int (dec_val ds)),
                    length ws + sgn_len + length ds))"

text \<open>\<open>std::stoll(s, &idx)\<close>: the value and \<open>idx\<close>, or the exception thrown.\<close>

definition stoll :: "string \<Rightarrow> error + (int \<times> nat)" where
  "stoll s =
     (case strtol_prefix s of
        None \<Rightarrow> Inl Invalid_argument
      | Some (v, idx) \<Rightarrow>
          if v < LLONG_MIN \<or> LLONG_MAX < v then Inl Out_of_range else Inr (v, idx))"

text \<open>\<open>std::stoi(s)\<close>: the value, or the exception thrown.\<close>

definition stoi :: "string \<Rightarrow> error + int" where
  "stoi s =
     (case strtol_prefix s of
        None \<Rightarrow> Inl Invalid_argument
      | Some (v, idx) \<Rightarrow>
          if v < INT_MIN \<or> INT_MAX < v then Inl Out_of_range else Inr v)"

section \<open>Utility helpers\<close>

text \<open>The characters \<open>" \t\r\n"\<close> of \<open>find_first_not_of\<close> and \<open>find_last_not_of\<close>.\<close>

definition blank :: "char \<Rightarrow> bool" where
  "blank c \<longleftrightarrow> c = CHR '' '' \<or> c = CHR 0x09 \<or> c = CHR 0x0D \<or> c = CHR 0x0A"

definition find_first_not_of :: "string \<Rightarrow> nat option" where
  "find_first_not_of line =
     (if list_all blank line then None else Some (length (takeWhile blank line)))"

text \<open>Only called on a line with a non-blank character.\<close>

definition find_last_not_of :: "string \<Rightarrow> nat" where
  "find_last_not_of line = length line - 1 - length (takeWhile blank (rev line))"

definition substr :: "string \<Rightarrow> nat \<Rightarrow> nat \<Rightarrow> string" where
  "substr s pos len = take len (drop pos s)"

text \<open>\<open>safe_getline\<close>: the next line, or the empty string at the end of input.\<close>

definition safe_getline :: "world \<Rightarrow> string \<times> world" where
  "safe_getline w =
     (case stdin w of
        [] \<Rightarrow> ([], w)
      | line # rest \<Rightarrow> (line, w\<lparr>stdin := rest\<rparr>))"

text \<open>
  \<open>prompt_int\<close>: the loop runs once per line read.  \<open>None\<close> is \<open>exit(0)\<close> at the end of
  input.  Every exception of the \<open>try\<close> block is caught by \<open>catch (...)\<close>.
\<close>

function prompt_int :: "string \<Rightarrow> int \<Rightarrow> int \<Rightarrow> world \<Rightarrow> int option \<times> world" where
  "prompt_int prompt minAllowed maxAllowed w =
     (let w1 = cout [Str prompt] w in
      case stdin w1 of
        [] \<Rightarrow> (None, cout [Str (NL # ''Input error. Exiting.'' @ [NL])] w1)
      | line # rest \<Rightarrow>
          (let w2 = w1\<lparr>stdin := rest\<rparr> in
           case find_first_not_of line of
             None \<Rightarrow>
               prompt_int prompt minAllowed maxAllowed
                 (cout [Str (''Please enter a value.'' @ [NL])] w2)
           | Some start \<Rightarrow>
               (let end = find_last_not_of line;
                    trimmed = substr line start (end - start + 1)
                in case stoll trimmed of
                     Inl e \<Rightarrow>
                       prompt_int prompt minAllowed maxAllowed
                         (cout [Str (''Invalid input. Please enter an integer.'' @ [NL])] w2)
                   | Inr (val, idx) \<Rightarrow>
                       if idx \<noteq> length trimmed then
                         prompt_int prompt minAllowed maxAllowed
                           (cout [Str (''Invalid input. Please enter an integer.'' @ [NL])] w2)
                       else if val < minAllowed \<or> val > maxAllowed then
                         prompt_int prompt minAllowed maxAllowed
                           (cout [Str ''Enter a number between '', Num minAllowed,
                                  Str '' and '', Num maxAllowed, Str (''.'' @ [NL])] w2)
                       else (Some val, w2))))"
  by pat_completeness auto
termination
  by (relation "measure (\<lambda>(p, lo, hi, w). length (stdin w))") (auto simp: cout_def)

declare prompt_int.simps [simp del]

text \<open>\<open>tolower\<close> in the C locale.\<close>

definition tolower :: "char \<Rightarrow> char" where
  "tolower c =
     (if 65 \<le> (of_char c :: nat) \<and> (of_char c :: nat) \<le> 90
      then char_of ((of_char c :: nat) + 32) else c)"

text \<open>\<open>prompt_yesno\<close>: \<open>None\<close> is \<open>exit(0)\<close> at the end of input.\<close>

function prompt_yesno :: "string \<Rightarrow> world \<Rightarrow> bool option \<times> world" where
  "prompt_yesno prompt w =
     (let w1 = cout [Str prompt, Str '' (y/n): ''] w in
      case stdin w1 of
        [] \<Rightarrow> (None, w1)
      | line # rest \<Rightarrow>
          (let w2 = w1\<lparr>stdin := rest\<rparr> in
           if line = [] then prompt_yesno prompt w2
           else
             case find_first_not_of line of
               None \<Rightarrow> prompt_yesno prompt w2
             | Some i \<Rightarrow>
                 (let c = tolower (line ! i) in
                  if c = CHR ''y'' then (Some True, w2)
                  else if c = CHR ''n'' then (Some False, w2)
                  else prompt_yesno prompt
                         (cout [Str (''Please reply with 'y' or 'n'.'' @ [NL])] w2))))"
  by pat_completeness auto
termination
  by (relation "measure (\<lambda>(p, w). length (stdin w))") (auto simp: cout_def)

declare prompt_yesno.simps [simp del]

section \<open>Score formula\<close>

text \<open>
  \<open>compute_score\<close>.  The subtractions on \<open>int\<close> are checked for overflow.  \<open>log2\<close> of a
  number that is not positive is minus infinity or a NaN, and the division by a zero
  logarithm is an infinity: both leave the finite numbers.
\<close>

definition compute_score :: "int \<Rightarrow> real \<Rightarrow> GameConfig \<Rightarrow> error + real" where
  "compute_score attempts' secondsElapsed cfg =
     (if \<not> in_int (maxValue cfg - minValue cfg) \<or> \<not> in_int (maxValue cfg - minValue cfg + 1)
         \<or> \<not> in_int (attempts' - 1)
      then Inl Signed_overflow
      else
        let rangeSize = real_of_int (maxValue cfg - minValue cfg + 1) in
        if rangeSize + 1 \<le> 0 \<or> log 2 (rangeSize + 1) = 0 then Inl Not_finite
        else
          let base = 1000 / log 2 (rangeSize + 1);
              attemptPenalty = 20 * real_of_int (attempts' - 1);
              timePenalty = secondsElapsed / 2;
              score0 = base - attemptPenalty - timePenalty;
              score1 =
                (if maxAttempts cfg > 0
                 then let frac = real_of_int attempts' / real_of_int (maxAttempts cfg)
                      in score0 * (1 + max 0 (0.5 - frac))
                 else score0)
          in Inr (if score1 < 0 then 0 else score1))"

section \<open>Difficulty selection\<close>

text \<open>
  \<open>choose_difficulty\<close>: \<open>None\<close> when one of its prompts ends the process.  The \<open>switch\<close>
  sends 1, 2 and 3 to their cases and every other value to \<open>case 4: default:\<close>.
\<close>

definition choose_difficulty :: "world \<Rightarrow> GameConfig option \<times> world" where
  "choose_difficulty w =
     (let w1 = cout [Str (''Choose difficulty:'' @ [NL])] w;
          w2 = cout [Str (''  1) Easy   (1 - 20, unlimited attempts)'' @ [NL])] w1;
          w3 = cout [Str (''  2) Medium (1 - 100, 10 attempts)'' @ [NL])] w2;
          w4 = cout [Str (''  3) Hard   (1 - 1000, 12 attempts)'' @ [NL])] w3;
          w5 = cout [Str (''  4) Custom'' @ [NL])] w4;
          selected = (\<lambda>cfg wa.
            let wb = cout [Str ''You selected: '', Str (difficultyName cfg), Str '' ('',
                           Num (minValue cfg), Str '' - '', Num (maxValue cfg), Str '')''] wa;
                wc = (if maxAttempts cfg > 0
                      then cout [Str '', max attempts = '', Num (maxAttempts cfg)] wb else wb)
            in (Some cfg, cout [Str [NL]] wc))
      in case prompt_int ''Enter choice [1-4]: '' 1 4 w5 of
           (None, w6) \<Rightarrow> (None, w6)
         | (Some choice, w6) \<Rightarrow>
             if choice = 1 then
               selected \<lparr>difficultyName = ''Easy'', minValue = 1, maxValue = 20,
                         maxAttempts = 0\<rparr> w6
             else if choice = 2 then
               selected \<lparr>difficultyName = ''Medium'', minValue = 1, maxValue = 100,
                         maxAttempts = 10\<rparr> w6
             else if choice = 3 then
               selected \<lparr>difficultyName = ''Hard'', minValue = 1, maxValue = 1000,
                         maxAttempts = 12\<rparr> w6
             else
               (case prompt_int [] (- 1000000) 1000000 (cout [Str ''Enter minimum value: ''] w6) of
                  (None, w7) \<Rightarrow> (None, w7)
                | (Some minv, w7) \<Rightarrow>
                    (case prompt_int [] (minv + 1) 1000000
                            (cout [Str ''Enter maximum value: ''] w7) of
                       (None, w8) \<Rightarrow> (None, w8)
                     | (Some maxv, w8) \<Rightarrow>
                         (case prompt_yesno ''Would you like to set a maximum attempts limit?'' w8 of
                            (None, w9) \<Rightarrow> (None, w9)
                          | (Some True, w9) \<Rightarrow>
                              (case prompt_int ''Enter maximum attempts (>=1): '' 1 1000000 w9 of
                                 (None, w10) \<Rightarrow> (None, w10)
                               | (Some att, w10) \<Rightarrow>
                                   selected \<lparr>difficultyName = ''Custom'', minValue = minv,
                                             maxValue = maxv, maxAttempts = att\<rparr> w10)
                          | (Some False, w9) \<Rightarrow>
                              selected \<lparr>difficultyName = ''Custom'', minValue = minv,
                                        maxValue = maxv, maxAttempts = 0\<rparr> w9))))"

section \<open>Leaderboard persistence: writing\<close>

text \<open>
  \<open>ofs << fixed << setprecision(2) << x\<close> writes the decimal numeral of \<open>x\<close> rounded to
  hundredths (a tie goes to the even neighbour), with a minus sign for a negative \<open>x\<close>.
\<close>

definition round_half_even :: "real \<Rightarrow> int" where
  "round_half_even y =
     (let n = \<lfloor>y\<rfloor>; d = y - of_int n
      in if d < 1 / 2 then n else if 1 / 2 < d then n + 1 else if even n then n else n + 1)"

definition fixed2 :: "real \<Rightarrow> string" where
  "fixed2 x =
     (let c = nat (round_half_even (\<bar>x\<bar> * 100))
      in (if x < 0 then ''-'' else []) @ str_nat (c div 100) @ ''.'' @
         [digit_char (c div 10 mod 10), digit_char (c mod 10)])"

text \<open>The text of one record, without the final newline.\<close>

definition csv_line :: "Result \<Rightarrow> string" where
  "csv_line r =
     [QUOTE] @ timestamp r @ [QUOTE] @ '','' @
     [QUOTE] @ playerName r @ [QUOTE] @ '','' @
     [QUOTE] @ difficulty r @ [QUOTE] @ '','' @
     to_string (attempts r) @ '','' @
     fixed2 (elapsedSeconds r) @ '','' @
     to_string (secretNumber r) @ '','' @
     fixed2 (score r)"

definition append_to_leaderboard :: "Result \<Rightarrow> world \<Rightarrow> world" where
  "append_to_leaderboard r w =
     (if \<not> csv_writable w
      then cerr [Str (''Warning: could not write leaderboard file.'' @ [NL])] w
      else w\<lparr>leaderboard_csv :=
             Some ((case leaderboard_csv w of None \<Rightarrow> [] | Some old \<Rightarrow> old) @
                   csv_line r @ [NL])\<rparr>)"

section \<open>Leaderboard persistence: reading\<close>

text \<open>
  \<open>std::stod(s)\<close> for plain decimal numerals: white space, an optional sign, digits with
  an optional point.  A numeral too large for a double throws \<open>out_of_range\<close>, text
  without a digit throws \<open>invalid_argument\<close>.  The notations the C library also reads
  (an exponent, hexadecimal digits, \<open>inf\<close>, \<open>nan\<close>) and numerals below the normal doubles
  are left out of the model: they give \<open>Unmodelled\<close>.
\<close>

definition stod :: "string \<Rightarrow> error + real" where
  "stod s =
     (let r1 = dropWhile isspace s;
          neg = (r1 \<noteq> [] \<and> hd r1 = CHR ''-'');
          r2 = (if r1 \<noteq> [] \<and> (hd r1 = CHR ''-'' \<or> hd r1 = CHR ''+'') then tl r1 else r1);
          ip = takeWhile is_digit r2;
          r3 = dropWhile is_digit r2;
          point = (r3 \<noteq> [] \<and> hd r3 = CHR ''.'');
          fp = (if point then takeWhile is_digit (tl r3) else []);
          r4 = (if point then dropWhile is_digit (tl r3) else r3)
      in if ip = [] \<and> fp = [] then
           (if r2 \<noteq> [] \<and> hd r2 \<in> set ''iInN'' then Inl Unmodelled else Inl Invalid_argument)
         else if r4 \<noteq> [] \<and> hd r4 \<in> set ''eExX'' then Inl Unmodelled
         else
           let m = real (dec_val ip) + real (dec_val fp) / 10 ^ length fp
           in if 2 ^ 1024 - 2 ^ 970 \<le> m then Inl Out_of_range
              else if 0 < m \<and> m < 1 / 2 ^ 1022 then Inl Unmodelled
              else Inr (if neg then - m else m))"

lemma rest_shorter: "s \<noteq> [] \<Longrightarrow> length (dropWhile P s) - Suc 0 < length s"
proof -
  assume "s \<noteq> []"
  then have "0 < length s"
    by simp
  moreover have "length (dropWhile P s) \<le> length s"
    by (rule length_dropWhile_le)
  ultimately show ?thesis
    by linarith
qed

text \<open>
  The items that successive calls \<open>getline(stream, item, delim)\<close> extract until one
  fails: a call fails when no character is left, and it consumes the delimiter.
\<close>

function getlines :: "char \<Rightarrow> string \<Rightarrow> string list" where
  "getlines delim s =
     (if s = [] then []
      else takeWhile (\<lambda>c. c \<noteq> delim) s # getlines delim (drop 1 (dropWhile (\<lambda>c. c \<noteq> delim) s)))"
  by pat_completeness auto
termination
  by (relation "measure (\<lambda>(delim, s). length s)") (auto simp: rest_shorter)

declare getlines.simps [simp del]

definition unquote :: "string \<Rightarrow> string" where
  "unquote item =
     (if length item \<ge> 2 \<and> hd item = QUOTE then substr item 1 (length item - 2) else item)"

text \<open>
  The body of the loop of \<open>read_leaderboard\<close> for one non-empty line, in the order of the
  source: each \<open>getline\<close> that fails skips the line (\<open>Inr None\<close>), and an exception of
  \<open>stoi\<close> or \<open>stod\<close> leaves the function, which has no handler.
\<close>

definition parse_line :: "string \<Rightarrow> error + Result option" where
  "parse_line line =
     (case getlines CHR '','' line of
        [] \<Rightarrow> Inr None
      | f1 # fs1 \<Rightarrow>
     (case fs1 of
        [] \<Rightarrow> Inr None
      | f2 # fs2 \<Rightarrow>
     (case fs2 of
        [] \<Rightarrow> Inr None
      | f3 # fs3 \<Rightarrow>
     (case fs3 of
        [] \<Rightarrow> Inr None
      | f4 # fs4 \<Rightarrow>
     (case stoi f4 of
        Inl e \<Rightarrow> Inl e
      | Inr att \<Rightarrow>
     (case fs4 of
        [] \<Rightarrow> Inr None
      | f5 # fs5 \<Rightarrow>
     (case stod f5 of
        Inl e \<Rightarrow> Inl e
      | Inr secs \<Rightarrow>
     (case fs5 of
        [] \<Rightarrow> Inr None
      | f6 # fs6 \<Rightarrow>
     (case stoi f6 of
        Inl e \<Rightarrow> Inl e
      | Inr sec \<Rightarrow>
     (case fs6 of
        [] \<Rightarrow> Inr None
      | f7 # fs7 \<Rightarrow>
     (case stod f7 of
        Inl e \<Rightarrow> Inl e
      | Inr sc \<Rightarrow>
          Inr (Some \<lparr>playerName = unquote f2, difficulty = unquote f3, attempts = att,
                      elapsedSeconds = secs, secretNumber = sec, score = sc,
                      timestamp = unquote f1\<rparr>))))))))))))"

text \<open>The loop of \<open>read_leaderboard\<close> over the lines of the file, \<open>out\<close> its vector.\<close>

fun read_lines :: "int \<Rightarrow> string list \<Rightarrow> Result list \<Rightarrow> error + Result list" where
  "read_lines limit [] out = Inr out"
| "read_lines limit (line # rest) out =
     (if line = [] then read_lines limit rest out
      else
        case parse_line line of
          Inl e \<Rightarrow> Inl e
        | Inr None \<Rightarrow> read_lines limit rest out
        | Inr (Some r) \<Rightarrow>
            if int (length (out @ [r])) \<ge> limit then Inr (out @ [r])
            else read_lines limit rest (out @ [r]))"

definition read_leaderboard :: "int \<Rightarrow> world \<Rightarrow> error + Result list" where
  "read_leaderboard limit w =
     (case leaderboard_csv w of
        None \<Rightarrow> Inr []
      | Some content \<Rightarrow> read_lines limit (getlines NL content) [])"

section \<open>Game logic\<close>

text \<open>
  The locals \<open>attempts\<close>, \<open>lowHint\<close> and \<open>highHint\<close> of \<open>play_game\<close>, and the \<open>break\<close>
  that left its loop.
\<close>

record locals =
  attempts_l :: int
  lowHint :: int
  highHint :: int

datatype outcome = GaveUp | Correct | AttemptsExhausted

text \<open>
  The body of the loop from the test \<open>guess == 0\<close> on, for the guess that \<open>prompt_int\<close>
  returned: \<open>Some\<close> outcome when it leaves the loop, \<open>None\<close> when the loop goes on.
  \<open>attempts++\<close> at \<open>INT_MAX\<close> overflows.  The guess lies within \<open>int\<close>, and \<open>guess - 1\<close>
  is only computed for a guess above the secret, \<open>guess + 1\<close> for one below it, so
  neither overflows.
\<close>

definition guess_body ::
  "GameConfig \<Rightarrow> int \<Rightarrow> int \<Rightarrow> locals \<Rightarrow> world \<Rightarrow> error + (outcome option \<times> locals \<times> world)" where
  "guess_body cfg secret guess v w =
     (if guess = 0 then
        Inr (Some GaveUp, v,
             cout [Str ''You gave up. The number was '', Num secret, Str (''.'' @ [NL])] w)
      else if attempts_l v = INT_MAX then Inl Signed_overflow
      else
        let v1 = v\<lparr>attempts_l := attempts_l v + 1\<rparr> in
        if guess = secret then
          Inr (Some Correct, v1,
               cout [Str ''Congratulations! You guessed correctly in '', Num (attempts_l v1),
                     Str ('' attempts.'' @ [NL])] w)
        else
          let (v2, w2) =
                (if guess > secret then
                   (if guess - 1 < highHint v1 then v1\<lparr>highHint := guess - 1\<rparr> else v1,
                    cout [Str (''Too high.'' @ [NL])] w)
                 else
                   (if guess + 1 > lowHint v1 then v1\<lparr>lowHint := guess + 1\<rparr> else v1,
                    cout [Str (''Too low.'' @ [NL])] w))
          in if maxAttempts cfg > 0 \<and> attempts_l v2 \<ge> maxAttempts cfg then
               Inr (Some AttemptsExhausted, v2,
                    cout [Str ''Reached maximum attempts ('', Num (maxAttempts cfg),
                          Str ''). You lose. The number was '', Num secret,
                          Str (''.'' @ [NL])] w2)
             else Inr (None, v2, w2))"

lemma prompt_int_consumes:
  "prompt_int p lo hi w = (Some g, w') \<Longrightarrow> length (stdin w') < length (stdin w)"
proof (induction p lo hi w rule: prompt_int.induct)
  case (1 prompt minAllowed maxAllowed w)
  show ?case
  proof (cases "stdin w")
    case Nil
    with "1.prems" show ?thesis
      by (simp add: prompt_int.simps [of prompt minAllowed maxAllowed w] cout_def)
  next
    case (Cons line rest)
    let ?w2 = "(cout [Str prompt] w)\<lparr>stdin := rest\<rparr>"
    have st: "stdin (cout [Str prompt] w) = line # rest"
      using Cons by (simp add: cout_def)
    have len: "length (stdin (cout m ?w2)) < length (stdin w)" for m
      using Cons by (simp add: cout_def)
    have len2: "length (stdin ?w2) < length (stdin w)"
      using Cons by (simp add: cout_def)
    show ?thesis
    proof (cases "find_first_not_of line")
      case None
      with "1.prems" st have
        "prompt_int prompt minAllowed maxAllowed
           (cout [Str (''Please enter a value.'' @ [NL])] ?w2) = (Some g, w')"
        by (simp add: prompt_int.simps [of prompt minAllowed maxAllowed w] Let_def)
      from "1.IH"(1) [OF refl st refl None this] len show ?thesis
        by (meson less_trans)
    next
      case (Some start)
      let ?tr = "substr line start (find_last_not_of line - start + 1)"
      show ?thesis
      proof (cases "stoll ?tr")
        case (Inl e)
        with "1.prems" st Some have
          "prompt_int prompt minAllowed maxAllowed
             (cout [Str (''Invalid input. Please enter an integer.'' @ [NL])] ?w2) = (Some g, w')"
          by (simp add: prompt_int.simps [of prompt minAllowed maxAllowed w] Let_def)
        from "1.IH"(2) [OF refl st refl Some refl refl Inl this] len show ?thesis
          by (meson less_trans)
      next
        case (Inr r)
        obtain val idx where r: "r = (val, idx)" by (cases r)
        show ?thesis
        proof (cases "idx \<noteq> length ?tr")
          case True
          with "1.prems" st Some Inr r have
            "prompt_int prompt minAllowed maxAllowed
               (cout [Str (''Invalid input. Please enter an integer.'' @ [NL])] ?w2) = (Some g, w')"
            by (simp add: prompt_int.simps [of prompt minAllowed maxAllowed w] Let_def)
          from "1.IH"(3) [OF refl st refl Some refl refl Inr [unfolded r] refl True this] len
          show ?thesis by (meson less_trans)
        next
          case False
          note eq = False
          show ?thesis
          proof (cases "val < minAllowed \<or> val > maxAllowed")
            case True
            with "1.prems" st Some Inr r eq have
              "prompt_int prompt minAllowed maxAllowed
                 (cout [Str ''Enter a number between '', Num minAllowed,
                        Str '' and '', Num maxAllowed, Str (''.'' @ [NL])] ?w2) = (Some g, w')"
              by (simp add: prompt_int.simps [of prompt minAllowed maxAllowed w] Let_def)
            from "1.IH"(4) [OF refl st refl Some refl refl Inr [unfolded r] refl eq True this] len
            show ?thesis by (meson less_trans)
          next
            case False
            with "1.prems" st Some Inr r eq have "w' = ?w2"
              by (simp add: prompt_int.simps [of prompt minAllowed maxAllowed w] Let_def)
            with len2 show ?thesis by simp
          qed
        qed
      qed
    qed
  qed
qed

lemma guess_body_stdin:
  "guess_body cfg secret guess v w = Inr (r, v', w') \<Longrightarrow> stdin w' = stdin w"
  by (auto simp: guess_body_def cout_def Let_def split: if_splits)

text \<open>
  The \<open>while (true)\<close> loop of \<open>play_game\<close>.  It ends by one of its three \<open>break\<close>s, by
  \<open>exit(0)\<close> inside \<open>prompt_int\<close>, or by the overflow of the counter.  Every round reads
  at least one line, so the loop is total on every finite input.
\<close>

function guess_loop ::
  "GameConfig \<Rightarrow> int \<Rightarrow> locals \<Rightarrow> world \<Rightarrow> (error + outcome \<times> locals) \<times> world" where
  "guess_loop cfg secret v w =
     (let w1 = cout [Str ''Allowed range: ['', Num (lowHint v), Str '' - '', Num (highHint v),
                     Str ''] ''] w
      in case prompt_int ''Enter guess (or 0 to give up): '' INT_MIN INT_MAX w1 of
           (None, w2) \<Rightarrow> (Inl Process_exit, w2)
         | (Some guess, w2) \<Rightarrow>
             (case guess_body cfg secret guess v w2 of
                Inl e \<Rightarrow> (Inl e, w2)
              | Inr (Some oc, v', w3) \<Rightarrow> (Inr (oc, v'), w3)
              | Inr (None, v', w3) \<Rightarrow> guess_loop cfg secret v' w3))"
  by pat_completeness auto
termination
  apply (relation "measure (\<lambda>(cfg, secret, v, w). length (stdin w))")
   apply simp
  apply clarsimp
  apply (drule sym)
  apply (drule prompt_int_consumes)
  apply (drule guess_body_stdin)
  apply (simp add: cout_def)
  done

declare guess_loop.simps [simp del]

text \<open>
  The statements of \<open>play_game\<close> after its loop: the name prompt, the \<open>Result\<close> and the
  conditional append.  \<open>elapsed\<close> is the duration the clock measured and \<open>now\<close> the text
  \<open>now_iso8601()\<close> returned.
\<close>

definition finish_game ::
  "GameConfig \<Rightarrow> int \<Rightarrow> real \<Rightarrow> string \<Rightarrow> locals \<Rightarrow> world \<Rightarrow> (error + Result) \<times> world" where
  "finish_game cfg secret elapsed now v w =
     (let w1 = cout [Str (NL # ''Enter your name for the leaderboard (leave blank to skip): '')] w;
          (name0, w2) = safe_getline w1;
          name = (if name0 = [] then ''Anonymous'' else name0)
      in case compute_score (max 1 (attempts_l v)) elapsed cfg of
           Inl e \<Rightarrow> (Inl e, w2)
         | Inr sc \<Rightarrow>
             (let res = \<lparr>playerName = name,
                         difficulty = difficultyName cfg @ '' ('' @ to_string (minValue cfg)
                                      @ ''-'' @ to_string (maxValue cfg) @ '')'',
                         attempts = attempts_l v,
                         elapsedSeconds = elapsed,
                         secretNumber = secret,
                         score = sc,
                         timestamp = now\<rparr>
              in (Inr res,
                  if name \<noteq> ''Anonymous'' then append_to_leaderboard res w2 else w2)))"

text \<open>
  \<open>play_game\<close>.  The secret is the value \<open>random_int(cfg.minValue, cfg.maxValue)\<close>
  returned, a number of that range.
\<close>

definition play_game ::
  "GameConfig \<Rightarrow> int \<Rightarrow> real \<Rightarrow> string \<Rightarrow> world \<Rightarrow> (error + Result) \<times> world" where
  "play_game cfg secret elapsed now w =
     (let w1 = cout [Str (NL # ''I have selected a number between ''), Num (minValue cfg),
                     Str '' and '', Num (maxValue cfg), Str (''.'' @ [NL])] w;
          w2 = (if maxAttempts cfg > 0
                then cout [Str ''You have up to '', Num (maxAttempts cfg),
                           Str ('' attempts.'' @ [NL])] w1
                else w1);
          w3 = cout [Str (''Type your guess and press Enter.'' @ [NL])] w2
      in case guess_loop cfg secret
                \<lparr>attempts_l = 0, lowHint = minValue cfg, highHint = maxValue cfg\<rparr> w3 of
           (Inl e, w4) \<Rightarrow> (Inl e, w4)
         | (Inr (oc, v), w4) \<Rightarrow> finish_game cfg secret elapsed now v w4)"

section \<open>What \<open>prompt_int\<close> returns\<close>

text \<open>
  The verdict of the loop body of \<open>prompt_int\<close> on one line: the integer it returns, or
  the statement it prints before it asks again.  The loop is then a recursion over the
  lines of the input, and a property of every call follows from three cases: the end of
  the input, a line refused, a line accepted.
\<close>

definition retry_stmt :: "int \<Rightarrow> int \<Rightarrow> stmt \<Rightarrow> bool" where
  "retry_stmt lo hi m \<longleftrightarrow>
     m = [Str (''Please enter a value.'' @ [NL])]
     \<or> m = [Str (''Invalid input. Please enter an integer.'' @ [NL])]
     \<or> m = [Str ''Enter a number between '', Num lo, Str '' and '', Num hi, Str (''.'' @ [NL])]"

definition line_verdict :: "int \<Rightarrow> int \<Rightarrow> string \<Rightarrow> int + stmt" where
  "line_verdict lo hi line =
     (case find_first_not_of line of
        None \<Rightarrow> Inr [Str (''Please enter a value.'' @ [NL])]
      | Some start \<Rightarrow>
          (case stoll (substr line start (find_last_not_of line - start + 1)) of
             Inl e \<Rightarrow> Inr [Str (''Invalid input. Please enter an integer.'' @ [NL])]
           | Inr (val, idx) \<Rightarrow>
               if idx \<noteq> length (substr line start (find_last_not_of line - start + 1)) then
                 Inr [Str (''Invalid input. Please enter an integer.'' @ [NL])]
               else if val < lo \<or> val > hi then
                 Inr [Str ''Enter a number between '', Num lo, Str '' and '', Num hi,
                      Str (''.'' @ [NL])]
               else Inl val))"

lemma prompt_int_eof:
  "stdin w = [] \<Longrightarrow>
   prompt_int p lo hi w = (None, cout [Str (NL # ''Input error. Exiting.'' @ [NL])] (cout [Str p] w))"
  by (subst prompt_int.simps) (simp add: cout_def)

lemma prompt_int_line:
  "stdin w = line # rest \<Longrightarrow>
   prompt_int p lo hi w =
     (case line_verdict lo hi line of
        Inl val \<Rightarrow> (Some val, (cout [Str p] w)\<lparr>stdin := rest\<rparr>)
      | Inr m \<Rightarrow> prompt_int p lo hi (cout m ((cout [Str p] w)\<lparr>stdin := rest\<rparr>)))"
  by (subst prompt_int.simps)
     (simp add: cout_def line_verdict_def Let_def split: option.splits sum.splits prod.splits)

lemma line_verdict_Inl: "line_verdict lo hi line = Inl val \<Longrightarrow> lo \<le> val \<and> val \<le> hi"
  by (auto simp: line_verdict_def split: option.splits sum.splits prod.splits if_splits)

lemma line_verdict_Inr: "line_verdict lo hi line = Inr m \<Longrightarrow> retry_stmt lo hi m"
  by (auto simp: line_verdict_def retry_stmt_def split: option.splits sum.splits prod.splits if_splits)

lemma prompt_int_rule:
  assumes eof: "\<And>w. stdin w = [] \<Longrightarrow>
      Q w (None, cout [Str (NL # ''Input error. Exiting.'' @ [NL])] (cout [Str p] w))"
    and retry: "\<And>w line rest m r. stdin w = line # rest \<Longrightarrow> retry_stmt lo hi m \<Longrightarrow>
      Q (cout m ((cout [Str p] w)\<lparr>stdin := rest\<rparr>)) r \<Longrightarrow> Q w r"
    and accept: "\<And>w line rest val. stdin w = line # rest \<Longrightarrow> lo \<le> val \<Longrightarrow> val \<le> hi \<Longrightarrow>
      Q w (Some val, (cout [Str p] w)\<lparr>stdin := rest\<rparr>)"
  shows "Q w (prompt_int p lo hi w)"
proof (induction "stdin w" arbitrary: w)
  case Nil
  then have st: "stdin w = []"
    by simp
  show ?case
    unfolding prompt_int_eof [OF st] by (rule eof [OF st])
next
  case (Cons line rest)
  from Cons.hyps(2) have st: "stdin w = line # rest"
    by simp
  show ?case
  proof (cases "line_verdict lo hi line")
    case (Inl val)
    have eq: "prompt_int p lo hi w = (Some val, (cout [Str p] w)\<lparr>stdin := rest\<rparr>)"
      using Inl by (simp add: prompt_int_line [OF st])
    from line_verdict_Inl [OF Inl] show ?thesis
      unfolding eq by (intro accept [OF st]) simp_all
  next
    case (Inr m)
    let ?w' = "cout m ((cout [Str p] w)\<lparr>stdin := rest\<rparr>)"
    have eq: "prompt_int p lo hi w = prompt_int p lo hi ?w'"
      using Inr by (simp add: prompt_int_line [OF st])
    have "rest = stdin ?w'"
      by (simp add: cout_def)
    then have "Q ?w' (prompt_int p lo hi ?w')"
      by (rule Cons.hyps(1))
    with st line_verdict_Inr [OF Inr] show ?thesis
      unfolding eq by (rule retry)
  qed
qed

lemma prompt_int_range:
  "prompt_int p lo hi w = (Some g, w') \<Longrightarrow> lo \<le> g \<and> g \<le> hi"
proof -
  have "\<forall>g w'. prompt_int p lo hi w = (Some g, w') \<longrightarrow> lo \<le> g \<and> g \<le> hi"
    by (rule prompt_int_rule) auto
  then show "prompt_int p lo hi w = (Some g, w') \<Longrightarrow> lo \<le> g \<and> g \<le> hi"
    by blast
qed

lemma prompt_int_file:
  "leaderboard_csv (snd (prompt_int p lo hi w)) = leaderboard_csv w
   \<and> csv_writable (snd (prompt_int p lo hi w)) = csv_writable w
   \<and> stderr (snd (prompt_int p lo hi w)) = stderr w"
  by (rule prompt_int_rule) (auto simp: cout_def)

lemma prompt_int_stdout:
  "\<exists>new. stdout (snd (prompt_int p lo hi w)) = stdout w @ new
     \<and> (\<forall>m\<in>set new. m = [Str p] \<or> retry_stmt lo hi m
                      \<or> m = [Str (NL # ''Input error. Exiting.'' @ [NL])])"
  by (rule prompt_int_rule) (auto simp: cout_def)

section \<open>Statements and inputs used in the properties\<close>

text \<open>
  The output statements of the loop that the properties speak about, the call of
  \<open>prompt_int\<close> that opens a round of the loop, the statements printed between two states
  of the world, and concrete inputs for the examples: three configurations and a console
  on which the given lines wait, with no leaderboard file yet.
\<close>

definition gave_up_stmt :: "int \<Rightarrow> stmt" where
  "gave_up_stmt secret = [Str ''You gave up. The number was '', Num secret, Str (''.'' @ [NL])]"

definition range_stmt :: "int \<Rightarrow> int \<Rightarrow> stmt" where
  "range_stmt lo hi = [Str ''Allowed range: ['', Num lo, Str '' - '', Num hi, Str ''] '']"

definition guess_prompt :: "locals \<Rightarrow> world \<Rightarrow> int option \<times> world" where
  "guess_prompt v w =
     prompt_int ''Enter guess (or 0 to give up): '' INT_MIN INT_MAX
       (cout (range_stmt (lowHint v) (highHint v)) w)"

definition easy :: GameConfig where
  "easy = \<lparr>difficultyName = ''Easy'', minValue = 1, maxValue = 20, maxAttempts = 0\<rparr>"

definition console :: "string list \<Rightarrow> world" where
  "console ls = \<lparr>stdin = ls, stdout = [], stderr = [], leaderboard_csv = None, csv_writable = True\<rparr>"

definition exhausted_stmt :: "GameConfig \<Rightarrow> int \<Rightarrow> stmt" where
  "exhausted_stmt cfg secret =
     [Str ''Reached maximum attempts ('', Num (maxAttempts cfg),
      Str ''). You lose. The number was '', Num secret, Str (''.'' @ [NL])]"

definition printed :: "world \<Rightarrow> world \<Rightarrow> stmt list" where
  "printed w w' = drop (length (stdout w)) (stdout w')"

definition medium :: GameConfig where
  "medium = \<lparr>difficultyName = ''Medium'', minValue = 1, maxValue = 100, maxAttempts = 10\<rparr>"

definition around_zero :: GameConfig where
  "around_zero = \<lparr>difficultyName = ''Custom'', minValue = - 5, maxValue = 5, maxAttempts = 0\<rparr>"

text \<open>The bound of the counter at the end of a loop with a limit of attempts.\<close>

definition within_limit :: "GameConfig \<Rightarrow> (error + outcome \<times> locals) \<Rightarrow> bool" where
  "within_limit cfg r =
     (case r of
        Inl e \<Rightarrow> True
      | Inr (oc, vf) \<Rightarrow>
          attempts_l vf \<le> maxAttempts cfg
          \<and> (oc = AttemptsExhausted \<longrightarrow> attempts_l vf = maxAttempts cfg))"

text \<open>
  The range statements among the statements printed, what a run of the loop keeps
  (every range it displays and the hints it ends with lie within the hints at its start
  and contain the secret), and the start of \<open>play_game\<close>.
\<close>

definition shows_within :: "int \<Rightarrow> int \<Rightarrow> int \<Rightarrow> stmt list \<Rightarrow> bool" where
  "shows_within secret a b new \<longleftrightarrow>
     (\<forall>lo hi. range_stmt lo hi \<in> set new \<longrightarrow> a \<le> lo \<and> lo \<le> secret \<and> secret \<le> hi \<and> hi \<le> b)"

definition no_range :: "stmt list \<Rightarrow> bool" where
  "no_range new \<longleftrightarrow> (\<forall>lo hi. range_stmt lo hi \<notin> set new)"

definition hints_kept :: "int \<Rightarrow> locals \<Rightarrow> world \<Rightarrow> (error + outcome \<times> locals) \<times> world \<Rightarrow> bool" where
  "hints_kept secret v w r \<longleftrightarrow>
     (\<exists>new. stdout (snd r) = stdout w @ new \<and> shows_within secret (lowHint v) (highHint v) new)
     \<and> (case fst r of
           Inl e \<Rightarrow> True
         | Inr (oc, vf) \<Rightarrow>
             lowHint v \<le> lowHint vf \<and> lowHint vf \<le> secret \<and> secret \<le> highHint vf
             \<and> highHint vf \<le> highHint v)"

definition game_intro :: "GameConfig \<Rightarrow> world \<Rightarrow> world" where
  "game_intro cfg w =
     cout [Str (''Type your guess and press Enter.'' @ [NL])]
       (if maxAttempts cfg > 0
        then cout [Str ''You have up to '', Num (maxAttempts cfg), Str ('' attempts.'' @ [NL])]
               (cout [Str (NL # ''I have selected a number between ''), Num (minValue cfg),
                      Str '' and '', Num (maxValue cfg), Str (''.'' @ [NL])] w)
        else cout [Str (NL # ''I have selected a number between ''), Num (minValue cfg),
                   Str '' and '', Num (maxValue cfg), Str (''.'' @ [NL])] w)"

definition start_locals :: "GameConfig \<Rightarrow> locals" where
  "start_locals cfg = \<lparr>attempts_l = 0, lowHint = minValue cfg, highHint = maxValue cfg\<rparr>"

text \<open>What \<open>choose_difficulty\<close> guarantees of the configuration it returns.\<close>

definition well_formed :: "GameConfig \<Rightarrow> bool" where
  "well_formed cfg \<longleftrightarrow>
     minValue cfg < maxValue cfg \<and> - 1000000 \<le> minValue cfg \<and> maxValue cfg \<le> 1000000
     \<and> 0 \<le> maxAttempts cfg \<and> maxAttempts cfg \<le> 1000000"

text \<open>
  The score as the specification writes it: the base \<open>1000 / log2(maxValue - minValue + 2)\<close>,
  less 20 for every attempt after the first and half a point for every second, times
  the bonus factor when there is a limit of attempts, and not below 0.
\<close>

definition spec_score :: "int \<Rightarrow> real \<Rightarrow> GameConfig \<Rightarrow> real" where
  "spec_score a t cfg =
     (let base = 1000 / log 2 (real_of_int (maxValue cfg - minValue cfg + 2));
          s = base - 20 * (real_of_int a - 1) - t / 2;
          s' = (if maxAttempts cfg > 0
                then s * (1 + max 0 (0.5 - real_of_int a / real_of_int (maxAttempts cfg)))
                else s)
      in max 0 s')"

text \<open>The score before the bonus factor and the clamp, and the bonus factor.\<close>

definition raw_score :: "int \<Rightarrow> real \<Rightarrow> GameConfig \<Rightarrow> real" where
  "raw_score a t cfg =
     1000 / log 2 (real_of_int (maxValue cfg - minValue cfg + 1) + 1)
       - 20 * real_of_int (a - 1) - t / 2"

definition bonus :: "int \<Rightarrow> GameConfig \<Rightarrow> real" where
  "bonus a cfg =
     (if maxAttempts cfg > 0
      then 1 + max 0 (0.5 - real_of_int a / real_of_int (maxAttempts cfg)) else 1)"

definition score_defined :: "int \<Rightarrow> GameConfig \<Rightarrow> bool" where
  "score_defined a cfg \<longleftrightarrow>
     minValue cfg \<le> maxValue cfg \<and> in_int (maxValue cfg - minValue cfg + 1) \<and> in_int (a - 1)"

text \<open>
  The line that the name prompt of \<open>play_game\<close> reads (empty at the end of input), the
  name recorded for it, and the \<open>Result\<close> assembled.
\<close>

definition typed_name :: "world \<Rightarrow> string" where
  "typed_name w = (case stdin w of [] \<Rightarrow> [] | line # rest \<Rightarrow> line)"

definition recorded_name :: "world \<Rightarrow> string" where
  "recorded_name w = (if typed_name w = [] then ''Anonymous'' else typed_name w)"

definition game_result :: "GameConfig \<Rightarrow> int \<Rightarrow> real \<Rightarrow> string \<Rightarrow> locals \<Rightarrow> world \<Rightarrow> Result" where
  "game_result cfg secret elapsed now v w =
     \<lparr>playerName = recorded_name w,
      difficulty = difficultyName cfg @ '' ('' @ to_string (minValue cfg) @ ''-''
                   @ to_string (maxValue cfg) @ '')'',
      attempts = attempts_l v,
      elapsedSeconds = elapsed,
      secretNumber = secret,
      score = spec_score (max 1 (attempts_l v)) elapsed cfg,
      timestamp = now\<rparr>"

definition after_name :: "world \<Rightarrow> world" where
  "after_name w =
     (cout [Str (NL # ''Enter your name for the leaderboard (leave blank to skip): '')] w)
       \<lparr>stdin := tl (stdin w)\<rparr>"








definition comma_record :: Result where
  "comma_record =
     \<lparr>playerName = ''Doe, John'', difficulty = ''Easy (1-20)'', attempts = 3,
      elapsedSeconds = 12.5, secretNumber = 7, score = 100,
      timestamp = ''2024-01-01 10:00:00''\<rparr>"

text \<open>
  The state of the loop after some of its rounds.  \<open>after_rounds cfg secret gs v w\<close> runs
  the loop from the locals \<open>v\<close> in the world \<open>w\<close> for one round per element of \<open>gs\<close>: the
  round reads that guess (after any number of refused lines) and the loop goes on.  It is
  the locals and the world before the next round, and \<open>None\<close> when the input gives other
  guesses or the loop stops earlier.
\<close>

fun after_rounds :: "GameConfig \<Rightarrow> int \<Rightarrow> int list \<Rightarrow> locals \<Rightarrow> world \<Rightarrow> (locals \<times> world) option" where
  "after_rounds cfg secret [] v w = Some (v, w)"
| "after_rounds cfg secret (g # gs) v w =
     (case guess_prompt v w of
        (None, w2) \<Rightarrow> None
      | (Some guess, w2) \<Rightarrow>
          if guess \<noteq> g then None
          else
            (case guess_body cfg secret g v w2 of
               Inl e \<Rightarrow> None
             | Inr (Some oc, v', w3) \<Rightarrow> None
             | Inr (None, v', w3) \<Rightarrow> after_rounds cfg secret gs v' w3))"

text \<open>
  The ranges displayed: the bounds of the range statements among the statements printed,
  in the order of the output.
\<close>

definition shown_range :: "stmt \<Rightarrow> (int \<times> int) option" where
  "shown_range m =
     (case m of
        [a, Num lo, b, Num hi, c] \<Rightarrow> if m = range_stmt lo hi then Some (lo, hi) else None
      | _ \<Rightarrow> None)"

fun ranges_shown :: "stmt list \<Rightarrow> (int \<times> int) list" where
  "ranges_shown [] = []"
| "ranges_shown (m # ms) =
     (case shown_range m of None \<Rightarrow> ranges_shown ms | Some r \<Rightarrow> r # ranges_shown ms)"

section \<open>The guess loop\<close>

lemma guess_loop_unfold:
  "guess_loop cfg secret v w =
     (case guess_prompt v w of
        (None, w2) \<Rightarrow> (Inl Process_exit, w2)
      | (Some guess, w2) \<Rightarrow>
          (case guess_body cfg secret guess v w2 of
             Inl e \<Rightarrow> (Inl e, w2)
           | Inr (Some oc, v', w3) \<Rightarrow> (Inr (oc, v'), w3)
           | Inr (None, v', w3) \<Rightarrow> guess_loop cfg secret v' w3))"
  by (subst guess_loop.simps) (simp add: guess_prompt_def range_stmt_def)

text \<open>
  A property of every run of the loop follows from four cases of one round: the process
  exits in the prompt, the counter overflows, a \<open>break\<close> is taken, the loop goes on.
\<close>

lemma guess_loop_rule:
  assumes exit: "\<And>v w w2. guess_prompt v w = (None, w2) \<Longrightarrow> P v w (Inl Process_exit, w2)"
    and err: "\<And>v w g w2 e. guess_prompt v w = (Some g, w2) \<Longrightarrow>
      guess_body cfg secret g v w2 = Inl e \<Longrightarrow> P v w (Inl e, w2)"
    and fin: "\<And>v w g w2 oc v' w3. guess_prompt v w = (Some g, w2) \<Longrightarrow>
      guess_body cfg secret g v w2 = Inr (Some oc, v', w3) \<Longrightarrow> P v w (Inr (oc, v'), w3)"
    and cont: "\<And>v w g w2 v' w3 r. guess_prompt v w = (Some g, w2) \<Longrightarrow>
      guess_body cfg secret g v w2 = Inr (None, v', w3) \<Longrightarrow> P v' w3 r \<Longrightarrow> P v w r"
  shows "P v w (guess_loop cfg secret v w)"
  using exit err fin cont
proof (induction cfg secret v w rule: guess_loop.induct)
  case (1 cfg secret v w)
  note exit = "1.prems"(1) and err = "1.prems"(2) and fin = "1.prems"(3) and cont = "1.prems"(4)
  obtain r w2 where pr: "guess_prompt v w = (r, w2)"
    by (cases "guess_prompt v w")
  show ?case
  proof (cases r)
    case None
    with pr have "guess_loop cfg secret v w = (Inl Process_exit, w2)"
      by (simp add: guess_loop_unfold)
    with exit [of v w w2] pr None show ?thesis
      by simp
  next
    case (Some g)
    note pg = pr [unfolded Some]
    show ?thesis
    proof (cases "guess_body cfg secret g v w2")
      case (Inl e)
      with pg have "guess_loop cfg secret v w = (Inl e, w2)"
        by (simp add: guess_loop_unfold)
      with err [OF pg Inl] show ?thesis
        by simp
    next
      case (Inr b)
      obtain oco v' w3 where b: "b = (oco, v', w3)"
        by (cases b)
      show ?thesis
      proof (cases oco)
        case None
        note gb = Inr [unfolded b None]
        have "P v' w3 (guess_loop cfg secret v' w3)"
        proof (rule "1.IH")
          show "cout [Str ''Allowed range: ['', Num (lowHint v), Str '' - '', Num (highHint v),
                      Str ''] ''] w = cout [Str ''Allowed range: ['', Num (lowHint v), Str '' - '',
                      Num (highHint v), Str ''] ''] w"
            by (rule refl)
          show "(Some g, w2) = prompt_int ''Enter guess (or 0 to give up): '' INT_MIN INT_MAX
                  (cout [Str ''Allowed range: ['', Num (lowHint v), Str '' - '', Num (highHint v),
                         Str ''] ''] w)"
            using pg by (simp add: guess_prompt_def range_stmt_def)
          show "Some g = Some g"
            by (rule refl)
          show "guess_body cfg secret g v w2 = Inr (None, v', w3)"
            by (rule gb)
          show "(None, v', w3) = (None, v', w3)"
            by (rule refl)
          show "(None :: outcome option) = None"
            by (rule refl)
          show "(v', w3) = (v', w3)"
            by (rule refl)
        qed (fact "1.prems")+
        then have "P v w (guess_loop cfg secret v' w3)"
          by (rule cont [OF pg gb])
        moreover from pg gb have "guess_loop cfg secret v w = guess_loop cfg secret v' w3"
          by (simp add: guess_loop_unfold [of cfg secret v w])
        ultimately show ?thesis
          by simp
      next
        case (Some oc)
        note gb = Inr [unfolded b Some]
        from pg gb have "guess_loop cfg secret v w = (Inr (oc, v'), w3)"
          by (simp add: guess_loop_unfold)
        with fin [OF pg gb] show ?thesis
          by simp
      qed
    qed
  qed
qed

lemma guess_body_zero:
  "guess_body cfg secret 0 v w = Inr (Some GaveUp, v, cout (gave_up_stmt secret) w)"
  by (simp add: guess_body_def gave_up_stmt_def)

lemma guess_body_Correct:
  "guess_body cfg secret g v w = Inr (Some Correct, v', w') \<Longrightarrow> g \<noteq> 0 \<and> g = secret"
  by (auto simp: guess_body_def Let_def split: if_splits)

text \<open>
  C10.  When the secret is 0 no guess is ever answered as correct: the loop never ends in
  \<open>Correct\<close>, because the guess equal to the secret is the give-up value, which ends the
  loop in \<open>GaveUp\<close> with the counter unchanged.
\<close>

theorem zero_secret_never_correct:
  "secret = 0 \<longrightarrow>
     fst (guess_loop cfg secret v w) \<noteq> Inr (Correct, vf)
     \<and> guess_body cfg secret g v w \<noteq> Inr (Some Correct, v', w')
     \<and> guess_body cfg secret secret v w = Inr (Some GaveUp, v, cout (gave_up_stmt secret) w)
     \<and> (guess_prompt v w = (Some secret, w2) \<longrightarrow>
          guess_loop cfg secret v w = (Inr (GaveUp, v), cout (gave_up_stmt secret) w2))"
proof
  assume z: "secret = 0"
  have "\<forall>vf. fst (guess_loop cfg secret v w) \<noteq> Inr (Correct, vf)"
  proof (rule guess_loop_rule)
    fix v w g w2 oc v' w3
    assume "guess_body cfg secret g v w2 = Inr (Some oc, v', w3)"
    with z guess_body_Correct [of cfg secret g v w2 v' w3] have "oc \<noteq> Correct"
      by auto
    then show "\<forall>vf. fst (Inr (oc, v'), w3) \<noteq> Inr (Correct, vf)"
      by simp
  qed simp_all
  moreover have "guess_body cfg secret g v w \<noteq> Inr (Some Correct, v', w')"
    using z guess_body_Correct [of cfg secret g v w v' w'] by auto
  moreover have "guess_prompt v w = (Some secret, w2) \<longrightarrow>
      guess_loop cfg secret v w = (Inr (GaveUp, v), cout (gave_up_stmt secret) w2)"
    using z by (simp add: guess_loop_unfold guess_body_zero)
  ultimately show "fst (guess_loop cfg secret v w) \<noteq> Inr (Correct, vf)
     \<and> guess_body cfg secret g v w \<noteq> Inr (Some Correct, v', w')
     \<and> guess_body cfg secret secret v w = Inr (Some GaveUp, v, cout (gave_up_stmt secret) w)
     \<and> (guess_prompt v w = (Some secret, w2) \<longrightarrow>
          guess_loop cfg secret v w = (Inr (GaveUp, v), cout (gave_up_stmt secret) w2))"
    using z by (simp add: guess_body_zero)
qed

lemma guess_prompt_around_zero:
  "guess_prompt \<lparr>attempts_l = 0, lowHint = - 5, highHint = 5\<rparr> (console [''0'']) =
     (Some 0, \<lparr>stdin = [], stdout = [range_stmt (- 5) 5, [Str ''Enter guess (or 0 to give up): '']],
               stderr = [], leaderboard_csv = None, csv_writable = True\<rparr>)"
  unfolding guess_prompt_def console_def by code_simp

theorem zero_secret_never_correct_witness:
  "fst (guess_loop around_zero 0 \<lparr>attempts_l = 0, lowHint = - 5, highHint = 5\<rparr> (console [''0'']))
     \<noteq> Inr (Correct, \<lparr>attempts_l = 1, lowHint = - 5, highHint = 5\<rparr>)
   \<and> guess_body around_zero 0 0 \<lparr>attempts_l = 0, lowHint = - 5, highHint = 5\<rparr> (console [''0''])
     = Inr (Some GaveUp, \<lparr>attempts_l = 0, lowHint = - 5, highHint = 5\<rparr>,
            cout (gave_up_stmt 0) (console [''0'']))
   \<and> guess_loop around_zero 0 \<lparr>attempts_l = 0, lowHint = - 5, highHint = 5\<rparr> (console [''0''])
     = (Inr (GaveUp, \<lparr>attempts_l = 0, lowHint = - 5, highHint = 5\<rparr>),
        cout (gave_up_stmt 0)
          \<lparr>stdin = [], stdout = [range_stmt (- 5) 5, [Str ''Enter guess (or 0 to give up): '']],
            stderr = [], leaderboard_csv = None, csv_writable = True\<rparr>)"
  using zero_secret_never_correct [of 0 around_zero "\<lparr>attempts_l = 0, lowHint = - 5, highHint = 5\<rparr>"
      "console [''0'']" "\<lparr>attempts_l = 1, lowHint = - 5, highHint = 5\<rparr>" 0
      "\<lparr>attempts_l = 1, lowHint = - 5, highHint = 5\<rparr>" "console []"
      "\<lparr>stdin = [], stdout = [range_stmt (- 5) 5, [Str ''Enter guess (or 0 to give up): '']],
            stderr = [], leaderboard_csv = None, csv_writable = True\<rparr>"]
    guess_prompt_around_zero
  by simp

lemma guess_body_attempts:
  assumes "guess_body cfg secret g v w = Inr (oc, v', w')"
  shows "attempts_l v' = (if g = 0 then attempts_l v else attempts_l v + 1)"
    and "oc = Some AttemptsExhausted \<Longrightarrow> 0 < maxAttempts cfg \<and> maxAttempts cfg \<le> attempts_l v'"
    and "oc = None \<Longrightarrow> \<not> (0 < maxAttempts cfg \<and> maxAttempts cfg \<le> attempts_l v')"
    and "oc = Some GaveUp \<Longrightarrow> g = 0"
  using assms by (auto simp: guess_body_def Let_def split: if_splits)

lemma guess_body_exhausted:
  assumes "0 < maxAttempts cfg" and "maxAttempts cfg \<le> INT_MAX"
    and "attempts_l v + 1 = maxAttempts cfg" and "g \<noteq> 0" and "g \<noteq> secret"
  shows "\<exists>vf w3. guess_body cfg secret g v w = Inr (Some AttemptsExhausted, vf, cout (exhausted_stmt cfg secret) w3)
           \<and> attempts_l vf = maxAttempts cfg"
proof -
  from assms(2,3) have lt: "attempts_l v \<noteq> INT_MAX"
    by linarith
  show ?thesis
  proof (cases "g > secret")
    case True
    with assms lt show ?thesis
      by (simp add: guess_body_def exhausted_stmt_def Let_def) blast
  next
    case False
    with assms lt show ?thesis
      by (simp add: guess_body_def exhausted_stmt_def Let_def) blast
  qed
qed

lemma guess_loop_exhausts:
  assumes "0 < maxAttempts cfg" and "maxAttempts cfg \<le> INT_MAX"
    and "attempts_l v + 1 = maxAttempts cfg"
    and pr: "guess_prompt v w = (Some g, w2)" and "g \<noteq> 0" and "g \<noteq> secret"
  shows "\<exists>vf w3. guess_loop cfg secret v w =
                  (Inr (AttemptsExhausted, vf), cout (exhausted_stmt cfg secret) w3)
         \<and> attempts_l vf = maxAttempts cfg"
proof -
  from assms obtain vf w3 where
    gb: "guess_body cfg secret g v w2 =
           Inr (Some AttemptsExhausted, vf, cout (exhausted_stmt cfg secret) w3)"
    and att: "attempts_l vf = maxAttempts cfg"
    using guess_body_exhausted [of cfg v g secret w2] by blast
  have "guess_loop cfg secret v w =
          (Inr (AttemptsExhausted, vf), cout (exhausted_stmt cfg secret) w3)"
    by (subst guess_loop_unfold) (simp add: pr gb)
  with att show ?thesis
    by blast
qed

lemma guess_loop_within_limit:
  "0 < maxAttempts cfg \<longrightarrow> attempts_l v < maxAttempts cfg \<longrightarrow>
     within_limit cfg (fst (guess_loop cfg secret v w))"
proof (rule guess_loop_rule)
  fix v w w2
  show "0 < maxAttempts cfg \<longrightarrow> attempts_l v < maxAttempts cfg \<longrightarrow>
     within_limit cfg (fst (Inl Process_exit, w2))"
    by (simp add: within_limit_def)
next
  fix v w g w2 e
  show "0 < maxAttempts cfg \<longrightarrow> attempts_l v < maxAttempts cfg \<longrightarrow>
     within_limit cfg (fst (Inl e, w2))"
    by (simp add: within_limit_def)
next
  fix v w g w2 oc v' w3
  assume gb: "guess_body cfg secret g v w2 = Inr (Some oc, v', w3)"
  show "0 < maxAttempts cfg \<longrightarrow> attempts_l v < maxAttempts cfg \<longrightarrow>
     within_limit cfg (fst (Inr (oc, v'), w3))"
  proof (intro impI)
    assume lt: "attempts_l v < maxAttempts cfg"
    have a: "attempts_l v' = (if g = 0 then attempts_l v else attempts_l v + 1)"
      by (rule guess_body_attempts(1) [OF gb])
    have b: "oc = AttemptsExhausted \<Longrightarrow> maxAttempts cfg \<le> attempts_l v'"
      using guess_body_attempts(2) [OF gb] by simp
    from a lt have "attempts_l v' \<le> maxAttempts cfg"
      by (simp split: if_splits)
    with b show "within_limit cfg (fst (Inr (oc, v'), w3))"
      by (simp add: within_limit_def)
  qed
next
  fix v w g w2 v' w3 and r :: "(error + outcome \<times> locals) \<times> world"
  assume gb: "guess_body cfg secret g v w2 = Inr (None, v', w3)"
    and IH: "0 < maxAttempts cfg \<longrightarrow> attempts_l v' < maxAttempts cfg \<longrightarrow>
               within_limit cfg (fst r)"
  show "0 < maxAttempts cfg \<longrightarrow> attempts_l v < maxAttempts cfg \<longrightarrow> within_limit cfg (fst r)"
  proof (intro impI)
    assume pos: "0 < maxAttempts cfg"
    with guess_body_attempts(3) [OF gb] have "attempts_l v' < maxAttempts cfg"
      by simp
    with pos IH show "within_limit cfg (fst r)"
      by simp
  qed
qed

lemma guess_loop_unlimited:
  assumes z: "maxAttempts cfg = 0"
  shows "\<forall>vf. fst (guess_loop cfg secret v w) \<noteq> Inr (AttemptsExhausted, vf)"
proof (rule guess_loop_rule)
  fix v w g w2 oc v' w3
  assume "guess_body cfg secret g v w2 = Inr (Some oc, v', w3)"
  from guess_body_attempts(2) [OF this] z have "oc \<noteq> AttemptsExhausted"
    by auto
  then show "\<forall>vf. fst (Inr (oc, v'), w3) \<noteq> Inr (AttemptsExhausted, vf)"
    by simp
qed simp_all

subsection \<open>The hints\<close>

lemma range_stmt_inject [simp]: "range_stmt lo hi = range_stmt a b \<longleftrightarrow> lo = a \<and> hi = b"
  by (simp add: range_stmt_def)

lemma shows_within_append:
  "shows_within secret a b (xs @ ys) \<longleftrightarrow> shows_within secret a b xs \<and> shows_within secret a b ys"
  by (auto simp: shows_within_def)

lemma shows_within_no_range: "no_range new \<Longrightarrow> shows_within secret a b new"
  by (simp add: shows_within_def no_range_def)

lemma shows_within_single:
  "a \<le> secret \<Longrightarrow> secret \<le> b \<Longrightarrow> shows_within secret a b [range_stmt a b]"
  by (simp add: shows_within_def)

lemma shows_within_mono:
  "shows_within secret a' b' new \<Longrightarrow> a \<le> a' \<Longrightarrow> b' \<le> b \<Longrightarrow> shows_within secret a b new"
  by (fastforce simp: shows_within_def)

lemma no_range_append: "no_range (xs @ ys) \<longleftrightarrow> no_range xs \<and> no_range ys"
  by (auto simp: no_range_def)

lemma guess_prompt_prints:
  "\<exists>new. stdout (snd (guess_prompt v w)) = stdout w @ range_stmt (lowHint v) (highHint v) # new
     \<and> no_range new"
proof -
  let ?p = "''Enter guess (or 0 to give up): ''"
  from prompt_int_stdout [of ?p INT_MIN INT_MAX "cout (range_stmt (lowHint v) (highHint v)) w"]
  obtain new where eq: "stdout (snd (guess_prompt v w)) =
      stdout (cout (range_stmt (lowHint v) (highHint v)) w) @ new"
    and els: "\<forall>m\<in>set new. m = [Str ?p] \<or> retry_stmt INT_MIN INT_MAX m
                \<or> m = [Str (NL # ''Input error. Exiting.'' @ [NL])]"
    unfolding guess_prompt_def by blast
  have "range_stmt lo hi \<notin> set new" for lo hi
  proof
    assume "range_stmt lo hi \<in> set new"
    with els have "range_stmt lo hi = [Str ?p] \<or> retry_stmt INT_MIN INT_MAX (range_stmt lo hi)
        \<or> range_stmt lo hi = [Str (NL # ''Input error. Exiting.'' @ [NL])]"
      by blast
    then show False
      by (simp add: range_stmt_def retry_stmt_def)
  qed
  then have "no_range new"
    by (simp add: no_range_def)
  with eq show ?thesis
    by (simp add: cout_def)
qed

lemma no_range_short: "length m \<noteq> 5 \<Longrightarrow> no_range [m]"
  by (auto simp: no_range_def range_stmt_def)

lemma no_range_exhausted: "no_range [exhausted_stmt cfg secret]"
  by (simp add: no_range_def range_stmt_def exhausted_stmt_def)

lemma no_range_cout:
  "no_range [m] \<Longrightarrow> \<exists>new. stdout (cout m w) = stdout w @ new \<and> no_range new"
  by (simp add: cout_def)

lemma no_range_cout2:
  "no_range [m] \<Longrightarrow> no_range [m'] \<Longrightarrow>
   \<exists>new. stdout (cout m' (cout m w)) = stdout w @ new \<and> no_range new"
proof -
  assume "no_range [m]" and "no_range [m']"
  then have "no_range ([m] @ [m'])"
    unfolding no_range_append by simp
  then show ?thesis
    by (simp add: cout_def)
qed

lemma guess_body_prints:
  assumes gb: "guess_body cfg secret g v w = Inr (oc, v', w')"
  shows "\<exists>new. stdout w' = stdout w @ new \<and> no_range new"
proof -
  consider (zero) "g = 0"
    | (correct) "g \<noteq> 0" "g = secret"
    | (high) "g \<noteq> 0" "g \<noteq> secret" "g > secret"
    | (low) "g \<noteq> 0" "g \<noteq> secret" "\<not> g > secret"
    by blast
  then show ?thesis
  proof cases
    case zero
    with gb have "w' = cout [Str ''You gave up. The number was '', Num secret, Str (''.'' @ [NL])] w"
      by (simp add: guess_body_def)
    then show ?thesis
      by (simp add: no_range_cout no_range_short)
  next
    case correct
    with gb have "w' = cout [Str ''Congratulations! You guessed correctly in '',
        Num (attempts_l v + 1), Str ('' attempts.'' @ [NL])] w"
      by (simp add: guess_body_def Let_def split: if_splits)
    then show ?thesis
      by (simp add: no_range_cout no_range_short)
  next
    case high
    with gb have "w' = cout [Str (''Too high.'' @ [NL])] w
        \<or> w' = cout (exhausted_stmt cfg secret) (cout [Str (''Too high.'' @ [NL])] w)"
      by (simp add: guess_body_def exhausted_stmt_def Let_def split: if_splits)
    then show ?thesis
      using no_range_cout [of "[Str (''Too high.'' @ [NL])]" w]
        no_range_cout2 [of "[Str (''Too high.'' @ [NL])]" "exhausted_stmt cfg secret" w]
      by (auto simp: no_range_short no_range_exhausted)
  next
    case low
    with gb have "w' = cout [Str (''Too low.'' @ [NL])] w
        \<or> w' = cout (exhausted_stmt cfg secret) (cout [Str (''Too low.'' @ [NL])] w)"
      by (simp add: guess_body_def exhausted_stmt_def Let_def split: if_splits)
    then show ?thesis
      using no_range_cout [of "[Str (''Too low.'' @ [NL])]" w]
        no_range_cout2 [of "[Str (''Too low.'' @ [NL])]" "exhausted_stmt cfg secret" w]
      by (auto simp: no_range_short no_range_exhausted)
  qed
qed

lemma guess_body_hints:
  assumes gb: "guess_body cfg secret g v w = Inr (oc, v', w')"
    and inv: "lowHint v \<le> secret" "secret \<le> highHint v"
  shows "lowHint v \<le> lowHint v' \<and> lowHint v' \<le> secret \<and> secret \<le> highHint v'
     \<and> highHint v' \<le> highHint v
     \<and> (g \<noteq> 0 \<and> secret < g \<longrightarrow> highHint v' \<le> g - 1)
     \<and> (g \<noteq> 0 \<and> g < secret \<longrightarrow> g + 1 \<le> lowHint v')"
proof -
  consider (zero) "g = 0"
    | (correct) "g \<noteq> 0" "g = secret"
    | (high) "g \<noteq> 0" "g \<noteq> secret" "g > secret"
    | (low) "g \<noteq> 0" "g \<noteq> secret" "\<not> g > secret"
    by blast
  then show ?thesis
  proof cases
    case zero
    with gb have "v' = v"
      by (simp add: guess_body_def)
    with inv zero show ?thesis
      by simp
  next
    case correct
    with gb have "lowHint v' = lowHint v \<and> highHint v' = highHint v"
      by (auto simp: guess_body_def Let_def split: if_splits)
    with inv correct show ?thesis
      by simp
  next
    case high
    with gb have "lowHint v' = lowHint v
        \<and> highHint v' = (if g - 1 < highHint v then g - 1 else highHint v)"
      by (auto simp: guess_body_def Let_def split: if_splits)
    with inv high show ?thesis
      by (simp split: if_splits)
  next
    case low
    with gb have "highHint v' = highHint v
        \<and> lowHint v' = (if g + 1 > lowHint v then g + 1 else lowHint v)"
      by (auto simp: guess_body_def Let_def split: if_splits)
    with inv low show ?thesis
      by (simp split: if_splits)
  qed
qed

lemma hints_kept_stop:
  assumes pr: "guess_prompt v w = (r, w2)"
    and inv: "lowHint v \<le> secret" "secret \<le> highHint v"
    and out: "\<exists>new. stdout w3 = stdout w2 @ new \<and> no_range new"
    and fin: "case res of Inl e \<Rightarrow> True
         | Inr (oc, vf) \<Rightarrow>
             lowHint v \<le> lowHint vf \<and> lowHint vf \<le> secret \<and> secret \<le> highHint vf
             \<and> highHint vf \<le> highHint v"
  shows "hints_kept secret v w (res, w3)"
proof -
  from guess_prompt_prints [of v w] pr obtain n1 where
    n1: "stdout w2 = stdout w @ range_stmt (lowHint v) (highHint v) # n1" "no_range n1"
    by auto
  from out obtain n2 where n2: "stdout w3 = stdout w2 @ n2" "no_range n2"
    by blast
  have "shows_within secret (lowHint v) (highHint v)
          ([range_stmt (lowHint v) (highHint v)] @ n1 @ n2)"
    unfolding shows_within_append
    using inv n1(2) n2(2) by (simp add: shows_within_single shows_within_no_range)
  moreover have "stdout w3 = stdout w @ ([range_stmt (lowHint v) (highHint v)] @ n1 @ n2)"
    using n1(1) n2(1) by simp
  ultimately have "\<exists>new. stdout w3 = stdout w @ new
      \<and> shows_within secret (lowHint v) (highHint v) new"
    by blast
  with fin show ?thesis
    by (simp add: hints_kept_def)
qed

lemma hints_kept_loop:
  "lowHint v \<le> secret \<and> secret \<le> highHint v \<longrightarrow>
     hints_kept secret v w (guess_loop cfg secret v w)"
proof (rule guess_loop_rule)
  fix v w w2
  assume pr: "guess_prompt v w = (None, w2)"
  show "lowHint v \<le> secret \<and> secret \<le> highHint v \<longrightarrow>
     hints_kept secret v w (Inl Process_exit, w2)"
  proof
    assume inv: "lowHint v \<le> secret \<and> secret \<le> highHint v"
    have "\<exists>new. stdout w2 = stdout w2 @ new \<and> no_range new"
      by (simp add: no_range_def)
    with pr inv show "hints_kept secret v w (Inl Process_exit, w2)"
      by (intro hints_kept_stop [of v w None w2]) simp_all
  qed
next
  fix v w g w2 e
  assume pr: "guess_prompt v w = (Some g, w2)"
  show "lowHint v \<le> secret \<and> secret \<le> highHint v \<longrightarrow> hints_kept secret v w (Inl e, w2)"
  proof
    assume inv: "lowHint v \<le> secret \<and> secret \<le> highHint v"
    have "\<exists>new. stdout w2 = stdout w2 @ new \<and> no_range new"
      by (simp add: no_range_def)
    with pr inv show "hints_kept secret v w (Inl e, w2)"
      by (intro hints_kept_stop [of v w "Some g" w2]) simp_all
  qed
next
  fix v w g w2 oc v' w3
  assume pr: "guess_prompt v w = (Some g, w2)"
    and gb: "guess_body cfg secret g v w2 = Inr (Some oc, v', w3)"
  show "lowHint v \<le> secret \<and> secret \<le> highHint v \<longrightarrow>
     hints_kept secret v w (Inr (oc, v'), w3)"
  proof
    assume inv: "lowHint v \<le> secret \<and> secret \<le> highHint v"
    with guess_body_hints [OF gb] have
      "lowHint v \<le> lowHint v' \<and> lowHint v' \<le> secret \<and> secret \<le> highHint v'
       \<and> highHint v' \<le> highHint v"
      by simp
    with pr inv guess_body_prints [OF gb] show "hints_kept secret v w (Inr (oc, v'), w3)"
      by (intro hints_kept_stop [of v w "Some g" w2]) simp_all
  qed
next
  fix v w g w2 v' w3 and r :: "(error + outcome \<times> locals) \<times> world"
  assume pr: "guess_prompt v w = (Some g, w2)"
    and gb: "guess_body cfg secret g v w2 = Inr (None, v', w3)"
    and IH: "lowHint v' \<le> secret \<and> secret \<le> highHint v' \<longrightarrow> hints_kept secret v' w3 r"
  show "lowHint v \<le> secret \<and> secret \<le> highHint v \<longrightarrow> hints_kept secret v w r"
  proof
    assume inv: "lowHint v \<le> secret \<and> secret \<le> highHint v"
    with guess_body_hints [OF gb] have
      h: "lowHint v \<le> lowHint v'" "lowHint v' \<le> secret" "secret \<le> highHint v'"
         "highHint v' \<le> highHint v"
      by simp_all
    with IH have k: "hints_kept secret v' w3 r"
      by simp
    then obtain n3 where n3: "stdout (snd r) = stdout w3 @ n3"
        "shows_within secret (lowHint v') (highHint v') n3"
      unfolding hints_kept_def by blast
    from guess_prompt_prints [of v w] pr obtain n1 where
      n1: "stdout w2 = stdout w @ range_stmt (lowHint v) (highHint v) # n1" "no_range n1"
      by auto
    from guess_body_prints [OF gb] obtain n2 where n2: "stdout w3 = stdout w2 @ n2" "no_range n2"
      by blast
    have "shows_within secret (lowHint v) (highHint v) n3"
      using n3(2) h(1,4) by (rule shows_within_mono)
    then have "shows_within secret (lowHint v) (highHint v)
          ([range_stmt (lowHint v) (highHint v)] @ n1 @ n2 @ n3)"
      unfolding shows_within_append
      using inv n1(2) n2(2) by (simp add: shows_within_single shows_within_no_range)
    moreover have "stdout (snd r) = stdout w @ ([range_stmt (lowHint v) (highHint v)] @ n1 @ n2 @ n3)"
      using n1(1) n2(1) n3(1) by simp
    ultimately have out: "\<exists>new. stdout (snd r) = stdout w @ new
        \<and> shows_within secret (lowHint v) (highHint v) new"
      by blast
    from k h have "case fst r of Inl e \<Rightarrow> True
         | Inr (oc, vf) \<Rightarrow>
             lowHint v \<le> lowHint vf \<and> lowHint vf \<le> secret \<and> secret \<le> highHint vf
             \<and> highHint vf \<le> highHint v"
      unfolding hints_kept_def by (auto split: sum.splits)
    with out show "hints_kept secret v w r"
      by (simp add: hints_kept_def)
  qed
qed

lemma hints_kept_printed:
  assumes "hints_kept secret v w r"
  shows "shows_within secret (lowHint v) (highHint v) (printed w (snd r))"
  using assms unfolding hints_kept_def printed_def by auto

lemma finish_game_stdout:
  "stdout (snd (finish_game cfg secret elapsed now v w)) =
     stdout w @ [[Str (NL # ''Enter your name for the leaderboard (leave blank to skip): '')]]"
  by (simp add: finish_game_def safe_getline_def append_to_leaderboard_def cout_def cerr_def
      Let_def split: list.splits sum.splits)

lemma play_game_unfold:
  "play_game cfg secret elapsed now w =
     (case guess_loop cfg secret (start_locals cfg) (game_intro cfg w) of
        (Inl e, w4) \<Rightarrow> (Inl e, w4)
      | (Inr (oc, v), w4) \<Rightarrow> finish_game cfg secret elapsed now v w4)"
  by (simp add: play_game_def game_intro_def start_locals_def Let_def)

lemma game_intro_stdout: "\<exists>n. stdout (game_intro cfg w) = stdout w @ n \<and> no_range n"
  by (simp add: game_intro_def cout_def no_range_def range_stmt_def)

lemma play_game_stdout:
  "\<exists>n. stdout (snd (play_game cfg secret elapsed now w)) =
          stdout (snd (guess_loop cfg secret (start_locals cfg) (game_intro cfg w))) @ n
        \<and> no_range n"
proof (cases "guess_loop cfg secret (start_locals cfg) (game_intro cfg w)")
  case (Pair r w4)
  show ?thesis
  proof (cases r)
    case (Inl e)
    with Pair show ?thesis
      by (simp add: play_game_unfold no_range_def)
  next
    case (Inr b)
    obtain oc vf where "b = (oc, vf)"
      by (cases b)
    with Inr Pair have "play_game cfg secret elapsed now w =
        finish_game cfg secret elapsed now vf w4"
      by (simp add: play_game_unfold)
    with Pair show ?thesis
      by (simp add: finish_game_stdout no_range_short)
  qed
qed

lemma play_game_hints:
  assumes inv: "minValue cfg \<le> secret" "secret \<le> maxValue cfg"
  shows "shows_within secret (minValue cfg) (maxValue cfg)
           (printed w (snd (play_game cfg secret elapsed now w)))"
proof -
  from game_intro_stdout obtain n0 where
    n0: "stdout (game_intro cfg w) = stdout w @ n0" "no_range n0"
    by blast
  have "hints_kept secret (start_locals cfg) (game_intro cfg w)
          (guess_loop cfg secret (start_locals cfg) (game_intro cfg w))"
    using hints_kept_loop [of "start_locals cfg" secret "game_intro cfg w" cfg] inv
    by (simp add: start_locals_def)
  then obtain n1 where
    n1: "stdout (snd (guess_loop cfg secret (start_locals cfg) (game_intro cfg w))) =
           stdout (game_intro cfg w) @ n1"
      "shows_within secret (minValue cfg) (maxValue cfg) n1"
    unfolding hints_kept_def by (auto simp: start_locals_def)
  from play_game_stdout obtain n2 where
    n2: "stdout (snd (play_game cfg secret elapsed now w)) =
          stdout (snd (guess_loop cfg secret (start_locals cfg) (game_intro cfg w))) @ n2"
      "no_range n2"
    by blast
  have "printed w (snd (play_game cfg secret elapsed now w)) = n0 @ n1 @ n2"
    using n0(1) n1(1) n2(1) by (simp add: printed_def)
  moreover have "shows_within secret (minValue cfg) (maxValue cfg) (n0 @ n1 @ n2)"
    unfolding shows_within_append
    using n0(2) n1(2) n2(2) by (simp add: shows_within_no_range)
  ultimately show ?thesis
    by simp
qed

section \<open>The configuration chosen\<close>

lemma prompt_case_Some:
  assumes "(case p of (None, wa) \<Rightarrow> (None, wa) | (Some x, wa) \<Rightarrow> f x wa) = (Some c, w')"
  obtains x wa where "p = (Some x, wa)" and "f x wa = (Some c, w')"
  using assms by (cases p; cases "fst p") auto

lemma yesno_case_Some:
  assumes "(case p of (None, wa) \<Rightarrow> (None, wa) | (Some True, wa) \<Rightarrow> f wa
            | (Some False, wa) \<Rightarrow> g wa) = (Some c, w')"
  obtains (yes) wa where "p = (Some True, wa)" and "f wa = (Some c, w')"
    | (no) wa where "p = (Some False, wa)" and "g wa = (Some c, w')"
  using assms by (cases p; cases "fst p"; cases "the (fst p)") auto

lemma selected_Some:
  "(Some c0, wa) = (Some cfg, w') \<Longrightarrow> well_formed c0 \<Longrightarrow> well_formed cfg"
  by simp

lemma if_eq_cases:
  assumes "(if b then x else y) = r"
  obtains "b" and "x = r" | "\<not> b" and "y = r"
  using assms by (cases b) auto

lemma choose_difficulty_well_formed:
  assumes "choose_difficulty w = (Some cfg, w')"
  shows "well_formed cfg"
  apply (insert assms [unfolded choose_difficulty_def Let_def])
  apply (erule prompt_case_Some)
  apply (erule if_eq_cases)
   apply (erule selected_Some, simp add: well_formed_def)
  apply (erule if_eq_cases)
   apply (erule selected_Some, simp add: well_formed_def)
  apply (erule if_eq_cases)
   apply (erule selected_Some, simp add: well_formed_def)
  apply (erule prompt_case_Some)
  apply (erule prompt_case_Some)
  apply (erule yesno_case_Some)
   apply (erule prompt_case_Some)
   apply (erule selected_Some)
   apply (drule prompt_int_range)+
   apply (simp add: well_formed_def)
  apply (erule selected_Some)
  apply (drule prompt_int_range)+
  apply (simp add: well_formed_def)
  done

text \<open>
  C9.  A configuration that \<open>choose_difficulty\<close> returns, for any of the four choices,
  has \<open>minValue < maxValue\<close>; its bounds lie within one million and its limit of attempts
  is not negative.  In the Custom case the prompt for the maximum is called with the
  lower bound \<open>minValue + 1\<close>, and \<open>prompt_int\<close> only returns a value within its bounds.
\<close>

theorem chosen_range_nonempty:
  "(choose_difficulty w = (Some cfg, w') \<longrightarrow>
      minValue cfg < maxValue cfg \<and> - 1000000 \<le> minValue cfg \<and> maxValue cfg \<le> 1000000
      \<and> 0 \<le> maxAttempts cfg \<and> maxAttempts cfg \<le> 1000000)
   \<and> (prompt_int p (minv + 1) hi wa = (Some maxv, wb) \<longrightarrow> minv < maxv \<and> maxv \<le> hi)"
proof (intro conjI impI)
  assume "choose_difficulty w = (Some cfg, w')"
  then have wf: "well_formed cfg"
    by (rule choose_difficulty_well_formed)
  from wf show "minValue cfg < maxValue cfg" by (simp add: well_formed_def)
  from wf show "- 1000000 \<le> minValue cfg" by (simp add: well_formed_def)
  from wf show "maxValue cfg \<le> 1000000" by (simp add: well_formed_def)
  from wf show "0 \<le> maxAttempts cfg" by (simp add: well_formed_def)
  from wf show "maxAttempts cfg \<le> 1000000" by (simp add: well_formed_def)
next
  assume "prompt_int p (minv + 1) hi wa = (Some maxv, wb)"
  from prompt_int_range [OF this] show "minv < maxv" and "maxv \<le> hi"
    by simp_all
qed

lemma custom_choice:
  "fst (choose_difficulty (console [''4'', ''5'', ''5'', ''9'', ''n''])) =
     Some \<lparr>difficultyName = ''Custom'', minValue = 5, maxValue = 9, maxAttempts = 0\<rparr>"
  by code_simp

lemma custom_maximum:
  "fst (prompt_int [] (5 + 1) 1000000 (console [''5'', ''9''])) = Some 9"
  by code_simp

theorem chosen_range_nonempty_witness:
  "fst (choose_difficulty (console [''4'', ''5'', ''5'', ''9'', ''n''])) =
     Some \<lparr>difficultyName = ''Custom'', minValue = 5, maxValue = 9, maxAttempts = 0\<rparr>
   \<and> minValue \<lparr>difficultyName = ''Custom'', minValue = 5, maxValue = 9, maxAttempts = 0\<rparr>
       < maxValue \<lparr>difficultyName = ''Custom'', minValue = 5, maxValue = 9, maxAttempts = 0\<rparr>
   \<and> fst (prompt_int [] (5 + 1) 1000000 (console [''5'', ''9''])) = Some 9
   \<and> (5::int) < 9"
proof -
  have a: "choose_difficulty (console [''4'', ''5'', ''5'', ''9'', ''n'']) =
      (Some \<lparr>difficultyName = ''Custom'', minValue = 5, maxValue = 9, maxAttempts = 0\<rparr>,
       snd (choose_difficulty (console [''4'', ''5'', ''5'', ''9'', ''n''])))"
    using custom_choice by (simp add: prod_eq_iff)
  have b: "prompt_int [] (5 + 1) 1000000 (console [''5'', ''9'']) =
      (Some 9, snd (prompt_int [] (5 + 1) 1000000 (console [''5'', ''9''])))"
    using custom_maximum by (simp add: prod_eq_iff)
  from chosen_range_nonempty [of "console [''4'', ''5'', ''5'', ''9'', ''n'']"
      "\<lparr>difficultyName = ''Custom'', minValue = 5, maxValue = 9, maxAttempts = 0\<rparr>"
      "snd (choose_difficulty (console [''4'', ''5'', ''5'', ''9'', ''n'']))"
      "[]" 5 1000000 "console [''5'', ''9'']" 9
      "snd (prompt_int [] (5 + 1) 1000000 (console [''5'', ''9'']))"] a b
  show ?thesis
    using custom_choice custom_maximum by simp
qed

lemma compute_score_Inr:
  assumes "compute_score a t cfg = Inr s"
  shows "s = max 0 (raw_score a t cfg * bonus a cfg)"
  using assms
  by (simp add: compute_score_def raw_score_def bonus_def Let_def max_def split: if_splits)

lemma log2_pos: "2 \<le> x \<Longrightarrow> 0 < log 2 (x::real)"
  by (simp add: zero_less_log_cancel_iff)

lemma compute_score_defined:
  assumes "score_defined a cfg"
  shows "compute_score a t cfg = Inr (max 0 (raw_score a t cfg * bonus a cfg))"
proof -
  from assms have r: "minValue cfg \<le> maxValue cfg" "in_int (maxValue cfg - minValue cfg + 1)"
      "in_int (a - 1)"
    by (simp_all add: score_defined_def)
  then have i: "in_int (maxValue cfg - minValue cfg)"
    by (simp add: in_int_def INT_MIN_def INT_MAX_def)
  from r(1) have "2 \<le> real_of_int (maxValue cfg - minValue cfg + 1) + 1"
    by simp
  then have "0 < log 2 (real_of_int (maxValue cfg - minValue cfg + 1) + 1)"
    by (rule log2_pos)
  then have "log 2 (2 + (real_of_int (maxValue cfg) - real_of_int (minValue cfg))) \<noteq> 0"
    by (simp add: add.commute)
  with r i show ?thesis
    by (simp add: compute_score_def raw_score_def bonus_def Let_def max_def)
qed

lemma bonus_ge_1: "1 \<le> bonus a cfg"
  by (simp add: bonus_def)

lemma bonus_antimono: "a1 \<le> a2 \<Longrightarrow> bonus a2 cfg \<le> bonus a1 cfg"
  by (auto simp: bonus_def max_def divide_right_mono)

lemma raw_score_antimono_attempts: "a1 \<le> a2 \<Longrightarrow> raw_score a2 t cfg \<le> raw_score a1 t cfg"
  by (simp add: raw_score_def)

lemma raw_score_antimono_seconds: "t1 \<le> t2 \<Longrightarrow> raw_score a t2 cfg \<le> raw_score a t1 cfg"
  by (simp add: raw_score_def)

lemma clamped_product_mono:
  fixes f1 f2 m1 m2 :: real
  assumes "f2 \<le> f1" and "m2 \<le> m1" and "1 \<le> m2"
  shows "max 0 (f2 * m2) \<le> max 0 (f1 * m1)"
proof (cases "f2 < 0")
  case True
  with assms(3) have "f2 * m2 \<le> 0"
    by (simp add: mult_le_0_iff)
  then show ?thesis
    by simp
next
  case False
  with assms have "f2 * m2 \<le> f1 * m1"
    by (intro mult_mono) simp_all
  then show ?thesis
    by simp
qed

section \<open>The score\<close>

text \<open>
  C2.  Whenever \<open>compute_score\<close> returns a score, the score is not negative; of two
  scores for the same configuration and time, the one for more attempts is not larger;
  of two scores for the same configuration and attempts, the one for more seconds is
  not larger.  It returns a score for every configuration with \<open>minValue \<le> maxValue\<close>
  whose range size and attempts stay within \<open>int\<close>.
\<close>

theorem score_monotone_nonnegative:
  "(compute_score a t cfg = Inr s \<longrightarrow> 0 \<le> s)
   \<and> (a1 \<le> a2 \<and> compute_score a1 t cfg = Inr s1 \<and> compute_score a2 t cfg = Inr s2
        \<longrightarrow> s2 \<le> s1)
   \<and> (t1 \<le> t2 \<and> compute_score a t1 cfg = Inr u1 \<and> compute_score a t2 cfg = Inr u2
        \<longrightarrow> u2 \<le> u1)
   \<and> (minValue cfg \<le> maxValue cfg \<and> in_int (maxValue cfg - minValue cfg + 1) \<and> in_int (a - 1)
        \<longrightarrow> (\<exists>s. compute_score a t cfg = Inr s))"
proof (intro conjI impI)
  assume "compute_score a t cfg = Inr s"
  from compute_score_Inr [OF this] show "0 \<le> s"
    by simp
next
  assume h: "a1 \<le> a2 \<and> compute_score a1 t cfg = Inr s1 \<and> compute_score a2 t cfg = Inr s2"
  then have s1: "s1 = max 0 (raw_score a1 t cfg * bonus a1 cfg)"
    and s2: "s2 = max 0 (raw_score a2 t cfg * bonus a2 cfg)"
    by (simp_all add: compute_score_Inr)
  from h have "raw_score a2 t cfg \<le> raw_score a1 t cfg" and "bonus a2 cfg \<le> bonus a1 cfg"
    by (simp_all add: raw_score_antimono_attempts bonus_antimono)
  then show "s2 \<le> s1"
    unfolding s1 s2 using bonus_ge_1 by (rule clamped_product_mono)
next
  assume h: "t1 \<le> t2 \<and> compute_score a t1 cfg = Inr u1 \<and> compute_score a t2 cfg = Inr u2"
  then have u1: "u1 = max 0 (raw_score a t1 cfg * bonus a cfg)"
    and u2: "u2 = max 0 (raw_score a t2 cfg * bonus a cfg)"
    by (simp_all add: compute_score_Inr)
  from h have "raw_score a t2 cfg \<le> raw_score a t1 cfg"
    by (simp add: raw_score_antimono_seconds)
  then show "u2 \<le> u1"
    unfolding u1 u2 using order_refl bonus_ge_1 by (rule clamped_product_mono)
next
  assume "minValue cfg \<le> maxValue cfg \<and> in_int (maxValue cfg - minValue cfg + 1) \<and> in_int (a - 1)"
  then have "score_defined a cfg"
    by (simp add: score_defined_def)
  from compute_score_defined [OF this] show "\<exists>s. compute_score a t cfg = Inr s"
    by blast
qed

lemma medium_defined: "score_defined 2 medium" "score_defined 5 medium"
  by (simp_all add: score_defined_def medium_def in_int_def INT_MIN_def INT_MAX_def)

theorem score_monotone_nonnegative_witness:
  "compute_score 2 3 medium = Inr (max 0 (raw_score 2 3 medium * bonus 2 medium))
   \<and> compute_score 5 3 medium = Inr (max 0 (raw_score 5 3 medium * bonus 5 medium))
   \<and> compute_score 2 8 medium = Inr (max 0 (raw_score 2 8 medium * bonus 2 medium))
   \<and> 0 \<le> max 0 (raw_score 2 3 medium * bonus 2 medium)
   \<and> max 0 (raw_score 5 3 medium * bonus 5 medium) \<le> max 0 (raw_score 2 3 medium * bonus 2 medium)
   \<and> max 0 (raw_score 2 8 medium * bonus 2 medium) \<le> max 0 (raw_score 2 3 medium * bonus 2 medium)
   \<and> (\<exists>s. compute_score 2 3 medium = Inr s)"
  using score_monotone_nonnegative [of 2 3 medium "max 0 (raw_score 2 3 medium * bonus 2 medium)"
      2 5 "max 0 (raw_score 2 3 medium * bonus 2 medium)"
      "max 0 (raw_score 5 3 medium * bonus 5 medium)" 3 8
      "max 0 (raw_score 2 3 medium * bonus 2 medium)"
      "max 0 (raw_score 2 8 medium * bonus 2 medium)"]
    compute_score_defined [OF medium_defined(1), of 3]
    compute_score_defined [OF medium_defined(2), of 3]
    compute_score_defined [OF medium_defined(1), of 8]
  by simp

lemma spec_score_eq: "spec_score a t cfg = max 0 (raw_score a t cfg * bonus a cfg)"
proof -
  have "real_of_int (maxValue cfg - minValue cfg + 2) =
      real_of_int (maxValue cfg - minValue cfg + 1) + 1"
    by simp
  then have eq1: "log 2 (real_of_int (maxValue cfg - minValue cfg + 2)) =
      log 2 (real_of_int (maxValue cfg - minValue cfg + 1) + 1)"
    by (rule arg_cong)
  have eq2: "20 * (real_of_int a - 1) = 20 * real_of_int (a - 1)"
    by simp
  show ?thesis
    unfolding spec_score_def raw_score_def bonus_def Let_def eq1 eq2
    by (cases "maxAttempts cfg > 0") simp_all
qed

lemma log2_101_tight: "253 / 38 < log 2 (101::real)" "log 2 (101::real) < 273 / 41"
proof -
  have e: "log 2 (real ((101::nat) ^ n)) = real n * log 2 (real 101)" for n
    unfolding of_nat_power by (rule log_nat_power) simp
  have "(2::nat) ^ 253 < 101 ^ 38"
    by simp
  then have "real 253 < log 2 (real ((101::nat) ^ 38))"
    by (rule less_log2_of_power)
  then have "real 253 < real 38 * log 2 (real 101)"
    unfolding e .
  then show "253 / 38 < log 2 (101::real)"
    by simp
  have "(101::nat) ^ 41 < 2 ^ 273"
    by simp
  then have "log 2 (real ((101::nat) ^ 41)) < real 273"
    by (rule log2_of_power_less) simp
  then have "real 41 * log 2 (real 101) < real 273"
    unfolding e .
  then show "log 2 (101::real) < 273 / 41"
    by simp
qed

lemma example_score_bounds:
  "150.18 < 1000 / log 2 (101::real)" "1000 / log 2 (101::real) < 150.2"
proof -
  define x :: real where "x = 1000 / log 2 101"
  have pos: "0 < log 2 (101::real)"
    using log2_101_tight(1) by simp
  have "x < 1000 / (253 / 38)"
    unfolding x_def using log2_101_tight(1) by (intro divide_strict_left_mono) (simp_all add: pos)
  also have "\<dots> < 150.2"
    by simp
  finally show "1000 / log 2 (101::real) < 150.2"
    unfolding x_def .
  have "(150.18::real) < 1000 / (273 / 41)"
    by simp
  also have "\<dots> < x"
    unfolding x_def using log2_101_tight(2) pos by (intro divide_strict_left_mono) simp_all
  finally show "150.18 < 1000 / log 2 (101::real)"
    unfolding x_def .
qed

lemma example_score:
  "compute_score 1 0 \<lparr>difficultyName = n, minValue = 1, maxValue = 100, maxAttempts = 0\<rparr>
     = Inr (1000 / log 2 101)"
proof -
  let ?c = "\<lparr>difficultyName = n, minValue = 1, maxValue = 100, maxAttempts = 0\<rparr>"
  have "score_defined 1 ?c"
    by (simp add: score_defined_def in_int_def INT_MIN_def INT_MAX_def)
  then have "compute_score 1 0 ?c = Inr (max 0 (raw_score 1 0 ?c * bonus 1 ?c))"
    by (rule compute_score_defined)
  moreover have "raw_score 1 0 ?c * bonus 1 ?c = 1000 / log 2 101"
    by (simp add: raw_score_def bonus_def)
  moreover have "0 < 1000 / log 2 (101::real)"
    using log2_101_tight(1) by simp
  ultimately show ?thesis
    by simp
qed

lemma safe_getline_eq:
  "safe_getline (cout m w) = (typed_name w, (cout m w)\<lparr>stdin := tl (stdin w)\<rparr>)"
  by (cases "stdin w") (simp_all add: safe_getline_def typed_name_def cout_def)

lemma finish_game_Inr:
  assumes "finish_game cfg secret elapsed now v w = (Inr res, w')"
  shows "compute_score (max 1 (attempts_l v)) elapsed cfg = Inr (score res)"
proof (cases "compute_score (max 1 (attempts_l v)) elapsed cfg")
  case (Inl e)
  with assms show ?thesis
    by (simp add: finish_game_def safe_getline_eq Let_def)
next
  case (Inr sc)
  with assms have "score res = sc"
    by (auto simp: finish_game_def safe_getline_eq Let_def)
  with Inr show ?thesis
    by simp
qed

lemma finish_game_eq:
  assumes "score_defined (max 1 (attempts_l v)) cfg"
  shows "finish_game cfg secret elapsed now v w =
     (Inr (game_result cfg secret elapsed now v w),
      if recorded_name w \<noteq> ''Anonymous''
      then append_to_leaderboard (game_result cfg secret elapsed now v w) (after_name w)
      else after_name w)"
proof -
  have "compute_score (max 1 (attempts_l v)) elapsed cfg =
      Inr (spec_score (max 1 (attempts_l v)) elapsed cfg)"
    using compute_score_defined [OF assms] by (simp add: spec_score_eq)
  then show ?thesis
    by (simp add: finish_game_def safe_getline_eq Let_def game_result_def recorded_name_def
        after_name_def)
qed

text \<open>
  C4, with the numeral of the example amended.  Every score that \<open>compute_score\<close> returns
  is the score of the specification's formula, and it returns that score for every
  configuration with \<open>minValue \<le> maxValue\<close> whose range size and attempts stay within
  \<open>int\<close>.  For the range 1 to 100 without a limit, one attempt and no time, the score is
  \<open>1000 / log2(101)\<close>, a number within 0.01 of 150.19.  \<open>play_game\<close> calls it with
  \<open>max(1, attempts)\<close>.
\<close>

theorem score_closed_form:
  "(compute_score a t cfg = Inr s \<longrightarrow> s = spec_score a t cfg)
   \<and> (minValue cfg \<le> maxValue cfg \<and> in_int (maxValue cfg - minValue cfg + 1) \<and> in_int (a - 1)
        \<longrightarrow> compute_score a t cfg = Inr (spec_score a t cfg))
   \<and> compute_score 1 0 \<lparr>difficultyName = n, minValue = 1, maxValue = 100, maxAttempts = 0\<rparr>
        = Inr (1000 / log 2 101)
   \<and> \<bar>1000 / log 2 101 - 150.19\<bar> < (0.01::real)
   \<and> (finish_game cfg secret elapsed now v w = (Inr res, w') \<longrightarrow>
        score res = spec_score (max 1 (attempts_l v)) elapsed cfg)"
proof (intro conjI impI)
  assume "compute_score a t cfg = Inr s"
  from compute_score_Inr [OF this] show "s = spec_score a t cfg"
    by (simp add: spec_score_eq)
next
  assume "minValue cfg \<le> maxValue cfg \<and> in_int (maxValue cfg - minValue cfg + 1) \<and> in_int (a - 1)"
  then have "score_defined a cfg"
    by (simp add: score_defined_def)
  from compute_score_defined [OF this] show "compute_score a t cfg = Inr (spec_score a t cfg)"
    by (simp add: spec_score_eq)
next
  show "compute_score 1 0 \<lparr>difficultyName = n, minValue = 1, maxValue = 100, maxAttempts = 0\<rparr>
        = Inr (1000 / log 2 101)"
    by (rule example_score)
next
  from example_score_bounds show "\<bar>1000 / log 2 101 - 150.19\<bar> < (0.01::real)"
    unfolding abs_less_iff by simp
next
  assume "finish_game cfg secret elapsed now v w = (Inr res, w')"
  then have "compute_score (max 1 (attempts_l v)) elapsed cfg = Inr (score res)"
    by (rule finish_game_Inr)
  from compute_score_Inr [OF this]
  show "score res = spec_score (max 1 (attempts_l v)) elapsed cfg"
    by (simp add: spec_score_eq)
qed

lemma medium_first_try: "score_defined (max 1 (attempts_l \<lparr>attempts_l = 0, lowHint = 1, highHint = 100\<rparr>)) medium"
  by (simp add: score_defined_def medium_def in_int_def INT_MIN_def INT_MAX_def)

theorem score_closed_form_witness:
  "compute_score 2 3 medium = Inr (spec_score 2 3 medium)
   \<and> spec_score 2 3 medium = spec_score 2 3 medium
   \<and> fst (finish_game medium 7 3 ''t'' \<lparr>attempts_l = 0, lowHint = 1, highHint = 100\<rparr> (console []))
       = Inr (game_result medium 7 3 ''t'' \<lparr>attempts_l = 0, lowHint = 1, highHint = 100\<rparr> (console []))
   \<and> score (game_result medium 7 3 ''t'' \<lparr>attempts_l = 0, lowHint = 1, highHint = 100\<rparr> (console []))
       = spec_score (max 1 0) 3 medium"
  using score_closed_form [of 2 3 medium "spec_score 2 3 medium" "''Easy''" 7 3 "''t''"
      "\<lparr>attempts_l = 0, lowHint = 1, highHint = 100\<rparr>" "console []"
      "game_result medium 7 3 ''t'' \<lparr>attempts_l = 0, lowHint = 1, highHint = 100\<rparr> (console [])"
      "snd (finish_game medium 7 3 ''t'' \<lparr>attempts_l = 0, lowHint = 1, highHint = 100\<rparr> (console []))"]
    finish_game_eq [OF medium_first_try, of 7 3 "''t''" "console []"]
  by (simp add: medium_def in_int_def INT_MIN_def INT_MAX_def)

text \<open>
  The score of that example is below 150.2, so it is not 150.3 to one decimal place: it
  differs from 150.3 by more than 0.1.
\<close>

theorem score_example_counterexample:
  "compute_score 1 0 \<lparr>difficultyName = ''Custom'', minValue = 1, maxValue = 100, maxAttempts = 0\<rparr>
     = Inr (1000 / log 2 101)
   \<and> 1000 / log 2 (101::real) < 150.2
   \<and> \<not> \<bar>1000 / log 2 (101::real) - 150.3\<bar> \<le> 0.1"
proof -
  from example_score_bounds(2) have "\<not> \<bar>1000 / log 2 (101::real) - 150.3\<bar> \<le> 0.1"
    by (simp add: abs_le_iff)
  with example_score [of "''Custom''"] example_score_bounds(2) show ?thesis
    by blast
qed

section \<open>The end of a session\<close>

text \<open>
  C7, as the code has it.  A session whose score is defined returns a \<open>Result\<close>.  When
  the name is left empty the \<open>Result\<close> carries the name Anonymous and the leaderboard file
  is unchanged; when the name typed is Anonymous itself the file is unchanged as well;
  for every other name the \<open>Result\<close> carries the name typed and its line is appended to the
  file when the file can be opened for appending.  When it cannot, the file is unchanged
  and the warning is written to the error stream, which nothing else in these statements
  writes to.
\<close>

theorem anonymous_not_appended:
  "score_defined (max 1 (attempts_l v)) cfg \<longrightarrow>
     (\<exists>res w'. finish_game cfg secret elapsed now v w = (Inr res, w')
        \<and> (typed_name w = [] \<longrightarrow>
              playerName res = ''Anonymous'' \<and> leaderboard_csv w' = leaderboard_csv w
              \<and> stderr w' = stderr w)
        \<and> (typed_name w = ''Anonymous'' \<longrightarrow>
              playerName res = ''Anonymous'' \<and> leaderboard_csv w' = leaderboard_csv w
              \<and> stderr w' = stderr w)
        \<and> (typed_name w \<noteq> [] \<and> typed_name w \<noteq> ''Anonymous'' \<longrightarrow>
              playerName res = typed_name w
              \<and> (csv_writable w \<longrightarrow>
                    leaderboard_csv w' =
                      Some ((case leaderboard_csv w of None \<Rightarrow> [] | Some old \<Rightarrow> old)
                            @ csv_line res @ [NL])
                    \<and> stderr w' = stderr w)
              \<and> (\<not> csv_writable w \<longrightarrow>
                    leaderboard_csv w' = leaderboard_csv w
                    \<and> stderr w' =
                        stderr w @ [[Str (''Warning: could not write leaderboard file.'' @ [NL])]])))"
proof
  assume d: "score_defined (max 1 (attempts_l v)) cfg"
  let ?res = "game_result cfg secret elapsed now v w"
  let ?w' = "if recorded_name w \<noteq> ''Anonymous''
      then append_to_leaderboard ?res (after_name w) else after_name w"
  have fg: "finish_game cfg secret elapsed now v w = (Inr ?res, ?w')"
    by (rule finish_game_eq [OF d])
  have frame: "leaderboard_csv (after_name w) = leaderboard_csv w"
      "csv_writable (after_name w) = csv_writable w"
      "stderr (after_name w) = stderr w"
    by (simp_all add: after_name_def cout_def)
  have name: "playerName ?res = recorded_name w"
    by (simp add: game_result_def)
  have a: "typed_name w = [] \<longrightarrow>
      playerName ?res = ''Anonymous'' \<and> leaderboard_csv ?w' = leaderboard_csv w
      \<and> stderr ?w' = stderr w"
    by (simp add: name recorded_name_def frame)
  have b: "typed_name w = ''Anonymous'' \<longrightarrow>
      playerName ?res = ''Anonymous'' \<and> leaderboard_csv ?w' = leaderboard_csv w
      \<and> stderr ?w' = stderr w"
    by (simp add: name recorded_name_def frame)
  have c: "typed_name w \<noteq> [] \<and> typed_name w \<noteq> ''Anonymous'' \<longrightarrow>
      playerName ?res = typed_name w
      \<and> (csv_writable w \<longrightarrow>
            leaderboard_csv ?w' =
              Some ((case leaderboard_csv w of None \<Rightarrow> [] | Some old \<Rightarrow> old)
                    @ csv_line ?res @ [NL])
            \<and> stderr ?w' = stderr w)
      \<and> (\<not> csv_writable w \<longrightarrow>
            leaderboard_csv ?w' = leaderboard_csv w
            \<and> stderr ?w' =
                stderr w @ [[Str (''Warning: could not write leaderboard file.'' @ [NL])]])"
    by (simp add: name recorded_name_def frame append_to_leaderboard_def cerr_def)
  from fg a b c show "\<exists>res w'. finish_game cfg secret elapsed now v w = (Inr res, w')
        \<and> (typed_name w = [] \<longrightarrow>
              playerName res = ''Anonymous'' \<and> leaderboard_csv w' = leaderboard_csv w
              \<and> stderr w' = stderr w)
        \<and> (typed_name w = ''Anonymous'' \<longrightarrow>
              playerName res = ''Anonymous'' \<and> leaderboard_csv w' = leaderboard_csv w
              \<and> stderr w' = stderr w)
        \<and> (typed_name w \<noteq> [] \<and> typed_name w \<noteq> ''Anonymous'' \<longrightarrow>
              playerName res = typed_name w
              \<and> (csv_writable w \<longrightarrow>
                    leaderboard_csv w' =
                      Some ((case leaderboard_csv w of None \<Rightarrow> [] | Some old \<Rightarrow> old)
                            @ csv_line res @ [NL])
                    \<and> stderr w' = stderr w)
              \<and> (\<not> csv_writable w \<longrightarrow>
                    leaderboard_csv w' = leaderboard_csv w
                    \<and> stderr w' =
                        stderr w @ [[Str (''Warning: could not write leaderboard file.'' @ [NL])]]))"
    by blast
qed

lemma easy_second_try:
  "score_defined (max 1 (attempts_l \<lparr>attempts_l = 2, lowHint = 1, highHint = 9\<rparr>)) easy"
  by (simp add: score_defined_def easy_def in_int_def INT_MIN_def INT_MAX_def)

theorem anonymous_not_appended_witness:
  "score_defined (max 1 (attempts_l \<lparr>attempts_l = 2, lowHint = 1, highHint = 9\<rparr>)) easy
   \<and> (\<exists>res w'. finish_game easy 7 3 ''t'' \<lparr>attempts_l = 2, lowHint = 1, highHint = 9\<rparr>
                   (console [''Ann'']) = (Inr res, w')
        \<and> playerName res = ''Ann''
        \<and> leaderboard_csv w' = Some (csv_line res @ [NL])
        \<and> stderr w' = [])
   \<and> (\<exists>res w'. finish_game easy 7 3 ''t'' \<lparr>attempts_l = 2, lowHint = 1, highHint = 9\<rparr>
                   (console [[]]) = (Inr res, w')
        \<and> playerName res = ''Anonymous''
        \<and> leaderboard_csv w' = None
        \<and> stderr w' = [])
   \<and> (\<exists>res w'. finish_game easy 7 3 ''t'' \<lparr>attempts_l = 2, lowHint = 1, highHint = 9\<rparr>
                   \<lparr>stdin = [''Ann''], stdout = [], stderr = [], leaderboard_csv = None,
                     csv_writable = False\<rparr> = (Inr res, w')
        \<and> playerName res = ''Ann''
        \<and> leaderboard_csv w' = None
        \<and> stderr w' = [[Str (''Warning: could not write leaderboard file.'' @ [NL])]])"
  using anonymous_not_appended [of "\<lparr>attempts_l = 2, lowHint = 1, highHint = 9\<rparr>" easy 7 3 "''t''"
      "console [''Ann'']"]
    anonymous_not_appended [of "\<lparr>attempts_l = 2, lowHint = 1, highHint = 9\<rparr>" easy 7 3 "''t''"
      "console [[]]"]
    anonymous_not_appended [of "\<lparr>attempts_l = 2, lowHint = 1, highHint = 9\<rparr>" easy 7 3 "''t''"
      "\<lparr>stdin = [''Ann''], stdout = [], stderr = [], leaderboard_csv = None,
        csv_writable = False\<rparr>"]
    easy_second_try
  by (simp add: typed_name_def console_def)

text \<open>
  The name Anonymous, typed by the player, is not empty, and the session returns its
  \<open>Result\<close>; yet the file that could be written is still missing afterwards.
\<close>

theorem anonymous_typed_counterexample:
  "typed_name (console [''Anonymous'']) = ''Anonymous''
   \<and> typed_name (console [''Anonymous'']) \<noteq> []
   \<and> csv_writable (console [''Anonymous''])
   \<and> fst (finish_game easy 7 3 ''t'' \<lparr>attempts_l = 2, lowHint = 1, highHint = 9\<rparr>
            (console [''Anonymous'']))
       = Inr (game_result easy 7 3 ''t'' \<lparr>attempts_l = 2, lowHint = 1, highHint = 9\<rparr>
                (console [''Anonymous'']))
   \<and> leaderboard_csv (snd (finish_game easy 7 3 ''t'' \<lparr>attempts_l = 2, lowHint = 1, highHint = 9\<rparr>
                              (console [''Anonymous''])))
       = None"
  using finish_game_eq [OF easy_second_try, of 7 3 "''t''" "console [''Anonymous'']"]
  by (simp add: typed_name_def recorded_name_def console_def after_name_def cout_def)

section \<open>Decimal numerals written and read back\<close>

lemma digit_char_props:
  assumes "d < 10"
  shows "is_digit (digit_char d)" and "digit_val (digit_char d) = d"
proof -
  have "(of_char (char_of (48 + d)) :: nat) = 48 + d"
    using assms by simp
  then show "is_digit (digit_char d)" and "digit_val (digit_char d) = d"
    using assms by (simp_all add: is_digit_def digit_val_def digit_char_def)
qed

lemma str_nat_digits: "list_all is_digit (str_nat n)"
proof (induction n rule: str_nat.induct)
  case (1 n)
  show ?case
  proof (cases "n < 10")
    case True
    then show ?thesis
      by (subst str_nat.simps) (simp add: digit_char_props)
  next
    case False
    with "1.IH" show ?thesis
      by (subst str_nat.simps) (simp add: digit_char_props)
  qed
qed

lemma str_nat_nonempty: "str_nat n \<noteq> []"
  by (subst str_nat.simps) simp

lemma dec_val_snoc: "dec_val (ds @ [c]) = 10 * dec_val ds + digit_val c"
  by (simp add: dec_val_def)

lemma dec_val_str_nat: "dec_val (str_nat n) = n"
proof (induction n rule: str_nat.induct)
  case (1 n)
  show ?case
  proof (cases "n < 10")
    case True
    then show ?thesis
      by (subst str_nat.simps) (simp add: dec_val_def digit_char_props)
  next
    case False
    then have "dec_val (str_nat n) = 10 * dec_val (str_nat (n div 10)) + digit_val (digit_char (n mod 10))"
      by (subst str_nat.simps) (simp add: dec_val_snoc)
    with False "1.IH" show ?thesis
      by (simp add: digit_char_props)
  qed
qed

lemma is_digit_not_special:
  assumes "is_digit c"
  shows "c \<noteq> CHR '',''" and "c \<noteq> NL" and "c \<noteq> CHR ''-''" and "c \<noteq> CHR ''+''"
    and "c \<noteq> CHR ''.''" and "\<not> isspace c" and "c \<noteq> QUOTE"
  using assms by (auto simp: is_digit_def NL_def isspace_def QUOTE_def)

lemma takeWhile_digits:
  assumes "list_all is_digit ds" and "rest = [] \<or> \<not> is_digit (hd rest)"
  shows "takeWhile is_digit (ds @ rest) = ds" and "dropWhile is_digit (ds @ rest) = rest"
proof -
  from assms(1) have all: "\<forall>c\<in>set ds. is_digit c"
    by (simp add: list_all_iff)
  from assms(2) have r: "takeWhile is_digit rest = []" "dropWhile is_digit rest = rest"
    by (cases rest; simp)+
  from all r show "takeWhile is_digit (ds @ rest) = ds" and "dropWhile is_digit (ds @ rest) = rest"
    by (simp_all add: takeWhile_append2 dropWhile_append2)
qed

lemma hd_str_nat: "is_digit (hd (str_nat n))"
  using str_nat_digits [of n] str_nat_nonempty [of n]
  by (cases "str_nat n") simp_all

lemma strtol_prefix_to_string:
  "strtol_prefix (to_string i) = Some (i, length (to_string i))"
proof (cases "i < 0")
  case True
  let ?ds = "str_nat (nat (- i))"
  have ts: "to_string i = CHR ''-'' # ?ds"
    using True by (simp add: to_string_def)
  have sp: "\<not> isspace CHR ''-''"
    by (simp add: isspace_def)
  have tw: "takeWhile is_digit ?ds = ?ds"
    using takeWhile_digits(1) [OF str_nat_digits, of "[]" "nat (- i)"] by simp
  from True have v: "- int (dec_val ?ds) = i"
    by (simp add: dec_val_str_nat)
  show ?thesis
    unfolding ts by (simp add: strtol_prefix_def Let_def str_nat_nonempty sp tw v)
next
  case False
  let ?ds = "str_nat (nat i)"
  have ts: "to_string i = ?ds"
    using False by (simp add: to_string_def)
  obtain c cs where cs: "?ds = c # cs"
    using str_nat_nonempty [of "nat i"] by (cases ?ds) auto
  have d: "is_digit c"
    using hd_str_nat [of "nat i"] cs by simp
  have tw: "takeWhile is_digit ?ds = ?ds"
    using takeWhile_digits(1) [OF str_nat_digits, of "[]" "nat i"] by simp
  from False have v: "int (dec_val ?ds) = i"
    by (simp add: dec_val_str_nat)
  have ws: "takeWhile isspace ?ds = []" "dropWhile isspace ?ds = ?ds"
    using is_digit_not_special(6) [OF d] cs by simp_all
  have sg: "hd ?ds \<noteq> CHR ''-''" "hd ?ds \<noteq> CHR ''+''"
    using is_digit_not_special(3,4) [OF d] cs by simp_all
  show ?thesis
    unfolding ts by (simp add: strtol_prefix_def Let_def str_nat_nonempty ws sg tw v)
qed


lemma to_string_chars:
  assumes "c \<in> set (to_string i)"
  shows "c \<noteq> CHR '',''" and "c \<noteq> NL"
proof -
  from assms have "c = CHR ''-'' \<or> is_digit c"
    using str_nat_digits [of "nat (- i)"] str_nat_digits [of "nat i"]
    by (auto simp: to_string_def list_all_iff split: if_splits)
  then have "c \<noteq> CHR '','' \<and> c \<noteq> NL"
  proof
    assume "c = CHR ''-''"
    then show ?thesis
      by (simp add: NL_def)
  next
    assume "is_digit c"
    then show ?thesis
      by (simp add: is_digit_not_special(1,2))
  qed
  then show "c \<noteq> CHR '',''" and "c \<noteq> NL"
    by simp_all
qed





lemma fixed2_chars:
  assumes "c \<in> set (fixed2 x)"
  shows "c \<noteq> CHR '',''" and "c \<noteq> NL"
proof -
  define n where "n = nat (round_half_even (\<bar>x\<bar> * 100))"
  have "set (fixed2 x) \<subseteq>
      {CHR ''-'', CHR ''.'', digit_char (n div 10 mod 10), digit_char (n mod 10)}
      \<union> set (str_nat (n div 100))"
    by (auto simp: fixed2_def Let_def n_def)
  with assms have "c = CHR ''-'' \<or> c = CHR ''.'' \<or> c = digit_char (n div 10 mod 10)
      \<or> c = digit_char (n mod 10) \<or> c \<in> set (str_nat (n div 100))"
    by blast
  moreover have "is_digit (digit_char (n div 10 mod 10))" "is_digit (digit_char (n mod 10))"
    by (simp_all add: digit_char_props)
  moreover have "\<forall>c\<in>set (str_nat (n div 100)). is_digit c"
    using str_nat_digits [of "n div 100"] by (simp add: list_all_iff)
  ultimately have "c = CHR ''-'' \<or> c = CHR ''.'' \<or> is_digit c"
    by blast
  then have "c \<noteq> CHR '','' \<and> c \<noteq> NL"
  proof (elim disjE)
    assume "is_digit c"
    then show ?thesis
      by (simp add: is_digit_not_special(1,2))
  qed (simp_all add: NL_def)
  then show "c \<noteq> CHR '',''" and "c \<noteq> NL"
    by simp_all
qed


section \<open>Lines of the leaderboard written and read back\<close>

lemma getlines_Nil: "getlines d [] = []"
  by (subst getlines.simps) simp

lemma getlines_field:
  assumes "d \<notin> set a"
  shows "getlines d (a @ d # rest) = a # getlines d rest"
proof -
  from assms have all: "\<forall>c\<in>set a. c \<noteq> d"
    by blast
  then have "takeWhile (\<lambda>c. c \<noteq> d) (a @ d # rest) = a"
    and "dropWhile (\<lambda>c. c \<noteq> d) (a @ d # rest) = d # rest"
    by (simp_all add: takeWhile_append2 dropWhile_append2)
  then show ?thesis
    by (subst getlines.simps) simp
qed

lemma getlines_last:
  assumes "d \<notin> set a" and "a \<noteq> []"
  shows "getlines d a = [a]"
proof -
  from assms(1) have all: "\<forall>c\<in>set a. c \<noteq> d"
    by blast
  then have tw: "takeWhile (\<lambda>c. c \<noteq> d) a = a" and dw: "dropWhile (\<lambda>c. c \<noteq> d) a = []"
    by simp_all
  show ?thesis
    by (subst getlines.simps) (simp add: assms(2) tw dw getlines_Nil)
qed











section \<open>A line that stops the read\<close>

lemma bad_fourth_field:
  assumes "CHR '','' \<notin> set f1" and "CHR '','' \<notin> set f2" and "CHR '','' \<notin> set f3"
    and "CHR '','' \<notin> set f4" and "stoi f4 = Inl e"
  shows "parse_line (f1 @ CHR '','' # f2 @ CHR '','' # f3 @ CHR '','' # f4 @ CHR '','' # rest) = Inl e"
  unfolding parse_line_def
  by (simp only: getlines_field [OF assms(1)] getlines_field [OF assms(2)]
      getlines_field [OF assms(3)] getlines_field [OF assms(4)] assms(5) list.case sum.case)

lemma quoted_not_number: "stoi (QUOTE # s) = Inl Invalid_argument"
proof -
  have "\<not> isspace QUOTE" "\<not> is_digit QUOTE" "QUOTE \<noteq> CHR ''-''" "QUOTE \<noteq> CHR ''+''"
    by (simp_all add: isspace_def is_digit_def QUOTE_def)
  then show ?thesis
    by (simp add: stoi_def strtol_prefix_def Let_def)
qed

lemma comma_record_line:
  "parse_line (csv_line comma_record) = Inl Invalid_argument"
proof -
  let ?rest = "fixed2 (elapsedSeconds comma_record) @ CHR '','' #
      to_string (secretNumber comma_record) @ CHR '','' # fixed2 (score comma_record)"
  have e: "csv_line comma_record =
      (QUOTE # ''2024-01-01 10:00:00'' @ [QUOTE]) @ CHR '','' # (QUOTE # ''Doe'') @ CHR '','' #
      ('' John'' @ [QUOTE]) @ CHR '','' # (QUOTE # ''Easy (1-20)'' @ [QUOTE]) @ CHR '','' #
      to_string (attempts comma_record) @ CHR '','' # ?rest"
    by (simp add: csv_line_def comma_record_def)
  have c: "CHR '','' \<notin> set (QUOTE # ''2024-01-01 10:00:00'' @ [QUOTE])"
      "CHR '','' \<notin> set (QUOTE # ''Doe'')" "CHR '','' \<notin> set ('' John'' @ [QUOTE])"
      "CHR '','' \<notin> set (QUOTE # ''Easy (1-20)'' @ [QUOTE])"
    by (simp_all add: QUOTE_def)
  show ?thesis
    unfolding e by (rule bad_fourth_field [OF c quoted_not_number])
qed

lemma comma_record_one_line:
  shows "NL \<notin> set (csv_line comma_record)" and "csv_line comma_record \<noteq> []"
proof -
  have "NL \<notin> set (to_string (attempts comma_record))"
      "NL \<notin> set (fixed2 (elapsedSeconds comma_record))"
      "NL \<notin> set (to_string (secretNumber comma_record))"
      "NL \<notin> set (fixed2 (score comma_record))"
    using to_string_chars(2) fixed2_chars(2) by blast+
  moreover have "NL \<notin> set (timestamp comma_record)" "NL \<notin> set (playerName comma_record)"
      "NL \<notin> set (difficulty comma_record)" "NL \<noteq> QUOTE" "NL \<noteq> CHR '',''"
    by (simp_all add: comma_record_def NL_def QUOTE_def)
  ultimately show "NL \<notin> set (csv_line comma_record)"
    by (simp add: csv_line_def)
  show "csv_line comma_record \<noteq> []"
    by (simp add: csv_line_def)
qed

lemma read_comma_record:
  "read_leaderboard 10 (append_to_leaderboard comma_record (console [])) = Inl Invalid_argument"
proof -
  have "leaderboard_csv (append_to_leaderboard comma_record (console [])) =
      Some (csv_line comma_record @ NL # [])"
    by (simp add: append_to_leaderboard_def console_def)
  then have "read_leaderboard 10 (append_to_leaderboard comma_record (console [])) =
      read_lines 10 (getlines NL (csv_line comma_record @ NL # [])) []"
    by (simp add: read_leaderboard_def)
  also have "\<dots> = read_lines 10 (csv_line comma_record # getlines NL []) []"
    by (simp only: getlines_field [OF comma_record_one_line(1)])
  also have "\<dots> = Inl Invalid_argument"
    using comma_record_one_line(2) by (simp add: comma_record_line)
  finally show ?thesis .
qed

lemma word_for_attempts:
  "parse_line ''2024-01-01,Ann,Easy,three,12.50,7,100.00'' = Inl Invalid_argument"
proof -
  have c: "CHR '','' \<notin> set ''2024-01-01''" "CHR '','' \<notin> set ''Ann''" "CHR '','' \<notin> set ''Easy''"
      "CHR '','' \<notin> set ''three''"
    by simp_all
  have "stoi ''three'' = Inl Invalid_argument"
    by (simp add: stoi_def strtol_prefix_def isspace_def is_digit_def Let_def)
  from bad_fourth_field [OF c this, of "''12.50,7,100.00''"] show ?thesis
    by simp
qed

text \<open>
  C1.  A missing file gives the empty vector, and a line with too few fields is
  skipped.  But a line whose fourth field is not a number stops the whole read:
  \<open>stoi\<close> throws \<open>invalid_argument\<close>, \<open>read_leaderboard\<close> has no handler, and neither have
  its callers \<open>show_leaderboard\<close> and \<open>main\<close>.  The program writes such a line itself when
  the player's name holds a comma.
\<close>

theorem malformed_number_stops_read:
  "read_leaderboard 10 (console []) = Inr []
   \<and> read_leaderboard 10 ((console [])\<lparr>leaderboard_csv := Some (''2024-01-01,Ann'' @ [NL])\<rparr>)
       = Inr []
   \<and> read_leaderboard 10
        ((console [])\<lparr>leaderboard_csv :=
           Some (''2024-01-01,Ann,Easy,three,12.50,7,100.00'' @ [NL])\<rparr>)
       = Inl Invalid_argument
   \<and> read_leaderboard 10 (append_to_leaderboard comma_record (console []))
       = Inl Invalid_argument"
proof (intro conjI)
  show "read_leaderboard 10 (console []) = Inr []"
    by (simp add: read_leaderboard_def console_def)
  have nl: "NL \<notin> set ''2024-01-01,Ann''" "NL \<notin> set ''2024-01-01,Ann,Easy,three,12.50,7,100.00''"
    by (simp_all add: NL_def)
  have short: "parse_line ''2024-01-01,Ann'' = Inr None"
  proof -
    have c: "CHR '','' \<notin> set ''2024-01-01''" "CHR '','' \<notin> set ''Ann''"
      by simp_all
    have "getlines CHR '','' (''2024-01-01'' @ CHR '','' # ''Ann'') = [''2024-01-01'', ''Ann'']"
      by (simp only: getlines_field [OF c(1)] getlines_last [OF c(2)] list.distinct
          not_Cons_self2 simp_thms)
    then show ?thesis
      by (simp add: parse_line_def)
  qed
  have "read_leaderboard 10 ((console [])\<lparr>leaderboard_csv := Some (''2024-01-01,Ann'' @ [NL])\<rparr>)
      = read_lines 10 (getlines NL (''2024-01-01,Ann'' @ NL # [])) []"
    by (simp add: read_leaderboard_def)
  also have "\<dots> = read_lines 10 (''2024-01-01,Ann'' # getlines NL []) []"
    by (simp only: getlines_field [OF nl(1)])
  also have "\<dots> = Inr []"
    by (simp add: short getlines_Nil)
  finally show "read_leaderboard 10
      ((console [])\<lparr>leaderboard_csv := Some (''2024-01-01,Ann'' @ [NL])\<rparr>) = Inr []" .
  have "read_leaderboard 10
      ((console [])\<lparr>leaderboard_csv :=
         Some (''2024-01-01,Ann,Easy,three,12.50,7,100.00'' @ [NL])\<rparr>)
      = read_lines 10 (getlines NL (''2024-01-01,Ann,Easy,three,12.50,7,100.00'' @ NL # [])) []"
    by (simp add: read_leaderboard_def)
  also have "\<dots> = read_lines 10 (''2024-01-01,Ann,Easy,three,12.50,7,100.00'' # getlines NL []) []"
    by (simp only: getlines_field [OF nl(2)])
  also have "\<dots> = Inl Invalid_argument"
    by (simp add: word_for_attempts)
  finally show "read_leaderboard 10
      ((console [])\<lparr>leaderboard_csv :=
         Some (''2024-01-01,Ann,Easy,three,12.50,7,100.00'' @ [NL])\<rparr>) = Inl Invalid_argument" .
  show "read_leaderboard 10 (append_to_leaderboard comma_record (console []))
       = Inl Invalid_argument"
    by (rule read_comma_record)
qed

section \<open>Guesses typed as numerals\<close>

text \<open>
  The line \<open>to_string g\<close> is what a player types for the guess \<open>g\<close>; \<open>prompt_int\<close> accepts
  it at once.
\<close>

lemma is_digit_not_blank: "is_digit c \<Longrightarrow> \<not> blank c"
  by (auto simp: is_digit_def blank_def)

lemma last_str_nat: "is_digit (last (str_nat n))"
  by (subst str_nat.simps) (simp add: digit_char_props str_nat_nonempty)

lemma to_string_ends:
  shows "to_string i \<noteq> []" and "\<not> blank (hd (to_string i))" and "\<not> blank (last (to_string i))"
proof -
  show "to_string i \<noteq> []"
    by (simp add: to_string_def str_nat_nonempty)
  have "\<not> blank CHR ''-''"
    by (simp add: blank_def)
  then show "\<not> blank (hd (to_string i))"
    using is_digit_not_blank [OF hd_str_nat] by (simp add: to_string_def)
  show "\<not> blank (last (to_string i))"
    using is_digit_not_blank [OF last_str_nat] by (simp add: to_string_def str_nat_nonempty)
qed

lemma trim_to_string:
  shows "find_first_not_of (to_string i) = Some 0"
    and "substr (to_string i) 0 (Suc (find_last_not_of (to_string i))) = to_string i"
proof -
  obtain c cs where cs: "to_string i = c # cs"
    using to_string_ends(1) [of i] by (cases "to_string i") auto
  have h: "\<not> blank c"
    using to_string_ends(2) [of i] cs by simp
  then show "find_first_not_of (to_string i) = Some 0"
    by (simp add: find_first_not_of_def cs)
  obtain ys z where ys: "to_string i = ys @ [z]"
    using to_string_ends(1) [of i] by (cases "to_string i" rule: rev_cases) auto
  have "\<not> blank z"
    using to_string_ends(3) [of i] by (simp add: ys)
  then have "takeWhile blank (rev (to_string i)) = []"
    by (simp add: ys)
  then have "find_last_not_of (to_string i) = length (to_string i) - 1"
    by (simp add: find_last_not_of_def)
  then show "substr (to_string i) 0 (Suc (find_last_not_of (to_string i))) = to_string i"
    by (simp add: substr_def cs)
qed

lemma line_verdict_numeral:
  assumes "lo \<le> g" and "g \<le> hi" and "in_int g"
  shows "line_verdict lo hi (to_string g) = Inl g"
proof -
  from assms(3) have "stoll (to_string g) = Inr (g, length (to_string g))"
    by (simp add: stoll_def strtol_prefix_to_string in_int_def INT_MIN_def INT_MAX_def
        LLONG_MIN_def LLONG_MAX_def)
  with assms(1,2) show ?thesis
    by (simp add: line_verdict_def trim_to_string)
qed

lemma guess_prompt_numeral:
  assumes "stdin w = to_string g # rest" and "in_int g"
  shows "\<exists>w2. guess_prompt v w = (Some g, w2) \<and> stdin w2 = rest"
proof -
  let ?w1 = "cout (range_stmt (lowHint v) (highHint v)) w"
  have st: "stdin ?w1 = to_string g # rest"
    using assms(1) by (simp add: cout_def)
  have "line_verdict INT_MIN INT_MAX (to_string g) = Inl g"
    using assms(2) by (intro line_verdict_numeral) (simp_all add: in_int_def)
  then have "guess_prompt v w =
      (Some g, (cout [Str ''Enter guess (or 0 to give up): ''] ?w1)\<lparr>stdin := rest\<rparr>)"
    unfolding guess_prompt_def by (simp add: prompt_int_line [OF st])
  then show ?thesis
    by simp
qed

section \<open>Rounds of the loop\<close>

lemma after_rounds_Cons:
  assumes "after_rounds cfg secret (g # gs) v w = Some r"
  obtains w2 v' w3 where "guess_prompt v w = (Some g, w2)"
    and "guess_body cfg secret g v w2 = Inr (None, v', w3)"
    and "after_rounds cfg secret gs v' w3 = Some r"
  using assms by (auto split: prod.splits option.splits sum.splits if_splits)

lemma guess_loop_goes_on:
  assumes "guess_prompt v w = (Some g, w2)" and "guess_body cfg secret g v w2 = Inr (None, v', w3)"
  shows "guess_loop cfg secret v w = guess_loop cfg secret v' w3"
  by (subst guess_loop_unfold) (simp add: assms)

lemma guess_loop_ends:
  assumes "guess_prompt v w = (Some g, w2)" and "guess_body cfg secret g v w2 = Inr (Some oc, v', w3)"
  shows "guess_loop cfg secret v w = (Inr (oc, v'), w3)"
  by (subst guess_loop_unfold) (simp add: assms)

lemma after_rounds_loop:
  "after_rounds cfg secret gs v w = Some (v', w') \<Longrightarrow>
     guess_loop cfg secret v w = guess_loop cfg secret v' w'"
proof (induction gs arbitrary: v w)
  case Nil
  then show ?case
    by simp
next
  case (Cons g gs)
  from Cons.prems obtain w2 v1 w3 where pr: "guess_prompt v w = (Some g, w2)"
    and gb: "guess_body cfg secret g v w2 = Inr (None, v1, w3)"
    and ar: "after_rounds cfg secret gs v1 w3 = Some (v', w')"
    by (rule after_rounds_Cons)
  from guess_loop_goes_on [OF pr gb] Cons.IH [OF ar] show ?case
    by simp
qed

lemma after_rounds_attempts:
  "after_rounds cfg secret gs v w = Some (v', w') \<Longrightarrow>
     attempts_l v' = attempts_l v + int (length gs) \<and> (\<forall>g\<in>set gs. g \<noteq> 0 \<and> g \<noteq> secret)"
proof (induction gs arbitrary: v w)
  case Nil
  then show ?case
    by simp
next
  case (Cons g gs)
  from Cons.prems obtain w2 v1 w3 where pr: "guess_prompt v w = (Some g, w2)"
    and gb: "guess_body cfg secret g v w2 = Inr (None, v1, w3)"
    and ar: "after_rounds cfg secret gs v1 w3 = Some (v', w')"
    by (rule after_rounds_Cons)
  have z: "g \<noteq> 0"
    using gb by (auto simp: guess_body_def)
  have s: "g \<noteq> secret"
    using gb z by (auto simp: guess_body_def Let_def split: if_splits)
  from guess_body_attempts(1) [OF gb] z have "attempts_l v1 = attempts_l v + 1"
    by simp
  with Cons.IH [OF ar] z s show ?case
    by simp
qed

lemma after_rounds_hints:
  assumes "after_rounds cfg secret gs v w = Some (v', w')"
    and "lowHint v \<le> secret" and "secret \<le> highHint v"
  shows "lowHint v \<le> lowHint v' \<and> lowHint v' \<le> secret \<and> secret \<le> highHint v'
     \<and> highHint v' \<le> highHint v
     \<and> (\<forall>g\<in>set gs. (secret < g \<longrightarrow> highHint v' \<le> g - 1) \<and> (g < secret \<longrightarrow> g + 1 \<le> lowHint v'))"
  using assms
proof (induction gs arbitrary: v w)
  case Nil
  then show ?case
    by simp
next
  case (Cons g gs)
  from Cons.prems(1) obtain w2 v1 w3 where pr: "guess_prompt v w = (Some g, w2)"
    and gb: "guess_body cfg secret g v w2 = Inr (None, v1, w3)"
    and ar: "after_rounds cfg secret gs v1 w3 = Some (v', w')"
    by (rule after_rounds_Cons)
  have z: "g \<noteq> 0"
    using gb by (auto simp: guess_body_def)
  note h = guess_body_hints [OF gb Cons.prems(2,3)]
  from h have inv1: "lowHint v1 \<le> secret" "secret \<le> highHint v1"
    by simp_all
  note k = Cons.IH [OF ar inv1]
  from h k z show ?case
    by auto
qed

lemma guess_body_wrong:
  assumes "g \<noteq> 0" and "g \<noteq> secret" and "attempts_l v < INT_MAX"
    and "\<not> (0 < maxAttempts cfg \<and> maxAttempts cfg \<le> attempts_l v + 1)"
  shows "\<exists>v' w'. guess_body cfg secret g v w = Inr (None, v', w')
           \<and> stdin w' = stdin w \<and> attempts_l v' = attempts_l v + 1"
proof (cases "g > secret")
  case True
  with assms show ?thesis
    by (auto simp: guess_body_def Let_def cout_def)
next
  case False
  with assms show ?thesis
    by (auto simp: guess_body_def Let_def cout_def)
qed

lemma numeral_rounds:
  assumes "\<forall>g\<in>set gs. in_int g \<and> g \<noteq> 0 \<and> g \<noteq> secret"
    and "maxAttempts cfg \<le> 0 \<or> attempts_l v + int (length gs) < maxAttempts cfg"
    and "attempts_l v + int (length gs) \<le> INT_MAX"
    and "stdin w = map to_string gs @ rest"
  shows "\<exists>v' w'. after_rounds cfg secret gs v w = Some (v', w') \<and> stdin w' = rest"
  using assms
proof (induction gs arbitrary: v w)
  case Nil
  then show ?case
    by simp
next
  case (Cons g gs)
  from Cons.prems(1) have g: "in_int g" "g \<noteq> 0" "g \<noteq> secret"
    by simp_all
  from Cons.prems(4) have st: "stdin w = to_string g # (map to_string gs @ rest)"
    by simp
  from guess_prompt_numeral [OF st g(1)] obtain w2 where
    pr: "guess_prompt v w = (Some g, w2)" and st2: "stdin w2 = map to_string gs @ rest"
    by blast
  from Cons.prems(3) have lt: "attempts_l v < INT_MAX"
    by simp
  from Cons.prems(2) have nl: "\<not> (0 < maxAttempts cfg \<and> maxAttempts cfg \<le> attempts_l v + 1)"
    by auto
  from guess_body_wrong [OF g(2,3) lt nl] obtain v1 w3 where
    gb: "guess_body cfg secret g v w2 = Inr (None, v1, w3)"
    and st3: "stdin w3 = stdin w2" and a1: "attempts_l v1 = attempts_l v + 1"
    by blast
  have "\<exists>v' w'. after_rounds cfg secret gs v1 w3 = Some (v', w') \<and> stdin w' = rest"
  proof (rule Cons.IH)
    show "\<forall>g\<in>set gs. in_int g \<and> g \<noteq> 0 \<and> g \<noteq> secret"
      using Cons.prems(1) by simp
    show "maxAttempts cfg \<le> 0 \<or> attempts_l v1 + int (length gs) < maxAttempts cfg"
      using Cons.prems(2) a1 by auto
    show "attempts_l v1 + int (length gs) \<le> INT_MAX"
      using Cons.prems(3) a1 by simp
    show "stdin w3 = map to_string gs @ rest"
      using st3 st2 by simp
  qed
  with pr gb show ?case
    by simp
qed

lemma guess_loop_prints:
  "\<exists>new. stdout (snd (guess_loop cfg secret v w)) =
           stdout w @ range_stmt (lowHint v) (highHint v) # new"
proof (rule guess_loop_rule)
  fix v w w2
  assume pr: "guess_prompt v w = (None, w2)"
  from guess_prompt_prints [of v w] pr
  show "\<exists>new. stdout (snd (Inl Process_exit :: error + outcome \<times> locals, w2)) =
           stdout w @ range_stmt (lowHint v) (highHint v) # new"
    by auto
next
  fix v w g w2 and e :: error
  assume pr: "guess_prompt v w = (Some g, w2)"
  from guess_prompt_prints [of v w] pr
  show "\<exists>new. stdout (snd (Inl e :: error + outcome \<times> locals, w2)) =
           stdout w @ range_stmt (lowHint v) (highHint v) # new"
    by auto
next
  fix v w g w2 oc v' w3
  assume pr: "guess_prompt v w = (Some g, w2)"
    and gb: "guess_body cfg secret g v w2 = Inr (Some oc, v', w3)"
  from guess_prompt_prints [of v w] pr obtain n1 where
    "stdout w2 = stdout w @ range_stmt (lowHint v) (highHint v) # n1"
    by auto
  moreover from guess_body_prints [OF gb] obtain n2 where "stdout w3 = stdout w2 @ n2"
    by blast
  ultimately show "\<exists>new. stdout (snd (Inr (oc, v') :: error + outcome \<times> locals, w3)) =
           stdout w @ range_stmt (lowHint v) (highHint v) # new"
    by simp
next
  fix v w g w2 v' w3 and r :: "(error + outcome \<times> locals) \<times> world"
  assume pr: "guess_prompt v w = (Some g, w2)"
    and gb: "guess_body cfg secret g v w2 = Inr (None, v', w3)"
    and IH: "\<exists>new. stdout (snd r) = stdout w3 @ range_stmt (lowHint v') (highHint v') # new"
  from guess_prompt_prints [of v w] pr obtain n1 where
    "stdout w2 = stdout w @ range_stmt (lowHint v) (highHint v) # n1"
    by auto
  moreover from guess_body_prints [OF gb] obtain n2 where "stdout w3 = stdout w2 @ n2"
    by blast
  moreover from IH obtain n3 where
    "stdout (snd r) = stdout w3 @ range_stmt (lowHint v') (highHint v') # n3"
    by blast
  ultimately show "\<exists>new. stdout (snd r) = stdout w @ range_stmt (lowHint v) (highHint v) # new"
    by simp
qed

lemma exhausted_round:
  assumes "0 < maxAttempts cfg" and "maxAttempts cfg \<le> INT_MAX"
    and "attempts_l v + 1 = maxAttempts cfg"
    and pr: "guess_prompt v w = (Some g, w2)" and "g \<noteq> 0" and "g \<noteq> secret"
  shows "\<exists>vf w3. guess_loop cfg secret v w =
                  (Inr (AttemptsExhausted, vf), cout (exhausted_stmt cfg secret) w3)
         \<and> attempts_l vf = maxAttempts cfg \<and> stdin w3 = stdin w2"
proof -
  from assms obtain vf w3 where
    gb: "guess_body cfg secret g v w2 =
           Inr (Some AttemptsExhausted, vf, cout (exhausted_stmt cfg secret) w3)"
    and att: "attempts_l vf = maxAttempts cfg"
    using guess_body_exhausted [of cfg v g secret w2] by blast
  from guess_body_stdin [OF gb] have "stdin w3 = stdin w2"
    by (simp add: cout_def)
  with guess_loop_ends [OF pr gb] att show ?thesis
    by blast
qed

lemma finish_game_attempts:
  assumes "finish_game cfg secret elapsed now v w = (Inr res, w')"
  shows "attempts res = attempts_l v"
proof (cases "compute_score (max 1 (attempts_l v)) elapsed cfg")
  case (Inl e)
  with assms show ?thesis
    by (simp add: finish_game_def safe_getline_eq Let_def)
next
  case (Inr sc)
  with assms show ?thesis
    by (auto simp: finish_game_def safe_getline_eq Let_def)
qed

lemma game_intro_stdin: "stdin (game_intro cfg w) = stdin w"
  by (simp add: game_intro_def cout_def)

lemma play_game_ends:
  assumes gl: "guess_loop cfg secret (start_locals cfg) (game_intro cfg w) = (Inr (oc, vf), we)"
    and sd: "score_defined (max 1 (attempts_l vf)) cfg"
  shows "\<exists>res wp. play_game cfg secret elapsed now w = (Inr res, wp)
           \<and> attempts res = attempts_l vf \<and> (\<exists>n. stdout wp = stdout we @ n)"
proof -
  from gl have "play_game cfg secret elapsed now w = finish_game cfg secret elapsed now vf we"
    by (simp add: play_game_unfold)
  moreover have "attempts (game_result cfg secret elapsed now vf we) = attempts_l vf"
    by (simp add: game_result_def)
  moreover have "\<exists>n. stdout (snd (finish_game cfg secret elapsed now vf we)) = stdout we @ n"
    by (simp add: finish_game_stdout)
  ultimately show ?thesis
    using finish_game_eq [OF sd, of secret elapsed now we] by auto
qed

lemma session_gave_up:
  assumes "\<forall>x\<in>set gs. in_int x \<and> x \<noteq> 0 \<and> x \<noteq> secret"
    and "maxAttempts cfg \<le> 0 \<or> attempts_l v + int (length gs) < maxAttempts cfg"
    and "attempts_l v + int (length gs) \<le> INT_MAX"
    and "stdin w = map to_string gs @ to_string 0 # rest"
  shows "\<exists>vf wf. guess_loop cfg secret v w = (Inr (GaveUp, vf), wf)
           \<and> attempts_l vf = attempts_l v + int (length gs)
           \<and> stdin wf = rest \<and> last (stdout wf) = gave_up_stmt secret"
proof -
  from numeral_rounds [OF assms] obtain vn wn where
    ar: "after_rounds cfg secret gs v w = Some (vn, wn)" and st: "stdin wn = to_string 0 # rest"
    by blast
  have "in_int 0"
    by (simp add: in_int_def INT_MIN_def INT_MAX_def)
  from guess_prompt_numeral [OF st this] obtain w4 where
    pr: "guess_prompt vn wn = (Some 0, w4)" and st4: "stdin w4 = rest"
    by blast
  have "guess_loop cfg secret vn wn = (Inr (GaveUp, vn), cout (gave_up_stmt secret) w4)"
    by (rule guess_loop_ends [OF pr guess_body_zero])
  with after_rounds_loop [OF ar] have
    "guess_loop cfg secret v w = (Inr (GaveUp, vn), cout (gave_up_stmt secret) w4)"
    by simp
  moreover have "attempts_l vn = attempts_l v + int (length gs)"
    using after_rounds_attempts [OF ar] by simp
  moreover have "stdin (cout (gave_up_stmt secret) w4) = rest"
    "last (stdout (cout (gave_up_stmt secret) w4)) = gave_up_stmt secret"
    using st4 by (simp_all add: cout_def)
  ultimately show ?thesis
    by blast
qed

lemma session_correct:
  assumes "\<forall>x\<in>set gs. in_int x \<and> x \<noteq> 0 \<and> x \<noteq> secret"
    and "maxAttempts cfg \<le> 0 \<or> attempts_l v + int (length gs) < maxAttempts cfg"
    and "attempts_l v + int (length gs) < INT_MAX"
    and "in_int secret" and "secret \<noteq> 0"
    and "stdin w = map to_string gs @ to_string secret # rest"
  shows "\<exists>vf wf. guess_loop cfg secret v w = (Inr (Correct, vf), wf)
           \<and> attempts_l vf = attempts_l v + int (length gs) + 1 \<and> stdin wf = rest"
proof -
  from assms(3) have le: "attempts_l v + int (length gs) \<le> INT_MAX"
    by simp
  from numeral_rounds [OF assms(1,2) le assms(6)] obtain vn wn where
    ar: "after_rounds cfg secret gs v w = Some (vn, wn)" and st: "stdin wn = to_string secret # rest"
    by blast
  from guess_prompt_numeral [OF st assms(4)] obtain w4 where
    pr: "guess_prompt vn wn = (Some secret, w4)" and st4: "stdin w4 = rest"
    by blast
  have an: "attempts_l vn = attempts_l v + int (length gs)"
    using after_rounds_attempts [OF ar] by simp
  with assms(3) have "attempts_l vn \<noteq> INT_MAX"
    by simp
  with assms(5) obtain wf where
    gb: "guess_body cfg secret secret vn w4 =
           Inr (Some Correct, vn\<lparr>attempts_l := attempts_l vn + 1\<rparr>, wf)"
    and wf: "stdin wf = stdin w4"
    by (simp add: guess_body_def Let_def cout_def)
  from guess_loop_ends [OF pr gb] after_rounds_loop [OF ar] have
    "guess_loop cfg secret v w = (Inr (Correct, vn\<lparr>attempts_l := attempts_l vn + 1\<rparr>), wf)"
    by simp
  with an wf st4 show ?thesis
    by simp
qed

lemma session_exhausted:
  assumes "0 < maxAttempts cfg" and "maxAttempts cfg \<le> INT_MAX" and "gs \<noteq> []"
    and "attempts_l v + int (length gs) = maxAttempts cfg"
    and "\<forall>x\<in>set gs. in_int x \<and> x \<noteq> 0 \<and> x \<noteq> secret"
    and "stdin w = map to_string gs @ rest"
  shows "\<exists>vf wf. guess_loop cfg secret v w = (Inr (AttemptsExhausted, vf), wf)
           \<and> attempts_l vf = maxAttempts cfg
           \<and> stdin wf = rest \<and> last (stdout wf) = exhausted_stmt cfg secret"
proof -
  from assms(3) obtain hs g where gs: "gs = hs @ [g]"
    by (cases gs rule: rev_cases) auto
  from assms(5) gs have hs: "\<forall>x\<in>set hs. in_int x \<and> x \<noteq> 0 \<and> x \<noteq> secret"
    and g: "in_int g" "g \<noteq> 0" "g \<noteq> secret"
    by simp_all
  from assms(4) gs have len: "attempts_l v + int (length hs) + 1 = maxAttempts cfg"
    by simp
  then have lim: "maxAttempts cfg \<le> 0 \<or> attempts_l v + int (length hs) < maxAttempts cfg"
    by simp
  from len assms(2) have le: "attempts_l v + int (length hs) \<le> INT_MAX"
    by simp
  from assms(6) gs have st: "stdin w = map to_string hs @ to_string g # rest"
    by simp
  from numeral_rounds [OF hs lim le st] obtain vn wn where
    ar: "after_rounds cfg secret hs v w = Some (vn, wn)" and stn: "stdin wn = to_string g # rest"
    by blast
  from guess_prompt_numeral [OF stn g(1)] obtain w2 where
    pr: "guess_prompt vn wn = (Some g, w2)" and st2: "stdin w2 = rest"
    by blast
  have an: "attempts_l vn + 1 = maxAttempts cfg"
    using after_rounds_attempts [OF ar] len by simp
  from exhausted_round [OF assms(1,2) an pr g(2,3)] obtain vf w3 where
    "guess_loop cfg secret vn wn =
       (Inr (AttemptsExhausted, vf), cout (exhausted_stmt cfg secret) w3)"
    and "attempts_l vf = maxAttempts cfg" and "stdin w3 = stdin w2"
    by blast
  with after_rounds_loop [OF ar] st2 have
    "guess_loop cfg secret v w = (Inr (AttemptsExhausted, vf), cout (exhausted_stmt cfg secret) w3)
     \<and> attempts_l vf = maxAttempts cfg
     \<and> stdin (cout (exhausted_stmt cfg secret) w3) = rest
     \<and> last (stdout (cout (exhausted_stmt cfg secret) w3)) = exhausted_stmt cfg secret"
    by (simp add: cout_def)
  then show ?thesis
    by blast
qed

lemma play_game_result:
  assumes gl: "fst (guess_loop cfg secret (start_locals cfg) (game_intro cfg w)) = Inr (oc, vf)"
    and sd: "score_defined (max 1 (attempts_l vf)) cfg"
  shows "play_game cfg secret elapsed now w =
     (Inr (game_result cfg secret elapsed now vf
             (snd (guess_loop cfg secret (start_locals cfg) (game_intro cfg w)))),
      snd (play_game cfg secret elapsed now w))"
proof -
  obtain we where we: "guess_loop cfg secret (start_locals cfg) (game_intro cfg w) =
      (Inr (oc, vf), we)"
    using gl by (cases "guess_loop cfg secret (start_locals cfg) (game_intro cfg w)") auto
  then have "play_game cfg secret elapsed now w = finish_game cfg secret elapsed now vf we"
    by (simp add: play_game_unfold)
  then have "fst (play_game cfg secret elapsed now w) =
      Inr (game_result cfg secret elapsed now vf we)"
    by (simp add: finish_game_eq [OF sd])
  with we show ?thesis
    by (simp add: prod_eq_iff)
qed

lemma typed_numerals:
  "to_string 0 = ''0''" "to_string 5 = ''5''" "to_string 7 = ''7''" "to_string 8 = ''8''"
  "to_string 9 = ''9''" "to_string 12 = ''12''" "to_string 15 = ''15''"
  "to_string 10 = ''10''" "to_string 20 = ''20''" "to_string 30 = ''30''" "to_string 40 = ''40''"
  "to_string 60 = ''60''" "to_string 70 = ''70''" "to_string 80 = ''80''" "to_string 90 = ''90''"
  "to_string 45 = ''45''" "to_string 55 = ''55''"
  by code_simp+

lemma option_pair:
  "map_option fst x = Some a \<Longrightarrow> x = Some (a, snd (the x))"
  by (cases x) auto

lemma pair_fst: "fst p = a \<Longrightarrow> p = (a, snd p)"
  by (cases p) simp

section \<open>The counter over a session\<close>

text \<open>
  C6.  The guess 0 ends the loop in \<open>GaveUp\<close>: the counter keeps its value and the
  statement printed shows the secret.  Every other guess adds exactly one to the counter
  (below \<open>INT_MAX\<close>, where \<open>attempts++\<close> is defined), and the loop goes on from, or ends
  with, the locals the round returned.  So after the rounds that read the guesses \<open>gs\<close>
  the counter has grown by the length of \<open>gs\<close>, and the round that ends the loop leaves it
  there when its guess is 0 and adds one otherwise.  On an input of plain numerals, wrong
  guesses followed by 0 end the loop in \<open>GaveUp\<close> with the counter grown by the number of
  wrong guesses and the secret in the last statement printed; followed by the secret they
  end it in \<open>Correct\<close> with one more; and a session that is given up after wrong guesses
  returns, when its score is defined, a \<open>Result\<close> that records their number.
\<close>

theorem give_up_keeps_counter:
  "guess_body cfg secret 0 v w = Inr (Some GaveUp, v, cout (gave_up_stmt secret) w)
   \<and> (guess_prompt v w = (Some 0, w2) \<longrightarrow>
        guess_loop cfg secret v w = (Inr (GaveUp, v), cout (gave_up_stmt secret) w2))
   \<and> (guess \<noteq> 0 \<and> attempts_l v < INT_MAX \<longrightarrow>
        (\<exists>oc v' w'. guess_body cfg secret guess v w = Inr (oc, v', w')
           \<and> attempts_l v' = attempts_l v + 1))
   \<and> (guess_prompt v w = (Some guess, w2)
        \<and> guess_body cfg secret guess v w2 = Inr (None, v1, w3) \<longrightarrow>
        guess_loop cfg secret v w = guess_loop cfg secret v1 w3
        \<and> attempts_l v1 = attempts_l v + 1)
   \<and> (guess_prompt v w = (Some guess, w2)
        \<and> guess_body cfg secret guess v w2 = Inr (Some oc1, v1, w3) \<longrightarrow>
        guess_loop cfg secret v w = (Inr (oc1, v1), w3)
        \<and> attempts_l v1 = (if guess = 0 then attempts_l v else attempts_l v + 1))
   \<and> (after_rounds cfg secret gs v w = Some (vn, wn) \<longrightarrow>
        guess_loop cfg secret v w = guess_loop cfg secret vn wn
        \<and> attempts_l vn = attempts_l v + int (length gs))
   \<and> (after_rounds cfg secret gs v w = Some (vn, wn) \<and> guess_prompt vn wn = (Some guess, w4)
        \<and> guess_body cfg secret guess vn w4 = Inr (Some oc1, ve, we) \<longrightarrow>
        guess_loop cfg secret v w = (Inr (oc1, ve), we)
        \<and> attempts_l ve = attempts_l v + int (length gs) + (if guess = 0 then 0 else 1)
        \<and> (guess = 0 \<longrightarrow> oc1 = GaveUp \<and> stdout we = stdout w4 @ [gave_up_stmt secret]))
   \<and> ((\<forall>x\<in>set gs. in_int x \<and> x \<noteq> 0 \<and> x \<noteq> secret)
        \<and> (maxAttempts cfg \<le> 0 \<or> attempts_l v + int (length gs) < maxAttempts cfg)
        \<and> attempts_l v + int (length gs) \<le> INT_MAX
        \<and> stdin w = map to_string gs @ to_string 0 # rest \<longrightarrow>
        (\<exists>vf wf. guess_loop cfg secret v w = (Inr (GaveUp, vf), wf)
           \<and> attempts_l vf = attempts_l v + int (length gs)
           \<and> stdin wf = rest \<and> last (stdout wf) = gave_up_stmt secret))
   \<and> ((\<forall>x\<in>set gs. in_int x \<and> x \<noteq> 0 \<and> x \<noteq> secret)
        \<and> (maxAttempts cfg \<le> 0 \<or> attempts_l v + int (length gs) < maxAttempts cfg)
        \<and> attempts_l v + int (length gs) < INT_MAX
        \<and> in_int secret \<and> secret \<noteq> 0
        \<and> stdin w = map to_string gs @ to_string secret # rest \<longrightarrow>
        (\<exists>vf wf. guess_loop cfg secret v w = (Inr (Correct, vf), wf)
           \<and> attempts_l vf = attempts_l v + int (length gs) + 1 \<and> stdin wf = rest))
   \<and> ((\<forall>x\<in>set gs. in_int x \<and> x \<noteq> 0 \<and> x \<noteq> secret)
        \<and> (maxAttempts cfg \<le> 0 \<or> int (length gs) < maxAttempts cfg)
        \<and> int (length gs) \<le> INT_MAX
        \<and> stdin w = map to_string gs @ to_string 0 # rest
        \<and> play_game cfg secret elapsed now w = (Inr res, wp) \<longrightarrow>
        attempts res = int (length gs))
   \<and> ((\<forall>x\<in>set gs. in_int x \<and> x \<noteq> 0 \<and> x \<noteq> secret)
        \<and> (maxAttempts cfg \<le> 0 \<or> int (length gs) < maxAttempts cfg)
        \<and> int (length gs) \<le> INT_MAX
        \<and> stdin w = map to_string gs @ to_string 0 # rest
        \<and> score_defined (max 1 (int (length gs))) cfg \<longrightarrow>
        (\<exists>r p. play_game cfg secret elapsed now w = (Inr r, p) \<and> attempts r = int (length gs)))"
proof (intro conjI impI)
  show body: "guess_body cfg secret 0 v w = Inr (Some GaveUp, v, cout (gave_up_stmt secret) w)" for v w
    by (simp add: guess_body_def gave_up_stmt_def)
  show "guess_loop cfg secret v w = (Inr (GaveUp, v), cout (gave_up_stmt secret) w2)"
    if "guess_prompt v w = (Some 0, w2)"
    using that by (simp add: guess_loop_unfold body)
  show "\<exists>oc v' w'. guess_body cfg secret guess v w = Inr (oc, v', w')
           \<and> attempts_l v' = attempts_l v + 1"
    if "guess \<noteq> 0 \<and> attempts_l v < INT_MAX"
    using that by (auto simp: guess_body_def Let_def)
next
  assume a: "guess_prompt v w = (Some guess, w2)
        \<and> guess_body cfg secret guess v w2 = Inr (None, v1, w3)"
  then have pr: "guess_prompt v w = (Some guess, w2)"
    and gb: "guess_body cfg secret guess v w2 = Inr (None, v1, w3)"
    by simp_all
  show "guess_loop cfg secret v w = guess_loop cfg secret v1 w3"
    by (rule guess_loop_goes_on [OF pr gb])
  have "guess \<noteq> 0"
    using gb by (auto simp: guess_body_def)
  with guess_body_attempts(1) [OF gb] show "attempts_l v1 = attempts_l v + 1"
    by simp
next
  assume a: "guess_prompt v w = (Some guess, w2)
        \<and> guess_body cfg secret guess v w2 = Inr (Some oc1, v1, w3)"
  then have pr: "guess_prompt v w = (Some guess, w2)"
    and gb: "guess_body cfg secret guess v w2 = Inr (Some oc1, v1, w3)"
    by simp_all
  show "guess_loop cfg secret v w = (Inr (oc1, v1), w3)"
    by (rule guess_loop_ends [OF pr gb])
  show "attempts_l v1 = (if guess = 0 then attempts_l v else attempts_l v + 1)"
    by (rule guess_body_attempts(1) [OF gb])
next
  assume ar: "after_rounds cfg secret gs v w = Some (vn, wn)"
  show "guess_loop cfg secret v w = guess_loop cfg secret vn wn"
    by (rule after_rounds_loop [OF ar])
  show "attempts_l vn = attempts_l v + int (length gs)"
    using after_rounds_attempts [OF ar] by simp
next
  assume a: "after_rounds cfg secret gs v w = Some (vn, wn) \<and> guess_prompt vn wn = (Some guess, w4)
        \<and> guess_body cfg secret guess vn w4 = Inr (Some oc1, ve, we)"
  then have ar: "after_rounds cfg secret gs v w = Some (vn, wn)"
    and pr: "guess_prompt vn wn = (Some guess, w4)"
    and gb: "guess_body cfg secret guess vn w4 = Inr (Some oc1, ve, we)"
    by simp_all
  from guess_loop_ends [OF pr gb] after_rounds_loop [OF ar]
  show "guess_loop cfg secret v w = (Inr (oc1, ve), we)"
    by simp
  from guess_body_attempts(1) [OF gb] after_rounds_attempts [OF ar]
  show "attempts_l ve = attempts_l v + int (length gs) + (if guess = 0 then 0 else 1)"
    by simp
  {
    assume "guess = 0"
    with gb show "oc1 = GaveUp"
      by (simp add: guess_body_zero)
  }
  {
    assume "guess = 0"
    with gb show "stdout we = stdout w4 @ [gave_up_stmt secret]"
      by (auto simp: guess_body_zero cout_def)
  }
next
  assume "(\<forall>x\<in>set gs. in_int x \<and> x \<noteq> 0 \<and> x \<noteq> secret)
        \<and> (maxAttempts cfg \<le> 0 \<or> attempts_l v + int (length gs) < maxAttempts cfg)
        \<and> attempts_l v + int (length gs) \<le> INT_MAX
        \<and> stdin w = map to_string gs @ to_string 0 # rest"
  then show "\<exists>vf wf. guess_loop cfg secret v w = (Inr (GaveUp, vf), wf)
           \<and> attempts_l vf = attempts_l v + int (length gs)
           \<and> stdin wf = rest \<and> last (stdout wf) = gave_up_stmt secret"
    by (intro session_gave_up) simp_all
next
  assume "(\<forall>x\<in>set gs. in_int x \<and> x \<noteq> 0 \<and> x \<noteq> secret)
        \<and> (maxAttempts cfg \<le> 0 \<or> attempts_l v + int (length gs) < maxAttempts cfg)
        \<and> attempts_l v + int (length gs) < INT_MAX
        \<and> in_int secret \<and> secret \<noteq> 0
        \<and> stdin w = map to_string gs @ to_string secret # rest"
  then show "\<exists>vf wf. guess_loop cfg secret v w = (Inr (Correct, vf), wf)
           \<and> attempts_l vf = attempts_l v + int (length gs) + 1 \<and> stdin wf = rest"
    by (intro session_correct) simp_all
next
  assume a: "(\<forall>x\<in>set gs. in_int x \<and> x \<noteq> 0 \<and> x \<noteq> secret)
        \<and> (maxAttempts cfg \<le> 0 \<or> int (length gs) < maxAttempts cfg)
        \<and> int (length gs) \<le> INT_MAX
        \<and> stdin w = map to_string gs @ to_string 0 # rest
        \<and> play_game cfg secret elapsed now w = (Inr res, wp)"
  then have pg: "play_game cfg secret elapsed now w = (Inr res, wp)"
    by simp
  from a have "\<exists>vf wf. guess_loop cfg secret (start_locals cfg) (game_intro cfg w) =
        (Inr (GaveUp, vf), wf)
      \<and> attempts_l vf = attempts_l (start_locals cfg) + int (length gs)
      \<and> stdin wf = rest \<and> last (stdout wf) = gave_up_stmt secret"
    by (intro session_gave_up) (simp_all add: start_locals_def game_intro_stdin)
  then obtain vf wf where
    gl: "guess_loop cfg secret (start_locals cfg) (game_intro cfg w) = (Inr (GaveUp, vf), wf)"
    and at: "attempts_l vf = int (length gs)"
    by (auto simp: start_locals_def)
  from pg gl have "finish_game cfg secret elapsed now vf wf = (Inr res, wp)"
    by (simp add: play_game_unfold)
  from finish_game_attempts [OF this] at show "attempts res = int (length gs)"
    by simp
next
  assume a: "(\<forall>x\<in>set gs. in_int x \<and> x \<noteq> 0 \<and> x \<noteq> secret)
        \<and> (maxAttempts cfg \<le> 0 \<or> int (length gs) < maxAttempts cfg)
        \<and> int (length gs) \<le> INT_MAX
        \<and> stdin w = map to_string gs @ to_string 0 # rest
        \<and> score_defined (max 1 (int (length gs))) cfg"
  then have "\<exists>vf wf. guess_loop cfg secret (start_locals cfg) (game_intro cfg w) =
        (Inr (GaveUp, vf), wf)
      \<and> attempts_l vf = attempts_l (start_locals cfg) + int (length gs)
      \<and> stdin wf = rest \<and> last (stdout wf) = gave_up_stmt secret"
    by (intro session_gave_up) (simp_all add: start_locals_def game_intro_stdin)
  then obtain ve we where
    gl: "guess_loop cfg secret (start_locals cfg) (game_intro cfg w) = (Inr (GaveUp, ve), we)"
    and at: "attempts_l ve = int (length gs)"
    by (auto simp: start_locals_def)
  from a at have "score_defined (max 1 (attempts_l ve)) cfg"
    by simp
  from play_game_ends [OF gl this, of elapsed now] at
  show "\<exists>r p. play_game cfg secret elapsed now w = (Inr r, p) \<and> attempts r = int (length gs)"
    by auto
qed

lemma guess_prompt_zero:
  "guess_prompt \<lparr>attempts_l = 2, lowHint = 1, highHint = 20\<rparr> (console [''0'']) =
     (Some 0, \<lparr>stdin = [], stdout = [range_stmt 1 20, [Str ''Enter guess (or 0 to give up): '']],
               stderr = [], leaderboard_csv = None, csv_writable = True\<rparr>)"
  unfolding guess_prompt_def console_def by code_simp

lemma three_guesses_first:
  "fst (guess_prompt \<lparr>attempts_l = 0, lowHint = 1, highHint = 20\<rparr> (console [''5'', ''8'', ''0'']))
     = Some 5"
  unfolding guess_prompt_def console_def by code_simp

lemma three_guesses_rounds:
  "map_option fst (after_rounds easy 7 [5, 8] \<lparr>attempts_l = 0, lowHint = 1, highHint = 20\<rparr>
     (console [''5'', ''8'', ''0''])) = Some \<lparr>attempts_l = 2, lowHint = 6, highHint = 7\<rparr>"
  by code_simp

lemma three_guesses_end:
  "fst (guess_loop easy 7 \<lparr>attempts_l = 0, lowHint = 1, highHint = 20\<rparr>
     (console [''5'', ''8'', ''0''])) = Inr (GaveUp, \<lparr>attempts_l = 2, lowHint = 6, highHint = 7\<rparr>)"
  by code_simp

lemma three_guesses_session:
  "fst (guess_loop easy 7 (start_locals easy) (game_intro easy (console [''5'', ''8'', ''0'', ''Ann''])))
     = Inr (GaveUp, \<lparr>attempts_l = 2, lowHint = 6, highHint = 7\<rparr>)"
  by code_simp

lemma easy_two_attempts:
  "score_defined (max 1 (attempts_l \<lparr>attempts_l = 2, lowHint = 6, highHint = 7\<rparr>)) easy"
  by (simp add: score_defined_def easy_def in_int_def INT_MIN_def INT_MAX_def)

theorem give_up_keeps_counter_witness:
  "guess_body easy 7 0 \<lparr>attempts_l = 2, lowHint = 1, highHint = 20\<rparr> (console [''0''])
     = Inr (Some GaveUp, \<lparr>attempts_l = 2, lowHint = 1, highHint = 20\<rparr>,
            cout (gave_up_stmt 7) (console [''0'']))
   \<and> guess_loop easy 7 \<lparr>attempts_l = 2, lowHint = 1, highHint = 20\<rparr> (console [''0''])
     = (Inr (GaveUp, \<lparr>attempts_l = 2, lowHint = 1, highHint = 20\<rparr>),
        cout (gave_up_stmt 7)
          \<lparr>stdin = [], stdout = [range_stmt 1 20, [Str ''Enter guess (or 0 to give up): '']],
            stderr = [], leaderboard_csv = None, csv_writable = True\<rparr>)
   \<and> (\<exists>oc v' w'. guess_body easy 7 5 \<lparr>attempts_l = 2, lowHint = 1, highHint = 20\<rparr> (console [''0''])
          = Inr (oc, v', w') \<and> attempts_l v' = 2 + 1)
   \<and> guess_loop easy 7 \<lparr>attempts_l = 0, lowHint = 1, highHint = 20\<rparr> (console [''5'', ''8'', ''0''])
     = guess_loop easy 7 \<lparr>attempts_l = 1, lowHint = 6, highHint = 20\<rparr>
         (cout [Str (''Too low.'' @ [NL])]
            (snd (guess_prompt \<lparr>attempts_l = 0, lowHint = 1, highHint = 20\<rparr>
                    (console [''5'', ''8'', ''0'']))))
   \<and> guess_loop easy 7 \<lparr>attempts_l = 0, lowHint = 1, highHint = 20\<rparr> (console [''5'', ''8'', ''0''])
     = guess_loop easy 7 \<lparr>attempts_l = 2, lowHint = 6, highHint = 7\<rparr>
         (snd (the (after_rounds easy 7 [5, 8] \<lparr>attempts_l = 0, lowHint = 1, highHint = 20\<rparr>
                      (console [''5'', ''8'', ''0'']))))
   \<and> (\<exists>ve we. guess_loop easy 7 \<lparr>attempts_l = 0, lowHint = 1, highHint = 20\<rparr>
                  (console [''5'', ''8'', ''0'']) = (Inr (GaveUp, ve), we)
        \<and> attempts_l ve = 2 \<and> stdin we = [] \<and> last (stdout we) = gave_up_stmt 7)
   \<and> fst (guess_loop easy 7 \<lparr>attempts_l = 0, lowHint = 1, highHint = 20\<rparr>
            (console [''5'', ''8'', ''0''])) = Inr (GaveUp, \<lparr>attempts_l = 2, lowHint = 6, highHint = 7\<rparr>)
   \<and> (\<exists>ve we. guess_loop easy 7 \<lparr>attempts_l = 0, lowHint = 1, highHint = 20\<rparr>
                  (console [''5'', ''8'', ''7'']) = (Inr (Correct, ve), we)
        \<and> attempts_l ve = 3 \<and> stdin we = [])
   \<and> attempts (game_result easy 7 3 ''t'' \<lparr>attempts_l = 2, lowHint = 6, highHint = 7\<rparr>
        (snd (guess_loop easy 7 (start_locals easy)
                (game_intro easy (console [''5'', ''8'', ''0'', ''Ann'']))))) = 2
   \<and> (\<exists>r p. play_game easy 7 3 ''t'' (console [''5'', ''8'', ''0'', ''Ann'']) = (Inr r, p)
          \<and> attempts r = 2)"
proof -
  let ?v0 = "\<lparr>attempts_l = 0, lowHint = 1, highHint = 20\<rparr>"
  let ?w0 = "console [''5'', ''8'', ''0'']"
  let ?w2 = "snd (guess_prompt ?v0 ?w0)"
  let ?wn = "snd (the (after_rounds easy 7 [5, 8] ?v0 ?w0))"
  let ?ws = "console [''5'', ''8'', ''0'', ''Ann'']"
  have pr: "guess_prompt ?v0 ?w0 = (Some 5, ?w2)"
    by (rule pair_fst [OF three_guesses_first])
  have gb: "guess_body easy 7 5 ?v0 ?w2 =
      Inr (None, \<lparr>attempts_l = 1, lowHint = 6, highHint = 20\<rparr>, cout [Str (''Too low.'' @ [NL])] ?w2)"
    by (simp add: guess_body_def easy_def INT_MAX_def)
  have ar: "after_rounds easy 7 [5, 8] ?v0 ?w0 =
      Some (\<lparr>attempts_l = 2, lowHint = 6, highHint = 7\<rparr>, ?wn)"
    by (rule option_pair [OF three_guesses_rounds])
  have pg: "play_game easy 7 3 ''t'' ?ws =
      (Inr (game_result easy 7 3 ''t'' \<lparr>attempts_l = 2, lowHint = 6, highHint = 7\<rparr>
              (snd (guess_loop easy 7 (start_locals easy) (game_intro easy ?ws)))),
       snd (play_game easy 7 3 ''t'' ?ws))"
    by (rule play_game_result [OF three_guesses_session easy_two_attempts])
  note one = give_up_keeps_counter [where cfg = easy and secret = 7
      and v = "\<lparr>attempts_l = 2, lowHint = 1, highHint = 20\<rparr>" and w = "console [''0'']"
      and guess = 5 and gs = "[]" and
      ?w2.0 = "\<lparr>stdin = [], stdout = [range_stmt 1 20, [Str ''Enter guess (or 0 to give up): '']],
            stderr = [], leaderboard_csv = None, csv_writable = True\<rparr>"]
  note round = give_up_keeps_counter [where cfg = easy and secret = 7 and v = ?v0 and w = ?w0
      and guess = 5 and ?w2.0 = ?w2 and ?v1.0 = "\<lparr>attempts_l = 1, lowHint = 6, highHint = 20\<rparr>"
      and ?w3.0 = "cout [Str (''Too low.'' @ [NL])] ?w2"
      and gs = "[5, 8]" and vn = "\<lparr>attempts_l = 2, lowHint = 6, highHint = 7\<rparr>" and wn = ?wn
      and rest = "[]"]
  note correct = give_up_keeps_counter [where cfg = easy and secret = 7 and v = ?v0
      and w = "console [''5'', ''8'', ''7'']" and gs = "[5, 8]" and rest = "[]"]
  note session = give_up_keeps_counter [where cfg = easy and secret = 7 and w = ?ws
      and gs = "[5, 8]" and rest = "[''Ann'']" and elapsed = 3 and now = "''t''"
      and res = "game_result easy 7 3 ''t'' \<lparr>attempts_l = 2, lowHint = 6, highHint = 7\<rparr>
              (snd (guess_loop easy 7 (start_locals easy) (game_intro easy ?ws)))"
      and wp = "snd (play_game easy 7 3 ''t'' ?ws)"]
  have lines: "stdin ?w0 = map to_string [5, 8] @ to_string 0 # []"
    "stdin (console [''5'', ''8'', ''7'']) = map to_string [5, 8] @ to_string 7 # []"
    "stdin ?ws = map to_string [5, 8] @ to_string 0 # [''Ann'']"
    by (simp_all add: console_def typed_numerals)
  have gs: "\<forall>x\<in>set [5, 8]. in_int x \<and> x \<noteq> 0 \<and> x \<noteq> (7::int)" "in_int 7"
    by (simp_all add: in_int_def INT_MIN_def INT_MAX_def)
  have lim: "maxAttempts easy \<le> 0" "int (length [5::int, 8]) < INT_MAX"
    by (simp_all add: easy_def INT_MAX_def)
  from one guess_prompt_zero have c1: "guess_body easy 7 0 \<lparr>attempts_l = 2, lowHint = 1, highHint = 20\<rparr> (console [''0''])
     = Inr (Some GaveUp, \<lparr>attempts_l = 2, lowHint = 1, highHint = 20\<rparr>,
            cout (gave_up_stmt 7) (console [''0'']))
   \<and> guess_loop easy 7 \<lparr>attempts_l = 2, lowHint = 1, highHint = 20\<rparr> (console [''0''])
     = (Inr (GaveUp, \<lparr>attempts_l = 2, lowHint = 1, highHint = 20\<rparr>),
        cout (gave_up_stmt 7)
          \<lparr>stdin = [], stdout = [range_stmt 1 20, [Str ''Enter guess (or 0 to give up): '']],
            stderr = [], leaderboard_csv = None, csv_writable = True\<rparr>)
   \<and> (\<exists>oc v' w'. guess_body easy 7 5 \<lparr>attempts_l = 2, lowHint = 1, highHint = 20\<rparr> (console [''0''])
          = Inr (oc, v', w') \<and> attempts_l v' = 2 + 1)"
    by (simp add: INT_MAX_def)
  from round pr gb have c2: "guess_loop easy 7 ?v0 ?w0
     = guess_loop easy 7 \<lparr>attempts_l = 1, lowHint = 6, highHint = 20\<rparr>
         (cout [Str (''Too low.'' @ [NL])] ?w2)"
    by blast
  from round ar have c3: "guess_loop easy 7 ?v0 ?w0
     = guess_loop easy 7 \<lparr>attempts_l = 2, lowHint = 6, highHint = 7\<rparr> ?wn"
    by blast
  from round gs(1) lim lines(1) have c4: "\<exists>ve we. guess_loop easy 7 ?v0 ?w0 = (Inr (GaveUp, ve), we)
        \<and> attempts_l ve = 2 \<and> stdin we = [] \<and> last (stdout we) = gave_up_stmt 7"
    by simp
  from correct gs lim lines(2) have c5: "\<exists>ve we. guess_loop easy 7 ?v0
                  (console [''5'', ''8'', ''7'']) = (Inr (Correct, ve), we)
        \<and> attempts_l ve = 3 \<and> stdin we = []"
    by simp
  from session gs(1) lim lines(3) pg have c6: "attempts (game_result easy 7 3 ''t''
        \<lparr>attempts_l = 2, lowHint = 6, highHint = 7\<rparr>
        (snd (guess_loop easy 7 (start_locals easy) (game_intro easy ?ws)))) = 2"
    by simp
  have sd: "score_defined (max 1 (int (length [5::int, 8]))) easy"
    by (simp add: score_defined_def easy_def in_int_def INT_MIN_def INT_MAX_def)
  from session gs(1) lim lines(3) sd have c7:
    "\<exists>r p. play_game easy 7 3 ''t'' ?ws = (Inr r, p) \<and> attempts r = 2"
    by simp
  from c1 c2 c3 c4 three_guesses_end c5 c6 c7 show ?thesis
    by blast
qed

section \<open>The limit of attempts over a session\<close>

text \<open>
  C5.  With a limit of attempts, the wrong guess that brings the counter to the limit
  ends the loop in \<open>AttemptsExhausted\<close>, and the last statement of the output shows the
  secret; a loop started below the limit never counts beyond it, and ends in
  \<open>AttemptsExhausted\<close> only with the counter at the limit.  With \<open>maxAttempts = 0\<close> the loop
  never ends in \<open>AttemptsExhausted\<close>.  Over a whole run: when the rounds that read the
  guesses \<open>gs\<close> went on and the next wrong guess is the one that reaches the limit, the
  loop started before \<open>gs\<close> ends in \<open>AttemptsExhausted\<close>; on an input of plain numerals,
  wrong guesses that fill the limit end the loop in \<open>AttemptsExhausted\<close> with the counter
  at the limit, the lines after them are left unread, and the session returns, when its
  score is defined, a \<open>Result\<close> that records \<open>maxAttempts\<close> attempts, while its output
  shows the secret.
\<close>

theorem attempts_exhausted:
  "(0 < maxAttempts cfg \<and> maxAttempts cfg \<le> INT_MAX \<and> attempts_l v + 1 = maxAttempts cfg
      \<and> guess_prompt v w = (Some g, w2) \<and> g \<noteq> 0 \<and> g \<noteq> secret \<longrightarrow>
      (\<exists>vf w3. guess_loop cfg secret v w =
                  (Inr (AttemptsExhausted, vf), cout (exhausted_stmt cfg secret) w3)
         \<and> attempts_l vf = maxAttempts cfg)
      \<and> last (stdout (snd (guess_loop cfg secret v w))) = exhausted_stmt cfg secret
      \<and> stdin (snd (guess_loop cfg secret v w)) = stdin w2)
   \<and> (0 < maxAttempts cfg \<and> attempts_l v < maxAttempts cfg
        \<and> fst (guess_loop cfg secret v w) = Inr (oc, vf) \<longrightarrow>
        attempts_l vf \<le> maxAttempts cfg
        \<and> (oc = AttemptsExhausted \<longrightarrow> attempts_l vf = maxAttempts cfg))
   \<and> (maxAttempts cfg = 0 \<longrightarrow> fst (guess_loop cfg secret v w) \<noteq> Inr (AttemptsExhausted, vf))
   \<and> (0 < maxAttempts cfg \<and> maxAttempts cfg \<le> INT_MAX
        \<and> after_rounds cfg secret gs v w = Some (vn, wn)
        \<and> attempts_l v + int (length gs) + 1 = maxAttempts cfg
        \<and> guess_prompt vn wn = (Some g, w2) \<and> g \<noteq> 0 \<and> g \<noteq> secret \<longrightarrow>
        (\<exists>ve. fst (guess_loop cfg secret v w) = Inr (AttemptsExhausted, ve)
           \<and> attempts_l ve = maxAttempts cfg)
        \<and> last (stdout (snd (guess_loop cfg secret v w))) = exhausted_stmt cfg secret
        \<and> stdin (snd (guess_loop cfg secret v w)) = stdin w2)
   \<and> (0 < maxAttempts cfg \<and> maxAttempts cfg \<le> INT_MAX \<and> gs \<noteq> []
        \<and> attempts_l v + int (length gs) = maxAttempts cfg
        \<and> (\<forall>x\<in>set gs. in_int x \<and> x \<noteq> 0 \<and> x \<noteq> secret)
        \<and> stdin w = map to_string gs @ rest \<longrightarrow>
        (\<exists>ve. fst (guess_loop cfg secret v w) = Inr (AttemptsExhausted, ve)
           \<and> attempts_l ve = maxAttempts cfg)
        \<and> last (stdout (snd (guess_loop cfg secret v w))) = exhausted_stmt cfg secret
        \<and> stdin (snd (guess_loop cfg secret v w)) = rest)
   \<and> (0 < maxAttempts cfg \<and> maxAttempts cfg \<le> INT_MAX
        \<and> int (length gs) = maxAttempts cfg
        \<and> (\<forall>x\<in>set gs. in_int x \<and> x \<noteq> 0 \<and> x \<noteq> secret)
        \<and> stdin w = map to_string gs @ rest
        \<and> play_game cfg secret elapsed now w = (Inr res, wp) \<longrightarrow>
        attempts res = maxAttempts cfg \<and> exhausted_stmt cfg secret \<in> set (printed w wp))
   \<and> (0 < maxAttempts cfg \<and> maxAttempts cfg \<le> INT_MAX
        \<and> int (length gs) = maxAttempts cfg
        \<and> (\<forall>x\<in>set gs. in_int x \<and> x \<noteq> 0 \<and> x \<noteq> secret)
        \<and> stdin w = map to_string gs @ rest
        \<and> score_defined (maxAttempts cfg) cfg \<longrightarrow>
        (\<exists>r p. play_game cfg secret elapsed now w = (Inr r, p)
           \<and> attempts r = maxAttempts cfg \<and> exhausted_stmt cfg secret \<in> set (printed w p)))"
proof (intro conjI)
  show "0 < maxAttempts cfg \<and> maxAttempts cfg \<le> INT_MAX \<and> attempts_l v + 1 = maxAttempts cfg
      \<and> guess_prompt v w = (Some g, w2) \<and> g \<noteq> 0 \<and> g \<noteq> secret \<longrightarrow>
      (\<exists>vf w3. guess_loop cfg secret v w =
                  (Inr (AttemptsExhausted, vf), cout (exhausted_stmt cfg secret) w3)
         \<and> attempts_l vf = maxAttempts cfg)
      \<and> last (stdout (snd (guess_loop cfg secret v w))) = exhausted_stmt cfg secret
      \<and> stdin (snd (guess_loop cfg secret v w)) = stdin w2"
  proof
    assume a: "0 < maxAttempts cfg \<and> maxAttempts cfg \<le> INT_MAX \<and> attempts_l v + 1 = maxAttempts cfg
      \<and> guess_prompt v w = (Some g, w2) \<and> g \<noteq> 0 \<and> g \<noteq> secret"
    then obtain vf w3 where
      gl: "guess_loop cfg secret v w =
             (Inr (AttemptsExhausted, vf), cout (exhausted_stmt cfg secret) w3)"
      and at: "attempts_l vf = maxAttempts cfg" and st: "stdin w3 = stdin w2"
      using exhausted_round [of cfg v w g w2 secret] by blast
    from gl st have "last (stdout (snd (guess_loop cfg secret v w))) = exhausted_stmt cfg secret"
      "stdin (snd (guess_loop cfg secret v w)) = stdin w2"
      by (simp_all add: cout_def)
    with gl at show "(\<exists>vf w3. guess_loop cfg secret v w =
                  (Inr (AttemptsExhausted, vf), cout (exhausted_stmt cfg secret) w3)
         \<and> attempts_l vf = maxAttempts cfg)
      \<and> last (stdout (snd (guess_loop cfg secret v w))) = exhausted_stmt cfg secret
      \<and> stdin (snd (guess_loop cfg secret v w)) = stdin w2"
      by blast
  qed
next
  show "0 < maxAttempts cfg \<and> attempts_l v < maxAttempts cfg
        \<and> fst (guess_loop cfg secret v w) = Inr (oc, vf) \<longrightarrow>
        attempts_l vf \<le> maxAttempts cfg
        \<and> (oc = AttemptsExhausted \<longrightarrow> attempts_l vf = maxAttempts cfg)"
  proof
    assume a: "0 < maxAttempts cfg \<and> attempts_l v < maxAttempts cfg
        \<and> fst (guess_loop cfg secret v w) = Inr (oc, vf)"
    with guess_loop_within_limit [of cfg v secret w]
    have "within_limit cfg (Inr (oc, vf))"
      by simp
    then show "attempts_l vf \<le> maxAttempts cfg
        \<and> (oc = AttemptsExhausted \<longrightarrow> attempts_l vf = maxAttempts cfg)"
      by (simp add: within_limit_def)
  qed
next
  show "maxAttempts cfg = 0 \<longrightarrow> fst (guess_loop cfg secret v w) \<noteq> Inr (AttemptsExhausted, vf)"
    using guess_loop_unlimited [of cfg secret v w] by blast
next
  show "0 < maxAttempts cfg \<and> maxAttempts cfg \<le> INT_MAX
        \<and> after_rounds cfg secret gs v w = Some (vn, wn)
        \<and> attempts_l v + int (length gs) + 1 = maxAttempts cfg
        \<and> guess_prompt vn wn = (Some g, w2) \<and> g \<noteq> 0 \<and> g \<noteq> secret \<longrightarrow>
        (\<exists>ve. fst (guess_loop cfg secret v w) = Inr (AttemptsExhausted, ve)
           \<and> attempts_l ve = maxAttempts cfg)
        \<and> last (stdout (snd (guess_loop cfg secret v w))) = exhausted_stmt cfg secret
        \<and> stdin (snd (guess_loop cfg secret v w)) = stdin w2"
  proof
    assume a: "0 < maxAttempts cfg \<and> maxAttempts cfg \<le> INT_MAX
        \<and> after_rounds cfg secret gs v w = Some (vn, wn)
        \<and> attempts_l v + int (length gs) + 1 = maxAttempts cfg
        \<and> guess_prompt vn wn = (Some g, w2) \<and> g \<noteq> 0 \<and> g \<noteq> secret"
    then have ar: "after_rounds cfg secret gs v w = Some (vn, wn)"
      by simp
    from a after_rounds_attempts [OF ar] have "attempts_l vn + 1 = maxAttempts cfg"
      by simp
    with a obtain ve w3 where
      "guess_loop cfg secret vn wn =
         (Inr (AttemptsExhausted, ve), cout (exhausted_stmt cfg secret) w3)"
      and at: "attempts_l ve = maxAttempts cfg" and st: "stdin w3 = stdin w2"
      using exhausted_round [of cfg vn wn g w2 secret] by blast
    with after_rounds_loop [OF ar] have gl: "guess_loop cfg secret v w =
         (Inr (AttemptsExhausted, ve), cout (exhausted_stmt cfg secret) w3)"
      by simp
    from gl st have "last (stdout (snd (guess_loop cfg secret v w))) = exhausted_stmt cfg secret"
      "stdin (snd (guess_loop cfg secret v w)) = stdin w2"
      by (simp_all add: cout_def)
    moreover from gl have "fst (guess_loop cfg secret v w) = Inr (AttemptsExhausted, ve)"
      by simp
    ultimately show "(\<exists>ve. fst (guess_loop cfg secret v w) = Inr (AttemptsExhausted, ve)
           \<and> attempts_l ve = maxAttempts cfg)
        \<and> last (stdout (snd (guess_loop cfg secret v w))) = exhausted_stmt cfg secret
        \<and> stdin (snd (guess_loop cfg secret v w)) = stdin w2"
      using at by blast
  qed
next
  show "0 < maxAttempts cfg \<and> maxAttempts cfg \<le> INT_MAX \<and> gs \<noteq> []
        \<and> attempts_l v + int (length gs) = maxAttempts cfg
        \<and> (\<forall>x\<in>set gs. in_int x \<and> x \<noteq> 0 \<and> x \<noteq> secret)
        \<and> stdin w = map to_string gs @ rest \<longrightarrow>
        (\<exists>ve. fst (guess_loop cfg secret v w) = Inr (AttemptsExhausted, ve)
           \<and> attempts_l ve = maxAttempts cfg)
        \<and> last (stdout (snd (guess_loop cfg secret v w))) = exhausted_stmt cfg secret
        \<and> stdin (snd (guess_loop cfg secret v w)) = rest"
  proof
    assume a: "0 < maxAttempts cfg \<and> maxAttempts cfg \<le> INT_MAX \<and> gs \<noteq> []
        \<and> attempts_l v + int (length gs) = maxAttempts cfg
        \<and> (\<forall>x\<in>set gs. in_int x \<and> x \<noteq> 0 \<and> x \<noteq> secret)
        \<and> stdin w = map to_string gs @ rest"
    then have "\<exists>ve we. guess_loop cfg secret v w = (Inr (AttemptsExhausted, ve), we)
           \<and> attempts_l ve = maxAttempts cfg
           \<and> stdin we = rest \<and> last (stdout we) = exhausted_stmt cfg secret"
      by (intro session_exhausted) simp_all
    then obtain ve we where "guess_loop cfg secret v w = (Inr (AttemptsExhausted, ve), we)"
      and "attempts_l ve = maxAttempts cfg" and "stdin we = rest"
      and "last (stdout we) = exhausted_stmt cfg secret"
      by blast
    then show "(\<exists>ve. fst (guess_loop cfg secret v w) = Inr (AttemptsExhausted, ve)
           \<and> attempts_l ve = maxAttempts cfg)
        \<and> last (stdout (snd (guess_loop cfg secret v w))) = exhausted_stmt cfg secret
        \<and> stdin (snd (guess_loop cfg secret v w)) = rest"
      by simp
  qed
next
  show "0 < maxAttempts cfg \<and> maxAttempts cfg \<le> INT_MAX
        \<and> int (length gs) = maxAttempts cfg
        \<and> (\<forall>x\<in>set gs. in_int x \<and> x \<noteq> 0 \<and> x \<noteq> secret)
        \<and> stdin w = map to_string gs @ rest
        \<and> play_game cfg secret elapsed now w = (Inr res, wp) \<longrightarrow>
        attempts res = maxAttempts cfg \<and> exhausted_stmt cfg secret \<in> set (printed w wp)"
  proof
    assume a: "0 < maxAttempts cfg \<and> maxAttempts cfg \<le> INT_MAX
        \<and> int (length gs) = maxAttempts cfg
        \<and> (\<forall>x\<in>set gs. in_int x \<and> x \<noteq> 0 \<and> x \<noteq> secret)
        \<and> stdin w = map to_string gs @ rest
        \<and> play_game cfg secret elapsed now w = (Inr res, wp)"
    then have pg: "play_game cfg secret elapsed now w = (Inr res, wp)"
      by simp
    from a have "0 < int (length gs)"
      by linarith
    then have ne: "gs \<noteq> []"
      by auto
    from a have "\<exists>ve we. guess_loop cfg secret (start_locals cfg) (game_intro cfg w) =
          (Inr (AttemptsExhausted, ve), we)
        \<and> attempts_l ve = maxAttempts cfg
        \<and> stdin we = rest \<and> last (stdout we) = exhausted_stmt cfg secret"
      by (intro session_exhausted) (simp_all add: ne start_locals_def game_intro_stdin)
    then obtain ve we where
      gl: "guess_loop cfg secret (start_locals cfg) (game_intro cfg w) =
             (Inr (AttemptsExhausted, ve), we)"
      and at: "attempts_l ve = maxAttempts cfg"
      and la: "last (stdout we) = exhausted_stmt cfg secret"
      by blast
    from pg gl have fg: "finish_game cfg secret elapsed now ve we = (Inr res, wp)"
      by (simp add: play_game_unfold)
    from game_intro_stdout obtain n0 where n0: "stdout (game_intro cfg w) = stdout w @ n0"
      by blast
    from guess_loop_prints [of cfg secret "start_locals cfg" "game_intro cfg w"] gl
    obtain n1 where n1: "stdout we = stdout (game_intro cfg w) @ n1" and "n1 \<noteq> []"
      by auto
    with la have "exhausted_stmt cfg secret \<in> set n1"
      by (metis last_appendR last_in_set)
    moreover from finish_game_stdout [of cfg secret elapsed now ve we] fg n0 n1
    have "\<exists>n2. printed w wp = n0 @ n1 @ n2"
      by (simp add: printed_def)
    ultimately have "exhausted_stmt cfg secret \<in> set (printed w wp)"
      by auto
    with finish_game_attempts [OF fg] at
    show "attempts res = maxAttempts cfg \<and> exhausted_stmt cfg secret \<in> set (printed w wp)"
      by simp
  qed
next
  show "0 < maxAttempts cfg \<and> maxAttempts cfg \<le> INT_MAX
        \<and> int (length gs) = maxAttempts cfg
        \<and> (\<forall>x\<in>set gs. in_int x \<and> x \<noteq> 0 \<and> x \<noteq> secret)
        \<and> stdin w = map to_string gs @ rest
        \<and> score_defined (maxAttempts cfg) cfg \<longrightarrow>
        (\<exists>r p. play_game cfg secret elapsed now w = (Inr r, p)
           \<and> attempts r = maxAttempts cfg \<and> exhausted_stmt cfg secret \<in> set (printed w p))"
  proof
    assume a: "0 < maxAttempts cfg \<and> maxAttempts cfg \<le> INT_MAX
        \<and> int (length gs) = maxAttempts cfg
        \<and> (\<forall>x\<in>set gs. in_int x \<and> x \<noteq> 0 \<and> x \<noteq> secret)
        \<and> stdin w = map to_string gs @ rest
        \<and> score_defined (maxAttempts cfg) cfg"
    from a have "0 < int (length gs)"
      by linarith
    then have ne: "gs \<noteq> []"
      by auto
    from a have "\<exists>ve we. guess_loop cfg secret (start_locals cfg) (game_intro cfg w) =
          (Inr (AttemptsExhausted, ve), we)
        \<and> attempts_l ve = maxAttempts cfg
        \<and> stdin we = rest \<and> last (stdout we) = exhausted_stmt cfg secret"
      by (intro session_exhausted) (simp_all add: ne start_locals_def game_intro_stdin)
    then obtain ve we where
      gl: "guess_loop cfg secret (start_locals cfg) (game_intro cfg w) =
             (Inr (AttemptsExhausted, ve), we)"
      and at: "attempts_l ve = maxAttempts cfg"
      and la: "last (stdout we) = exhausted_stmt cfg secret"
      by blast
    from a at have "score_defined (max 1 (attempts_l ve)) cfg"
      by simp
    from play_game_ends [OF gl this, of elapsed now] obtain r p n2 where
      pg: "play_game cfg secret elapsed now w = (Inr r, p)" and ar: "attempts r = attempts_l ve"
      and n2: "stdout p = stdout we @ n2"
      by blast
    from game_intro_stdout obtain n0 where n0: "stdout (game_intro cfg w) = stdout w @ n0"
      by blast
    from guess_loop_prints [of cfg secret "start_locals cfg" "game_intro cfg w"] gl
    obtain n1 where n1: "stdout we = stdout (game_intro cfg w) @ n1" and "n1 \<noteq> []"
      by auto
    with la have "exhausted_stmt cfg secret \<in> set n1"
      by (metis last_appendR last_in_set)
    moreover from n0 n1 n2 have "printed w p = n0 @ n1 @ n2"
      by (simp add: printed_def)
    ultimately have "exhausted_stmt cfg secret \<in> set (printed w p)"
      by simp
    with pg ar at
    show "\<exists>r p. play_game cfg secret elapsed now w = (Inr r, p)
           \<and> attempts r = maxAttempts cfg \<and> exhausted_stmt cfg secret \<in> set (printed w p)"
      by auto
  qed
qed

lemma guess_prompt_last_attempt:
  "guess_prompt \<lparr>attempts_l = 9, lowHint = 1, highHint = 100\<rparr> (console [''50'']) =
     (Some 50, \<lparr>stdin = [], stdout = [range_stmt 1 100, [Str ''Enter guess (or 0 to give up): '']],
                stderr = [], leaderboard_csv = None, csv_writable = True\<rparr>)"
  unfolding guess_prompt_def console_def by code_simp

lemma guess_loop_last_attempt:
  "fst (guess_loop medium 7 \<lparr>attempts_l = 9, lowHint = 1, highHint = 100\<rparr> (console [''50''])) =
     Inr (AttemptsExhausted, \<lparr>attempts_l = 10, lowHint = 1, highHint = 49\<rparr>)"
  unfolding medium_def console_def by code_simp

lemma twelve_guesses_nine:
  "map_option fst (after_rounds medium 50 [10, 20, 30, 40, 60, 70, 80, 90, 45]
     \<lparr>attempts_l = 0, lowHint = 1, highHint = 100\<rparr>
     (console [''10'', ''20'', ''30'', ''40'', ''60'', ''70'', ''80'', ''90'', ''45'', ''55'',
               ''11'', ''12''])) = Some \<lparr>attempts_l = 9, lowHint = 46, highHint = 59\<rparr>"
  by code_simp

lemma twelve_guesses_tenth:
  "fst (guess_prompt \<lparr>attempts_l = 9, lowHint = 46, highHint = 59\<rparr>
     (snd (the (after_rounds medium 50 [10, 20, 30, 40, 60, 70, 80, 90, 45]
        \<lparr>attempts_l = 0, lowHint = 1, highHint = 100\<rparr>
        (console [''10'', ''20'', ''30'', ''40'', ''60'', ''70'', ''80'', ''90'', ''45'', ''55'',
                  ''11'', ''12'']))))) = Some 55"
  by code_simp

lemma twelve_guesses_end:
  "fst (guess_loop medium 50 \<lparr>attempts_l = 0, lowHint = 1, highHint = 100\<rparr>
     (console [''10'', ''20'', ''30'', ''40'', ''60'', ''70'', ''80'', ''90'', ''45'', ''55'',
               ''11'', ''12''])) =
     Inr (AttemptsExhausted, \<lparr>attempts_l = 10, lowHint = 46, highHint = 54\<rparr>)"
  by code_simp

lemma ten_guesses_session:
  "fst (guess_loop medium 50 (start_locals medium)
     (game_intro medium
        (console [''10'', ''20'', ''30'', ''40'', ''60'', ''70'', ''80'', ''90'', ''45'', ''55'',
                  ''Ann'']))) =
     Inr (AttemptsExhausted, \<lparr>attempts_l = 10, lowHint = 46, highHint = 54\<rparr>)"
  by code_simp

lemma medium_ten_attempts:
  "score_defined (max 1 (attempts_l \<lparr>attempts_l = 10, lowHint = 46, highHint = 54\<rparr>)) medium"
  by (simp add: score_defined_def medium_def in_int_def INT_MIN_def INT_MAX_def)

theorem attempts_exhausted_witness:
  "(\<exists>vf w3. guess_loop medium 7 \<lparr>attempts_l = 9, lowHint = 1, highHint = 100\<rparr> (console [''50'']) =
               (Inr (AttemptsExhausted, vf), cout (exhausted_stmt medium 7) w3)
      \<and> attempts_l vf = maxAttempts medium)
   \<and> last (stdout (snd (guess_loop medium 7 \<lparr>attempts_l = 9, lowHint = 1, highHint = 100\<rparr>
                          (console [''50''])))) = exhausted_stmt medium 7
   \<and> fst (guess_loop medium 7 \<lparr>attempts_l = 9, lowHint = 1, highHint = 100\<rparr> (console [''50'']))
       = Inr (AttemptsExhausted, \<lparr>attempts_l = 10, lowHint = 1, highHint = 49\<rparr>)
   \<and> attempts_l \<lparr>attempts_l = 10, lowHint = 1, highHint = 49\<rparr> = maxAttempts medium
   \<and> maxAttempts easy = 0
   \<and> fst (guess_loop easy 7 \<lparr>attempts_l = 0, lowHint = 1, highHint = 20\<rparr> (console [''50'']))
       \<noteq> Inr (AttemptsExhausted, \<lparr>attempts_l = 1, lowHint = 1, highHint = 20\<rparr>)
   \<and> (\<exists>ve. fst (guess_loop medium 50 \<lparr>attempts_l = 0, lowHint = 1, highHint = 100\<rparr>
                  (console [''10'', ''20'', ''30'', ''40'', ''60'', ''70'', ''80'', ''90'', ''45'',
                            ''55'', ''11'', ''12''])) = Inr (AttemptsExhausted, ve)
          \<and> attempts_l ve = 10)
   \<and> last (stdout (snd (guess_loop medium 50 \<lparr>attempts_l = 0, lowHint = 1, highHint = 100\<rparr>
                  (console [''10'', ''20'', ''30'', ''40'', ''60'', ''70'', ''80'', ''90'', ''45'',
                            ''55'', ''11'', ''12''])))) = exhausted_stmt medium 50
   \<and> stdin (snd (guess_loop medium 50 \<lparr>attempts_l = 0, lowHint = 1, highHint = 100\<rparr>
                  (console [''10'', ''20'', ''30'', ''40'', ''60'', ''70'', ''80'', ''90'', ''45'',
                            ''55'', ''11'', ''12'']))) = [''11'', ''12'']
   \<and> fst (guess_loop medium 50 \<lparr>attempts_l = 0, lowHint = 1, highHint = 100\<rparr>
            (console [''10'', ''20'', ''30'', ''40'', ''60'', ''70'', ''80'', ''90'', ''45'',
                      ''55'', ''11'', ''12''])) =
       Inr (AttemptsExhausted, \<lparr>attempts_l = 10, lowHint = 46, highHint = 54\<rparr>)
   \<and> attempts (game_result medium 50 3 ''t'' \<lparr>attempts_l = 10, lowHint = 46, highHint = 54\<rparr>
        (snd (guess_loop medium 50 (start_locals medium)
                (game_intro medium
                   (console [''10'', ''20'', ''30'', ''40'', ''60'', ''70'', ''80'', ''90'', ''45'',
                             ''55'', ''Ann'']))))) = 10
   \<and> exhausted_stmt medium 50 \<in> set (printed
        (console [''10'', ''20'', ''30'', ''40'', ''60'', ''70'', ''80'', ''90'', ''45'', ''55'',
                  ''Ann''])
        (snd (play_game medium 50 3 ''t''
                (console [''10'', ''20'', ''30'', ''40'', ''60'', ''70'', ''80'', ''90'', ''45'',
                          ''55'', ''Ann'']))))
   \<and> (\<exists>r p. play_game medium 50 3 ''t''
                (console [''10'', ''20'', ''30'', ''40'', ''60'', ''70'', ''80'', ''90'', ''45'',
                          ''55'', ''Ann'']) = (Inr r, p)
          \<and> attempts r = 10
          \<and> exhausted_stmt medium 50 \<in> set (printed
               (console [''10'', ''20'', ''30'', ''40'', ''60'', ''70'', ''80'', ''90'', ''45'',
                         ''55'', ''Ann'']) p))"
proof -
  let ?v0 = "\<lparr>attempts_l = 0, lowHint = 1, highHint = 100\<rparr>"
  let ?w0 = "console [''10'', ''20'', ''30'', ''40'', ''60'', ''70'', ''80'', ''90'', ''45'', ''55'',
                      ''11'', ''12'']"
  let ?ws = "console [''10'', ''20'', ''30'', ''40'', ''60'', ''70'', ''80'', ''90'', ''45'', ''55'',
                      ''Ann'']"
  let ?v9 = "\<lparr>attempts_l = 9, lowHint = 46, highHint = 59\<rparr>"
  let ?w9 = "snd (the (after_rounds medium 50 [10, 20, 30, 40, 60, 70, 80, 90, 45] ?v0 ?w0))"
  let ?res = "game_result medium 50 3 ''t'' \<lparr>attempts_l = 10, lowHint = 46, highHint = 54\<rparr>
        (snd (guess_loop medium 50 (start_locals medium) (game_intro medium ?ws)))"
  have ar: "after_rounds medium 50 [10, 20, 30, 40, 60, 70, 80, 90, 45] ?v0 ?w0 = Some (?v9, ?w9)"
    by (rule option_pair [OF twelve_guesses_nine])
  have pr: "guess_prompt ?v9 ?w9 = (Some 55, snd (guess_prompt ?v9 ?w9))"
    by (rule pair_fst [OF twelve_guesses_tenth])
  have pg: "play_game medium 50 3 ''t'' ?ws = (Inr ?res, snd (play_game medium 50 3 ''t'' ?ws))"
    by (rule play_game_result [OF ten_guesses_session medium_ten_attempts])
  note last_round = attempts_exhausted [where cfg = medium and secret = 7
      and v = "\<lparr>attempts_l = 9, lowHint = 1, highHint = 100\<rparr>" and w = "console [''50'']"
      and g = 50 and
      ?w2.0 = "\<lparr>stdin = [], stdout = [range_stmt 1 100, [Str ''Enter guess (or 0 to give up): '']],
                stderr = [], leaderboard_csv = None, csv_writable = True\<rparr>"
      and oc = AttemptsExhausted and vf = "\<lparr>attempts_l = 10, lowHint = 1, highHint = 49\<rparr>"
      and gs = "[]"]
  note unlimited = attempts_exhausted [where cfg = easy and secret = 7
      and v = "\<lparr>attempts_l = 0, lowHint = 1, highHint = 20\<rparr>" and w = "console [''50'']"
      and vf = "\<lparr>attempts_l = 1, lowHint = 1, highHint = 20\<rparr>"]
  note nine = attempts_exhausted [where cfg = medium and secret = 50 and v = ?v0 and w = ?w0
      and gs = "[10, 20, 30, 40, 60, 70, 80, 90, 45]" and vn = ?v9 and wn = ?w9 and g = 55
      and ?w2.0 = "snd (guess_prompt ?v9 ?w9)"]
  note typed = attempts_exhausted [where cfg = medium and secret = 50 and v = ?v0 and w = ?w0
      and gs = "[10, 20, 30, 40, 60, 70, 80, 90, 45, 55]" and rest = "[''11'', ''12'']"]
  note session = attempts_exhausted [where cfg = medium and secret = 50 and w = ?ws
      and gs = "[10, 20, 30, 40, 60, 70, 80, 90, 45, 55]" and rest = "[''Ann'']"
      and elapsed = 3 and now = "''t''" and res = ?res
      and wp = "snd (play_game medium 50 3 ''t'' ?ws)"]
  have lines: "stdin ?w0 = map to_string [10, 20, 30, 40, 60, 70, 80, 90, 45, 55] @ [''11'', ''12'']"
    "stdin ?ws = map to_string [10, 20, 30, 40, 60, 70, 80, 90, 45, 55] @ [''Ann'']"
    by (simp_all add: console_def typed_numerals)
  have gs: "\<forall>x\<in>set [10, 20, 30, 40, 60, 70, 80, 90, 45, 55]. in_int x \<and> x \<noteq> 0 \<and> x \<noteq> (50::int)"
    by (simp add: in_int_def INT_MIN_def INT_MAX_def)
  have lim: "0 < maxAttempts medium" "maxAttempts medium \<le> INT_MAX"
    "int (length [10::int, 20, 30, 40, 60, 70, 80, 90, 45, 55]) = maxAttempts medium"
    "int (length [10::int, 20, 30, 40, 60, 70, 80, 90, 45]) + 1 = maxAttempts medium"
    by (simp_all add: medium_def INT_MAX_def)
  from last_round guess_prompt_last_attempt have c1:
    "(\<exists>vf w3. guess_loop medium 7 \<lparr>attempts_l = 9, lowHint = 1, highHint = 100\<rparr> (console [''50'']) =
               (Inr (AttemptsExhausted, vf), cout (exhausted_stmt medium 7) w3)
      \<and> attempts_l vf = maxAttempts medium)
     \<and> last (stdout (snd (guess_loop medium 7 \<lparr>attempts_l = 9, lowHint = 1, highHint = 100\<rparr>
                          (console [''50''])))) = exhausted_stmt medium 7"
    by (simp add: medium_def INT_MAX_def)
  from last_round guess_loop_last_attempt have c2:
    "attempts_l \<lparr>attempts_l = 10, lowHint = 1, highHint = 49\<rparr> = maxAttempts medium"
    by (simp add: medium_def)
  from unlimited have c3: "maxAttempts easy = 0
     \<and> fst (guess_loop easy 7 \<lparr>attempts_l = 0, lowHint = 1, highHint = 20\<rparr> (console [''50'']))
       \<noteq> Inr (AttemptsExhausted, \<lparr>attempts_l = 1, lowHint = 1, highHint = 20\<rparr>)"
    by (simp add: easy_def)
  from nine ar pr lim have c4:
    "\<exists>ve. fst (guess_loop medium 50 ?v0 ?w0) = Inr (AttemptsExhausted, ve) \<and> attempts_l ve = 10"
    by (simp del: after_rounds.simps)
  from typed gs lim lines(1) have c5:
    "last (stdout (snd (guess_loop medium 50 ?v0 ?w0))) = exhausted_stmt medium 50
     \<and> stdin (snd (guess_loop medium 50 ?v0 ?w0)) = [''11'', ''12'']"
    by simp
  from session gs lim lines(2) pg have c6:
    "attempts ?res = 10
     \<and> exhausted_stmt medium 50 \<in> set (printed ?ws (snd (play_game medium 50 3 ''t'' ?ws)))"
    by (simp add: medium_def)
  have sd: "score_defined (maxAttempts medium) medium"
    by (simp add: score_defined_def medium_def in_int_def INT_MIN_def INT_MAX_def)
  from session gs lim lines(2) sd have c7:
    "\<exists>r p. play_game medium 50 3 ''t'' ?ws = (Inr r, p) \<and> attempts r = 10
        \<and> exhausted_stmt medium 50 \<in> set (printed ?ws p)"
    by (simp add: medium_def)
  from c1 guess_loop_last_attempt c2 c3 c4 c5 twelve_guesses_end c6 c7 show ?thesis
    by blast
qed

section \<open>The ranges displayed\<close>

lemma shown_range_stmt [simp]: "shown_range (range_stmt lo hi) = Some (lo, hi)"
  by (simp add: shown_range_def range_stmt_def)

lemma shown_range_Some: "shown_range m = Some (lo, hi) \<Longrightarrow> m = range_stmt lo hi"
  by (auto simp: shown_range_def split: list.splits item.splits if_splits)

lemma ranges_shown_append: "ranges_shown (xs @ ys) = ranges_shown xs @ ranges_shown ys"
  by (induction xs) (simp_all split: option.splits)

lemma ranges_shown_no_range: "no_range n \<Longrightarrow> ranges_shown n = []"
proof (induction n)
  case Nil
  show ?case
    by simp
next
  case (Cons m ms)
  from Cons.prems have "no_range ms" and nm: "\<forall>lo hi. m \<noteq> range_stmt lo hi"
    by (auto simp: no_range_def)
  have "shown_range m = None"
  proof (cases "shown_range m")
    case (Some r)
    with shown_range_Some [of m "fst r" "snd r"] nm show ?thesis
      by simp
  qed simp
  with Cons.IH [OF \<open>no_range ms\<close>] show ?case
    by simp
qed

lemma after_rounds_ranges:
  "after_rounds cfg secret gs v w = Some (vn, wn) \<Longrightarrow>
     \<exists>pre. stdout wn = stdout w @ pre \<and> length (ranges_shown pre) = length gs"
proof (induction gs arbitrary: v w)
  case Nil
  then show ?case
    by simp
next
  case (Cons g gs)
  from Cons.prems obtain w2 v1 w3 where pr: "guess_prompt v w = (Some g, w2)"
    and gb: "guess_body cfg secret g v w2 = Inr (None, v1, w3)"
    and ar: "after_rounds cfg secret gs v1 w3 = Some (vn, wn)"
    by (rule after_rounds_Cons)
  from guess_prompt_prints [of v w] pr obtain n1 where
    n1: "stdout w2 = stdout w @ range_stmt (lowHint v) (highHint v) # n1" "no_range n1"
    by auto
  from guess_body_prints [OF gb] obtain n2 where n2: "stdout w3 = stdout w2 @ n2" "no_range n2"
    by blast
  from Cons.IH [OF ar] obtain n3 where
    n3: "stdout wn = stdout w3 @ n3" "length (ranges_shown n3) = length gs"
    by blast
  have "stdout wn = stdout w @ ([range_stmt (lowHint v) (highHint v)] @ n1 @ n2 @ n3)"
    using n1(1) n2(1) n3(1) by simp
  moreover have "length (ranges_shown ([range_stmt (lowHint v) (highHint v)] @ n1 @ n2 @ n3)) =
      length (g # gs)"
    unfolding ranges_shown_append
    using n1(2) n2(2) n3(2) by (simp add: ranges_shown_no_range)
  ultimately show ?case
    by blast
qed

lemma loop_range_shown:
  assumes ar: "after_rounds cfg secret gs v w = Some (vn, wn)"
  shows "length gs < length (ranges_shown (printed w (snd (guess_loop cfg secret v w))))
     \<and> ranges_shown (printed w (snd (guess_loop cfg secret v w))) ! length gs =
         (lowHint vn, highHint vn)"
proof -
  from after_rounds_ranges [OF ar] obtain pre where
    pre: "stdout wn = stdout w @ pre" "length (ranges_shown pre) = length gs"
    by blast
  from guess_loop_prints [of cfg secret vn wn] obtain new where
    "stdout (snd (guess_loop cfg secret vn wn)) =
       stdout wn @ range_stmt (lowHint vn) (highHint vn) # new"
    by blast
  with after_rounds_loop [OF ar] pre(1) have
    "printed w (snd (guess_loop cfg secret v w)) =
       pre @ [range_stmt (lowHint vn) (highHint vn)] @ new"
    by (simp add: printed_def)
  then have "ranges_shown (printed w (snd (guess_loop cfg secret v w))) =
      ranges_shown pre @ (lowHint vn, highHint vn) # ranges_shown new"
    by (simp add: ranges_shown_append)
  with pre(2) show ?thesis
    by (simp add: nth_append)
qed

lemma play_game_ranges:
  "ranges_shown (printed w (snd (play_game cfg secret elapsed now w))) =
     ranges_shown (printed (game_intro cfg w)
       (snd (guess_loop cfg secret (start_locals cfg) (game_intro cfg w))))"
proof -
  from game_intro_stdout obtain n0 where
    n0: "stdout (game_intro cfg w) = stdout w @ n0" "no_range n0"
    by blast
  from guess_loop_prints [of cfg secret "start_locals cfg" "game_intro cfg w"] obtain n1 where
    n1: "stdout (snd (guess_loop cfg secret (start_locals cfg) (game_intro cfg w))) =
           stdout (game_intro cfg w) @ n1"
    by blast
  from play_game_stdout obtain n2 where
    n2: "stdout (snd (play_game cfg secret elapsed now w)) =
          stdout (snd (guess_loop cfg secret (start_locals cfg) (game_intro cfg w))) @ n2"
      "no_range n2"
    by blast
  have "printed w (snd (play_game cfg secret elapsed now w)) = n0 @ n1 @ n2"
    using n0(1) n1 n2(1) by (simp add: printed_def)
  moreover have "printed (game_intro cfg w)
       (snd (guess_loop cfg secret (start_locals cfg) (game_intro cfg w))) = n1"
    using n1 by (simp add: printed_def)
  ultimately show ?thesis
    using n0(2) n2(2) by (simp add: ranges_shown_append ranges_shown_no_range)
qed

lemma rounds_then_shown:
  assumes inv: "lowHint v \<le> secret" "secret \<le> highHint v"
    and ar: "after_rounds cfg secret gs v w = Some (vn, wn)"
    and sh: "range_stmt lo hi \<in> set (printed wn (snd (guess_loop cfg secret v w)))"
  shows "lowHint vn \<le> lo \<and> lo \<le> secret \<and> secret \<le> hi \<and> hi \<le> highHint vn"
proof -
  from after_rounds_hints [OF ar inv] have invn: "lowHint vn \<le> secret \<and> secret \<le> highHint vn"
    by simp
  with hints_kept_loop [of vn secret wn cfg]
  have "shows_within secret (lowHint vn) (highHint vn)
          (printed wn (snd (guess_loop cfg secret vn wn)))"
    by (simp add: hints_kept_printed)
  with sh after_rounds_loop [OF ar] show ?thesis
    unfolding shows_within_def by simp
qed

lemma numeral_rounds_shown:
  assumes inv: "lowHint v \<le> secret" "secret \<le> highHint v"
    and gs: "\<forall>y\<in>set gs. in_int y \<and> y \<noteq> 0 \<and> y \<noteq> secret"
    and lim: "maxAttempts cfg \<le> 0 \<or> attempts_l v + int (length gs) < maxAttempts cfg"
    and le: "attempts_l v + int (length gs) \<le> INT_MAX"
    and st: "stdin w = map to_string gs @ rest"
  shows "\<exists>a b. length gs < length (ranges_shown (printed w (snd (guess_loop cfg secret v w))))
      \<and> ranges_shown (printed w (snd (guess_loop cfg secret v w))) ! length gs = (a, b)
      \<and> lowHint v \<le> a \<and> a \<le> secret \<and> secret \<le> b \<and> b \<le> highHint v
      \<and> (\<forall>y\<in>set gs. (secret < y \<longrightarrow> b \<le> y - 1) \<and> (y < secret \<longrightarrow> y + 1 \<le> a))"
proof -
  from numeral_rounds [OF gs lim le st] obtain vn wn where
    ar: "after_rounds cfg secret gs v w = Some (vn, wn)"
    by blast
  from loop_range_shown [OF ar] after_rounds_hints [OF ar inv] show ?thesis
    by blast
qed

text \<open>
  C3.  With the secret between the two hints, one round keeps it there and only narrows
  the hints: after a guess that is too high the upper hint is at most the guess minus
  one, after a guess that is too low the lower hint is at least the guess plus one.
  Every range the loop displays lies within the hints it started from and contains the
  secret, so do the hints it ends with, and so does every range displayed in a session
  whose secret lies within \<open>minValue\<close> and \<open>maxValue\<close>.  The narrowing holds of what is
  displayed: after the rounds that read the guesses \<open>gs\<close>, the next range displayed (the
  one at position \<open>length gs\<close> among the ranges of the output) is the pair of hints those
  rounds left, and it and every range displayed later has its upper bound at most \<open>g - 1\<close>
  for each \<open>g\<close> of \<open>gs\<close> above the secret and its lower bound at least \<open>g + 1\<close> for each
  \<open>g\<close> below it.  On an input of plain numerals this is a statement about the loop, and
  about the session, alone: after the wrong guesses \<open>gs\<close> such a range is displayed.
\<close>

theorem hint_range_invariant:
  "(lowHint v \<le> secret \<and> secret \<le> highHint v
      \<and> guess_body cfg secret g v w = Inr (oc, v', w') \<longrightarrow>
        lowHint v \<le> lowHint v' \<and> lowHint v' \<le> secret \<and> secret \<le> highHint v'
        \<and> highHint v' \<le> highHint v
        \<and> (g \<noteq> 0 \<and> secret < g \<longrightarrow> highHint v' \<le> g - 1)
        \<and> (g \<noteq> 0 \<and> g < secret \<longrightarrow> g + 1 \<le> lowHint v'))
   \<and> (lowHint v \<le> secret \<and> secret \<le> highHint v
      \<and> range_stmt lo hi \<in> set (printed w (snd (guess_loop cfg secret v w))) \<longrightarrow>
        lowHint v \<le> lo \<and> lo \<le> secret \<and> secret \<le> hi \<and> hi \<le> highHint v)
   \<and> (lowHint v \<le> secret \<and> secret \<le> highHint v
      \<and> fst (guess_loop cfg secret v w) = Inr (ocf, vf) \<longrightarrow>
        lowHint v \<le> lowHint vf \<and> lowHint vf \<le> secret \<and> secret \<le> highHint vf
        \<and> highHint vf \<le> highHint v)
   \<and> (minValue cfg \<le> secret \<and> secret \<le> maxValue cfg
      \<and> range_stmt lo hi \<in> set (printed w (snd (play_game cfg secret elapsed now w))) \<longrightarrow>
        minValue cfg \<le> lo \<and> lo \<le> secret \<and> secret \<le> hi \<and> hi \<le> maxValue cfg)
   \<and> (lowHint v \<le> secret \<and> secret \<le> highHint v
      \<and> after_rounds cfg secret gs v w = Some (vn, wn) \<longrightarrow>
        length gs < length (ranges_shown (printed w (snd (guess_loop cfg secret v w))))
        \<and> ranges_shown (printed w (snd (guess_loop cfg secret v w))) ! length gs =
            (lowHint vn, highHint vn)
        \<and> lowHint v \<le> lowHint vn \<and> lowHint vn \<le> secret \<and> secret \<le> highHint vn
        \<and> highHint vn \<le> highHint v
        \<and> (\<forall>y\<in>set gs. (secret < y \<longrightarrow> highHint vn \<le> y - 1)
                        \<and> (y < secret \<longrightarrow> y + 1 \<le> lowHint vn)))
   \<and> (lowHint v \<le> secret \<and> secret \<le> highHint v
      \<and> after_rounds cfg secret gs v w = Some (vn, wn) \<and> x \<in> set gs
      \<and> range_stmt lo hi \<in> set (printed wn (snd (guess_loop cfg secret v w))) \<longrightarrow>
        lo \<le> secret \<and> secret \<le> hi
        \<and> (secret < x \<longrightarrow> hi \<le> x - 1) \<and> (x < secret \<longrightarrow> x + 1 \<le> lo))
   \<and> (lowHint v \<le> secret \<and> secret \<le> highHint v
      \<and> (\<forall>y\<in>set gs. in_int y \<and> y \<noteq> 0 \<and> y \<noteq> secret)
      \<and> (maxAttempts cfg \<le> 0 \<or> attempts_l v + int (length gs) < maxAttempts cfg)
      \<and> attempts_l v + int (length gs) \<le> INT_MAX
      \<and> stdin w = map to_string gs @ rest \<longrightarrow>
        (\<exists>a b. length gs < length (ranges_shown (printed w (snd (guess_loop cfg secret v w))))
           \<and> ranges_shown (printed w (snd (guess_loop cfg secret v w))) ! length gs = (a, b)
           \<and> lowHint v \<le> a \<and> a \<le> secret \<and> secret \<le> b \<and> b \<le> highHint v
           \<and> (\<forall>y\<in>set gs. (secret < y \<longrightarrow> b \<le> y - 1) \<and> (y < secret \<longrightarrow> y + 1 \<le> a))))
   \<and> (minValue cfg \<le> secret \<and> secret \<le> maxValue cfg
      \<and> (\<forall>y\<in>set gs. in_int y \<and> y \<noteq> 0 \<and> y \<noteq> secret)
      \<and> (maxAttempts cfg \<le> 0 \<or> int (length gs) < maxAttempts cfg)
      \<and> int (length gs) \<le> INT_MAX
      \<and> stdin w = map to_string gs @ rest \<longrightarrow>
        (\<exists>a b. length gs
                  < length (ranges_shown (printed w (snd (play_game cfg secret elapsed now w))))
           \<and> ranges_shown (printed w (snd (play_game cfg secret elapsed now w))) ! length gs
               = (a, b)
           \<and> minValue cfg \<le> a \<and> a \<le> secret \<and> secret \<le> b \<and> b \<le> maxValue cfg
           \<and> (\<forall>y\<in>set gs. (secret < y \<longrightarrow> b \<le> y - 1) \<and> (y < secret \<longrightarrow> y + 1 \<le> a))))"
proof (intro conjI)
  show "lowHint v \<le> secret \<and> secret \<le> highHint v
      \<and> guess_body cfg secret g v w = Inr (oc, v', w') \<longrightarrow>
        lowHint v \<le> lowHint v' \<and> lowHint v' \<le> secret \<and> secret \<le> highHint v'
        \<and> highHint v' \<le> highHint v
        \<and> (g \<noteq> 0 \<and> secret < g \<longrightarrow> highHint v' \<le> g - 1)
        \<and> (g \<noteq> 0 \<and> g < secret \<longrightarrow> g + 1 \<le> lowHint v')"
    using guess_body_hints [of cfg secret g v w oc v' w'] by blast
next
  show "lowHint v \<le> secret \<and> secret \<le> highHint v
      \<and> range_stmt lo hi \<in> set (printed w (snd (guess_loop cfg secret v w))) \<longrightarrow>
        lowHint v \<le> lo \<and> lo \<le> secret \<and> secret \<le> hi \<and> hi \<le> highHint v"
  proof
    assume a: "lowHint v \<le> secret \<and> secret \<le> highHint v
      \<and> range_stmt lo hi \<in> set (printed w (snd (guess_loop cfg secret v w)))"
    with hints_kept_loop [of v secret w cfg]
    have "shows_within secret (lowHint v) (highHint v) (printed w (snd (guess_loop cfg secret v w)))"
      by (simp add: hints_kept_printed)
    with a show "lowHint v \<le> lo \<and> lo \<le> secret \<and> secret \<le> hi \<and> hi \<le> highHint v"
      unfolding shows_within_def by blast
  qed
next
  show "lowHint v \<le> secret \<and> secret \<le> highHint v
      \<and> fst (guess_loop cfg secret v w) = Inr (ocf, vf) \<longrightarrow>
        lowHint v \<le> lowHint vf \<and> lowHint vf \<le> secret \<and> secret \<le> highHint vf
        \<and> highHint vf \<le> highHint v"
  proof
    assume a: "lowHint v \<le> secret \<and> secret \<le> highHint v
      \<and> fst (guess_loop cfg secret v w) = Inr (ocf, vf)"
    with hints_kept_loop [of v secret w cfg]
    show "lowHint v \<le> lowHint vf \<and> lowHint vf \<le> secret \<and> secret \<le> highHint vf
        \<and> highHint vf \<le> highHint v"
      by (simp add: hints_kept_def)
  qed
next
  show "minValue cfg \<le> secret \<and> secret \<le> maxValue cfg
      \<and> range_stmt lo hi \<in> set (printed w (snd (play_game cfg secret elapsed now w))) \<longrightarrow>
        minValue cfg \<le> lo \<and> lo \<le> secret \<and> secret \<le> hi \<and> hi \<le> maxValue cfg"
  proof
    assume a: "minValue cfg \<le> secret \<and> secret \<le> maxValue cfg
      \<and> range_stmt lo hi \<in> set (printed w (snd (play_game cfg secret elapsed now w)))"
    then have "shows_within secret (minValue cfg) (maxValue cfg)
           (printed w (snd (play_game cfg secret elapsed now w)))"
      by (simp add: play_game_hints)
    with a show "minValue cfg \<le> lo \<and> lo \<le> secret \<and> secret \<le> hi \<and> hi \<le> maxValue cfg"
      unfolding shows_within_def by blast
  qed
next
  show "lowHint v \<le> secret \<and> secret \<le> highHint v
      \<and> after_rounds cfg secret gs v w = Some (vn, wn) \<longrightarrow>
        length gs < length (ranges_shown (printed w (snd (guess_loop cfg secret v w))))
        \<and> ranges_shown (printed w (snd (guess_loop cfg secret v w))) ! length gs =
            (lowHint vn, highHint vn)
        \<and> lowHint v \<le> lowHint vn \<and> lowHint vn \<le> secret \<and> secret \<le> highHint vn
        \<and> highHint vn \<le> highHint v
        \<and> (\<forall>y\<in>set gs. (secret < y \<longrightarrow> highHint vn \<le> y - 1)
                        \<and> (y < secret \<longrightarrow> y + 1 \<le> lowHint vn))"
    using loop_range_shown [of cfg secret gs v w vn wn]
      after_rounds_hints [of cfg secret gs v w vn wn]
    by blast
next
  show "lowHint v \<le> secret \<and> secret \<le> highHint v
      \<and> after_rounds cfg secret gs v w = Some (vn, wn) \<and> x \<in> set gs
      \<and> range_stmt lo hi \<in> set (printed wn (snd (guess_loop cfg secret v w))) \<longrightarrow>
        lo \<le> secret \<and> secret \<le> hi
        \<and> (secret < x \<longrightarrow> hi \<le> x - 1) \<and> (x < secret \<longrightarrow> x + 1 \<le> lo)"
  proof
    assume a: "lowHint v \<le> secret \<and> secret \<le> highHint v
      \<and> after_rounds cfg secret gs v w = Some (vn, wn) \<and> x \<in> set gs
      \<and> range_stmt lo hi \<in> set (printed wn (snd (guess_loop cfg secret v w)))"
    then have inv: "lowHint v \<le> secret" "secret \<le> highHint v"
      and ar: "after_rounds cfg secret gs v w = Some (vn, wn)" and x: "x \<in> set gs"
      and sh: "range_stmt lo hi \<in> set (printed wn (snd (guess_loop cfg secret v w)))"
      by simp_all
    from after_rounds_hints [OF ar inv] x have
      "(secret < x \<longrightarrow> highHint vn \<le> x - 1) \<and> (x < secret \<longrightarrow> x + 1 \<le> lowHint vn)"
      by blast
    with rounds_then_shown [OF inv ar sh]
    show "lo \<le> secret \<and> secret \<le> hi
        \<and> (secret < x \<longrightarrow> hi \<le> x - 1) \<and> (x < secret \<longrightarrow> x + 1 \<le> lo)"
      by auto
  qed
next
  show "lowHint v \<le> secret \<and> secret \<le> highHint v
      \<and> (\<forall>y\<in>set gs. in_int y \<and> y \<noteq> 0 \<and> y \<noteq> secret)
      \<and> (maxAttempts cfg \<le> 0 \<or> attempts_l v + int (length gs) < maxAttempts cfg)
      \<and> attempts_l v + int (length gs) \<le> INT_MAX
      \<and> stdin w = map to_string gs @ rest \<longrightarrow>
        (\<exists>a b. length gs < length (ranges_shown (printed w (snd (guess_loop cfg secret v w))))
           \<and> ranges_shown (printed w (snd (guess_loop cfg secret v w))) ! length gs = (a, b)
           \<and> lowHint v \<le> a \<and> a \<le> secret \<and> secret \<le> b \<and> b \<le> highHint v
           \<and> (\<forall>y\<in>set gs. (secret < y \<longrightarrow> b \<le> y - 1) \<and> (y < secret \<longrightarrow> y + 1 \<le> a)))"
    using numeral_rounds_shown [of v secret gs cfg w rest] by blast
next
  show "minValue cfg \<le> secret \<and> secret \<le> maxValue cfg
      \<and> (\<forall>y\<in>set gs. in_int y \<and> y \<noteq> 0 \<and> y \<noteq> secret)
      \<and> (maxAttempts cfg \<le> 0 \<or> int (length gs) < maxAttempts cfg)
      \<and> int (length gs) \<le> INT_MAX
      \<and> stdin w = map to_string gs @ rest \<longrightarrow>
        (\<exists>a b. length gs
                  < length (ranges_shown (printed w (snd (play_game cfg secret elapsed now w))))
           \<and> ranges_shown (printed w (snd (play_game cfg secret elapsed now w))) ! length gs
               = (a, b)
           \<and> minValue cfg \<le> a \<and> a \<le> secret \<and> secret \<le> b \<and> b \<le> maxValue cfg
           \<and> (\<forall>y\<in>set gs. (secret < y \<longrightarrow> b \<le> y - 1) \<and> (y < secret \<longrightarrow> y + 1 \<le> a)))"
  proof
    assume a: "minValue cfg \<le> secret \<and> secret \<le> maxValue cfg
      \<and> (\<forall>y\<in>set gs. in_int y \<and> y \<noteq> 0 \<and> y \<noteq> secret)
      \<and> (maxAttempts cfg \<le> 0 \<or> int (length gs) < maxAttempts cfg)
      \<and> int (length gs) \<le> INT_MAX
      \<and> stdin w = map to_string gs @ rest"
    have "\<exists>a b. length gs < length (ranges_shown (printed (game_intro cfg w)
              (snd (guess_loop cfg secret (start_locals cfg) (game_intro cfg w)))))
      \<and> ranges_shown (printed (game_intro cfg w)
              (snd (guess_loop cfg secret (start_locals cfg) (game_intro cfg w)))) ! length gs = (a, b)
      \<and> lowHint (start_locals cfg) \<le> a \<and> a \<le> secret \<and> secret \<le> b
      \<and> b \<le> highHint (start_locals cfg)
      \<and> (\<forall>y\<in>set gs. (secret < y \<longrightarrow> b \<le> y - 1) \<and> (y < secret \<longrightarrow> y + 1 \<le> a))"
      using a by (intro numeral_rounds_shown) (simp_all add: start_locals_def game_intro_stdin)
    then show "\<exists>a b. length gs
                  < length (ranges_shown (printed w (snd (play_game cfg secret elapsed now w))))
           \<and> ranges_shown (printed w (snd (play_game cfg secret elapsed now w))) ! length gs
               = (a, b)
           \<and> minValue cfg \<le> a \<and> a \<le> secret \<and> secret \<le> b \<and> b \<le> maxValue cfg
           \<and> (\<forall>y\<in>set gs. (secret < y \<longrightarrow> b \<le> y - 1) \<and> (y < secret \<longrightarrow> y + 1 \<le> a))"
      unfolding play_game_ranges by (simp add: start_locals_def)
  qed
qed

lemma too_high_round:
  "guess_body easy 7 10 \<lparr>attempts_l = 0, lowHint = 1, highHint = 20\<rparr> (console [''7'', ''Ann''])
     = Inr (None, \<lparr>attempts_l = 1, lowHint = 1, highHint = 9\<rparr>,
            cout [Str (''Too high.'' @ [NL])] (console [''7'', ''Ann'']))"
  by (simp add: guess_body_def easy_def INT_MAX_def)

lemma narrowed_range_shown:
  "range_stmt 1 9 \<in> set (printed (console [''10'', ''7'', ''Ann''])
     (snd (guess_loop easy 7 \<lparr>attempts_l = 0, lowHint = 1, highHint = 20\<rparr>
             (console [''10'', ''7'', ''Ann'']))))"
  by code_simp

lemma narrowed_range_end:
  "fst (guess_loop easy 7 \<lparr>attempts_l = 0, lowHint = 1, highHint = 20\<rparr>
          (console [''10'', ''7'', ''Ann''])) = Inr (Correct, \<lparr>attempts_l = 2, lowHint = 1, highHint = 9\<rparr>)"
  by code_simp

lemma narrowed_range_session:
  "range_stmt 1 9 \<in> set (printed (console [''10'', ''7'', ''Ann''])
     (snd (play_game easy 7 3 ''t'' (console [''10'', ''7'', ''Ann'']))))"
proof -
  have "range_stmt 1 9 \<in> set (stdout (snd (guess_loop easy 7 (start_locals easy)
          (game_intro easy (console [''10'', ''7'', ''Ann''])))))"
    by code_simp
  moreover from play_game_stdout [of easy 7 3 "''t''" "console [''10'', ''7'', ''Ann'']"]
  obtain n where "stdout (snd (play_game easy 7 3 ''t'' (console [''10'', ''7'', ''Ann'']))) =
      stdout (snd (guess_loop easy 7 (start_locals easy)
          (game_intro easy (console [''10'', ''7'', ''Ann''])))) @ n"
    by blast
  ultimately show ?thesis
    by (simp add: printed_def console_def)
qed

lemma three_high_ranges:
  "ranges_shown (printed (console [''15'', ''12'', ''9'', ''5'', ''Ann''])
     (snd (guess_loop easy 5 \<lparr>attempts_l = 0, lowHint = 1, highHint = 20\<rparr>
             (console [''15'', ''12'', ''9'', ''5'', ''Ann''])))) =
     [(1, 20), (1, 14), (1, 11), (1, 8)]"
  by code_simp

lemma three_high_rounds:
  "map_option fst (after_rounds easy 5 [15, 12, 9] \<lparr>attempts_l = 0, lowHint = 1, highHint = 20\<rparr>
     (console [''15'', ''12'', ''9'', ''5'', ''Ann''])) =
     Some \<lparr>attempts_l = 3, lowHint = 1, highHint = 8\<rparr>"
  by code_simp

lemma three_high_then:
  "range_stmt 1 8 \<in> set (printed
     (snd (the (after_rounds easy 5 [15, 12, 9] \<lparr>attempts_l = 0, lowHint = 1, highHint = 20\<rparr>
                  (console [''15'', ''12'', ''9'', ''5'', ''Ann'']))))
     (snd (guess_loop easy 5 \<lparr>attempts_l = 0, lowHint = 1, highHint = 20\<rparr>
             (console [''15'', ''12'', ''9'', ''5'', ''Ann'']))))"
  by code_simp

theorem hint_range_invariant_witness:
  "guess_body easy 7 10 \<lparr>attempts_l = 0, lowHint = 1, highHint = 20\<rparr> (console [''7'', ''Ann''])
     = Inr (None, \<lparr>attempts_l = 1, lowHint = 1, highHint = 9\<rparr>,
            cout [Str (''Too high.'' @ [NL])] (console [''7'', ''Ann'']))
   \<and> highHint \<lparr>attempts_l = 1, lowHint = 1, highHint = 9\<rparr> \<le> 10 - 1
   \<and> range_stmt 1 9 \<in> set (printed (console [''10'', ''7'', ''Ann''])
       (snd (guess_loop easy 7 \<lparr>attempts_l = 0, lowHint = 1, highHint = 20\<rparr>
               (console [''10'', ''7'', ''Ann'']))))
   \<and> (1::int) \<le> 1 \<and> (1::int) \<le> 7 \<and> (7::int) \<le> 9 \<and> (9::int) \<le> 20
   \<and> fst (guess_loop easy 7 \<lparr>attempts_l = 0, lowHint = 1, highHint = 20\<rparr>
          (console [''10'', ''7'', ''Ann''])) = Inr (Correct, \<lparr>attempts_l = 2, lowHint = 1, highHint = 9\<rparr>)
   \<and> range_stmt 1 9 \<in> set (printed (console [''10'', ''7'', ''Ann''])
       (snd (play_game easy 7 3 ''t'' (console [''10'', ''7'', ''Ann'']))))
   \<and> minValue easy \<le> 1 \<and> (9::int) \<le> maxValue easy
   \<and> ranges_shown (printed (console [''15'', ''12'', ''9'', ''5'', ''Ann''])
        (snd (guess_loop easy 5 \<lparr>attempts_l = 0, lowHint = 1, highHint = 20\<rparr>
                (console [''15'', ''12'', ''9'', ''5'', ''Ann''])))) =
        [(1, 20), (1, 14), (1, 11), (1, 8)]
   \<and> ranges_shown (printed (console [''15'', ''12'', ''9'', ''5'', ''Ann''])
        (snd (guess_loop easy 5 \<lparr>attempts_l = 0, lowHint = 1, highHint = 20\<rparr>
                (console [''15'', ''12'', ''9'', ''5'', ''Ann''])))) ! length [15, 12, 9 :: int] =
        (1, 8)
   \<and> (8::int) \<le> 9 - 1
   \<and> range_stmt 1 8 \<in> set (printed
        (snd (the (after_rounds easy 5 [15, 12, 9] \<lparr>attempts_l = 0, lowHint = 1, highHint = 20\<rparr>
                     (console [''15'', ''12'', ''9'', ''5'', ''Ann'']))))
        (snd (guess_loop easy 5 \<lparr>attempts_l = 0, lowHint = 1, highHint = 20\<rparr>
                (console [''15'', ''12'', ''9'', ''5'', ''Ann'']))))
   \<and> (\<exists>a b. ranges_shown (printed (console [''15'', ''12'', ''9'', ''5'', ''Ann''])
        (snd (guess_loop easy 5 \<lparr>attempts_l = 0, lowHint = 1, highHint = 20\<rparr>
                (console [''15'', ''12'', ''9'', ''5'', ''Ann''])))) ! length [15, 12, 9 :: int] =
        (a, b) \<and> 1 \<le> a \<and> a \<le> 5 \<and> 5 \<le> b \<and> b \<le> 20
        \<and> (\<forall>y\<in>set [15, 12, 9]. (5 < y \<longrightarrow> b \<le> y - 1) \<and> (y < 5 \<longrightarrow> y + 1 \<le> a)))
   \<and> (\<exists>a b. ranges_shown (printed (console [''15'', ''12'', ''9'', ''5'', ''Ann''])
        (snd (play_game easy 5 3 ''t'' (console [''15'', ''12'', ''9'', ''5'', ''Ann''])))) !
          length [15, 12, 9 :: int] =
        (a, b) \<and> 1 \<le> a \<and> a \<le> 5 \<and> 5 \<le> b \<and> b \<le> 20
        \<and> (\<forall>y\<in>set [15, 12, 9]. (5 < y \<longrightarrow> b \<le> y - 1) \<and> (y < 5 \<longrightarrow> y + 1 \<le> a)))"
proof -
  let ?v0 = "\<lparr>attempts_l = 0, lowHint = 1, highHint = 20\<rparr>"
  let ?w0 = "console [''15'', ''12'', ''9'', ''5'', ''Ann'']"
  let ?v3 = "\<lparr>attempts_l = 3, lowHint = 1, highHint = 8\<rparr>"
  let ?w3 = "snd (the (after_rounds easy 5 [15, 12, 9] ?v0 ?w0))"
  have ar: "after_rounds easy 5 [15, 12, 9] ?v0 ?w0 = Some (?v3, ?w3)"
    by (rule option_pair [OF three_high_rounds])
  note round = hint_range_invariant [where v = ?v0 and secret = 7 and cfg = easy and g = 10
      and w = "console [''7'', ''Ann'']" and oc = None
      and v' = "\<lparr>attempts_l = 1, lowHint = 1, highHint = 9\<rparr>"
      and w' = "cout [Str (''Too high.'' @ [NL])] (console [''7'', ''Ann''])"]
  note run = hint_range_invariant [where v = ?v0 and secret = 7 and cfg = easy
      and w = "console [''10'', ''7'', ''Ann'']" and lo = 1 and hi = 9 and ocf = Correct
      and vf = "\<lparr>attempts_l = 2, lowHint = 1, highHint = 9\<rparr>" and elapsed = 3 and now = "''t''"]
  note rounds = hint_range_invariant [where v = ?v0 and secret = 5 and cfg = easy and w = ?w0
      and gs = "[15, 12, 9]" and vn = ?v3 and wn = ?w3 and x = 9 and lo = 1 and hi = 8
      and rest = "[''5'', ''Ann'']" and elapsed = 3 and now = "''t''"]
  have lines: "stdin ?w0 = map to_string [15, 12, 9] @ [''5'', ''Ann'']"
    by (simp add: console_def typed_numerals)
  have gs: "\<forall>y\<in>set [15, 12, 9]. in_int y \<and> y \<noteq> 0 \<and> y \<noteq> (5::int)"
    by (simp add: in_int_def INT_MIN_def INT_MAX_def)
  have lim: "maxAttempts easy \<le> 0" "int (length [15::int, 12, 9]) \<le> INT_MAX"
    "minValue easy \<le> 5" "5 \<le> maxValue easy"
    by (simp_all add: easy_def INT_MAX_def)
  from round too_high_round have c1:
    "highHint \<lparr>attempts_l = 1, lowHint = 1, highHint = 9\<rparr> \<le> 10 - 1"
    by simp
  from run narrowed_range_shown narrowed_range_end narrowed_range_session have c2:
    "(1::int) \<le> 1 \<and> (1::int) \<le> 7 \<and> (7::int) \<le> 9 \<and> (9::int) \<le> 20
     \<and> minValue easy \<le> 1 \<and> (9::int) \<le> maxValue easy"
    by (simp add: easy_def)
  from rounds ar have c3:
    "ranges_shown (printed ?w0 (snd (guess_loop easy 5 ?v0 ?w0))) ! length [15, 12, 9 :: int] = (1, 8)"
    by (simp del: after_rounds.simps)
  from rounds ar three_high_then have c4: "(8::int) \<le> 9 - 1"
    by (simp del: after_rounds.simps)
  from rounds gs lim lines have c5:
    "\<exists>a b. ranges_shown (printed ?w0 (snd (guess_loop easy 5 ?v0 ?w0))) ! length [15, 12, 9 :: int] =
        (a, b) \<and> 1 \<le> a \<and> a \<le> 5 \<and> 5 \<le> b \<and> b \<le> 20
        \<and> (\<forall>y\<in>set [15, 12, 9]. (5 < y \<longrightarrow> b \<le> y - 1) \<and> (y < 5 \<longrightarrow> y + 1 \<le> a))"
    by (simp add: easy_def del: after_rounds.simps)
  from rounds gs lim lines have c6:
    "\<exists>a b. ranges_shown (printed ?w0 (snd (play_game easy 5 3 ''t'' ?w0))) !
          length [15, 12, 9 :: int] =
        (a, b) \<and> 1 \<le> a \<and> a \<le> 5 \<and> 5 \<le> b \<and> b \<le> 20
        \<and> (\<forall>y\<in>set [15, 12, 9]. (5 < y \<longrightarrow> b \<le> y - 1) \<and> (y < 5 \<longrightarrow> y + 1 \<le> a))"
    by (simp add: easy_def del: after_rounds.simps)
  from too_high_round c1 narrowed_range_shown c2 narrowed_range_end narrowed_range_session
    three_high_ranges c3 c4 three_high_then c5 c6
  show ?thesis
    by blast
qed

end
